(* ===== verification/Prelude.thy ===== *)
theory Prelude
  imports Main "HOL-Library.Word"
begin

text \<open>
  Shared vocabulary of the development: the widths of the C integer types of
  \<open>sys/stdint.h\<close> as word types, the lemma collections the component theories fill
  (\<open>mem_simps\<close> for reads over writes, \<open>bit_defs\<close> for the bit-level definitions), and the
  facts on words, shifts and masks that more than one component needs.
\<close>

unbundle bit_operations_syntax

section \<open>The C integer types\<close>

type_synonym u8 = "8 word"
type_synonym u16 = "16 word"
type_synonym u32 = "32 word"
type_synonym u64 = "64 word"

named_theorems mem_simps "what a memory access returns after another one"
named_theorems bit_defs "definitions that are unfolded for bit-level reasoning"

section \<open>Words\<close>

lemma unat_less_64 [simp]: "unat (a :: u64) < 18446744073709551616"
  using unsigned_less [of a, where ?'a = nat] by simp

lemma unat_diff_zero_iff [simp]: "unat (b - a :: 'a::len word) = 0 \<longleftrightarrow> a = b"
  by (auto simp: unsigned_eq_0_iff)

text \<open>The distance from \<open>a + 1\<close> is one less than the distance from \<open>a\<close>.\<close>

lemma unat_diff_Suc:
  fixes a b :: "'a::len word"
  assumes "b \<noteq> a"
  shows "unat (b - a) = Suc (unat (b - (a + 1)))"
proof -
  have "b - a = (b - (a + 1)) + 1" by simp
  moreover have "(b - (a + 1)) + 1 \<noteq> 0" using assms by simp
  ultimately show ?thesis
    by (metis add.commute unatSuc)
qed

lemma unat_add_small:
  fixes a b :: "'a::len word"
  shows "unat a + unat b < 2 ^ LENGTH('a) \<Longrightarrow> unat (a + b) = unat a + unat b"
  by (simp add: unat_word_ariths)

lemma unat_of_nat_small [simp]:
  "n < 2 ^ LENGTH('a) \<Longrightarrow> unat (of_nat n :: 'a::len word) = n"
  by (simp add: unat_of_nat take_bit_nat_eq_self)

lemma unat_of_nat_64: "n < 2 ^ 64 \<Longrightarrow> unat (of_nat n :: u64) = n"
  by simp

lemma unat_ucast_32_64: "unat (ucast (w :: u32) :: u64) = unat w"
proof -
  have "unat w < 2 ^ 64" using unsigned_less [of w, where ?'a = nat] by simp
  then show ?thesis by (simp add: unsigned_ucast_eq take_bit_nat_eq_self)
qed

lemma unat_uminus_64: "w \<noteq> 0 \<Longrightarrow> unat (- w :: u64) = 2 ^ 64 - unat w"
proof -
  assume "w \<noteq> 0"
  then have "0 < unat w" by (simp add: unat_gt_0)
  have "of_nat (2 ^ 64 - unat w) = (of_nat (2 ^ 64) - of_nat (unat w) :: u64)"
    using less_imp_le [OF unat_less_64 [of w]] by (intro of_nat_diff) simp
  also have "\<dots> = - w" by simp
  finally have "- w = of_nat (2 ^ 64 - unat w)" by (rule sym)
  moreover have "2 ^ 64 - unat w < 2 ^ 64" using \<open>0 < unat w\<close> by simp
  ultimately show ?thesis by (simp only: unat_of_nat_64)
qed

text \<open>The masks of the source as truncations to their width.\<close>

lemma and_literal_mask [bit_defs]:
  fixes w :: "'a::len word"
  shows "w AND 127 = take_bit 7 w" "w AND 255 = take_bit 8 w" "w AND 511 = take_bit 9 w"
    "w AND 4095 = take_bit 12 w" "w AND 65535 = take_bit 16 w" "w AND 4294967295 = take_bit 32 w"
  by (simp_all add: take_bit_eq_mask mask_numeral)

lemma of_nat_unat_self [simp]: "of_nat (unat (a :: 'a::len word)) = a"
  by simp

section \<open>Bit-fields\<close>

text \<open>
  A packed C struct of bit-fields puts each field at an offset, least significant bit
  first. \<open>field k f\<close> is the value with \<open>f\<close> at offset \<open>k\<close> and zeros around it; \<open>field_at k w\<close>
  is the field at offset \<open>k\<close> of \<open>w\<close>, of the width of its type.
\<close>

definition field :: "nat \<Rightarrow> 'a::len word \<Rightarrow> 'b::len word" where
  "field k f = push_bit k (ucast f)"

definition field_at :: "nat \<Rightarrow> 'b::len word \<Rightarrow> 'a::len word" where
  "field_at k w = ucast (drop_bit k w)"

lemma bit_field [bit_defs]:
  "bit (field k (f :: 'a::len word) :: 'b::len word) n \<longleftrightarrow>
     n < LENGTH('b) \<and> k \<le> n \<and> n < k + LENGTH('a) \<and> bit f (n - k)"
  using bit_imp_le_length [of f "n - k"]
  by (auto simp: field_def bit_push_bit_iff bit_ucast_iff)

lemma bit_field_at [bit_defs]:
  "bit (field_at k (w :: 'b::len word) :: 'a::len word) n \<longleftrightarrow> n < LENGTH('a) \<and> bit w (k + n)"
  by (auto simp: field_at_def bit_ucast_iff bit_drop_bit_eq)

lemma bit_field_field_at [bit_defs]:
  "bit (field k (field_at k w :: 'a::len word) :: 'b::len word) n \<longleftrightarrow>
     k \<le> n \<and> n < k + LENGTH('a) \<and> bit (w :: 'b word) n"
  using bit_imp_le_length [of w n] by (auto simp: bit_field bit_field_at)

text \<open>Reading the fields of a word from the bottom up and putting them back gives its low bits.\<close>

lemma field_bottom:
  "field 0 (field_at 0 w :: 'a::len word) = take_bit LENGTH('a) (w :: 'b::len word)"
  by (rule bit_word_eqI) (auto simp: bit_field_field_at bit_take_bit_iff)

lemma field_next:
  "take_bit k w OR field k (field_at k w :: 'a::len word) = take_bit (k + LENGTH('a)) (w :: 'b::len word)"
  by (rule bit_word_eqI) (auto simp: bit_field_field_at bit_take_bit_iff bit_or_iff)

lemma field_next_1:
  "w mod 2 OR field (Suc 0) (field_at (Suc 0) w :: 'a::len word) = take_bit (1 + LENGTH('a)) (w :: 'b::len word)"
  using field_next [of 1 w, where ?'a = 'a] by simp

lemmas fields_join = field_bottom field_next field_next_1

end
