(* ===== verification/Memory.thy ===== *)
theory Memory
  imports Prelude
begin

text \<open>
  The physical memory the kernel and the boot loader work on, as a map from 64-bit
  addresses to bytes, with the little-endian accesses that a C load or store of a
  \<open>uint8_t\<close>, \<open>uint32_t\<close> or \<open>uint64_t\<close> is on x86-64. Address arithmetic wraps at \<open>2 ^ 64\<close>.
  The kernel runs identity-mapped, so a C pointer to a physical page is its address.
\<close>

section \<open>Byte memory\<close>

type_synonym mem = "u64 \<Rightarrow> u8"

text \<open>\<open>in_region a n b\<close>: the byte \<open>b\<close> is one of the \<open>n\<close> bytes from address \<open>a\<close> on.\<close>

definition in_region :: "u64 \<Rightarrow> nat \<Rightarrow> u64 \<Rightarrow> bool" where
  "in_region a n b \<longleftrightarrow> unat (b - a) < n"

lemma in_region_0 [simp]: "\<not> in_region a 0 b"
  by (simp add: in_region_def)

lemma in_region_self [simp]: "in_region a n a \<longleftrightarrow> 0 < n"
  by (simp add: in_region_def)

lemma in_region_Suc: "in_region a (Suc n) b \<longleftrightarrow> b = a \<or> in_region (a + 1) n b \<and> b \<noteq> a"
  by (cases "b = a") (auto simp: in_region_def unat_diff_Suc)

lemma in_region_mono: "in_region a n b \<Longrightarrow> n \<le> k \<Longrightarrow> in_region a k b"
  by (simp add: in_region_def)

lemma in_region_offset [simp]:
  "i < 2 ^ 64 \<Longrightarrow> in_region a n (a + of_nat i) \<longleftrightarrow> i < n"
  by (simp add: in_region_def)

primrec load_le :: "nat \<Rightarrow> mem \<Rightarrow> u64 \<Rightarrow> 'a::len word" where
  "load_le 0 m a = 0"
| "load_le (Suc k) m a = (ucast (m a) OR push_bit 8 (load_le k m (a + 1)))"

primrec store_le :: "nat \<Rightarrow> mem \<Rightarrow> u64 \<Rightarrow> 'a::len word \<Rightarrow> mem" where
  "store_le 0 m a v = m"
| "store_le (Suc k) m a v = (store_le k m (a + 1) (drop_bit 8 v))(a := ucast v)"

abbreviation load16 :: "mem \<Rightarrow> u64 \<Rightarrow> u16" where "load16 \<equiv> load_le 2"
abbreviation load32 :: "mem \<Rightarrow> u64 \<Rightarrow> u32" where "load32 \<equiv> load_le 4"
abbreviation load64 :: "mem \<Rightarrow> u64 \<Rightarrow> u64" where "load64 \<equiv> load_le 8"
abbreviation store16 :: "mem \<Rightarrow> u64 \<Rightarrow> u16 \<Rightarrow> mem" where "store16 \<equiv> store_le 2"
abbreviation store32 :: "mem \<Rightarrow> u64 \<Rightarrow> u32 \<Rightarrow> mem" where "store32 \<equiv> store_le 4"
abbreviation store64 :: "mem \<Rightarrow> u64 \<Rightarrow> u64 \<Rightarrow> mem" where "store64 \<equiv> store_le 8"

section \<open>What an access reads and writes\<close>

lemma store_le_apply:
  "k < 2 ^ 64 \<Longrightarrow> store_le k m a v b =
     (if in_region a k b then ucast (drop_bit (8 * unat (b - a)) v) else m b)"
proof (induction k arbitrary: a v)
  case 0
  then show ?case by simp
next
  case (Suc k)
  show ?case
  proof (cases "b = a")
    case True
    then show ?thesis by simp
  next
    case False
    from Suc False show ?thesis
      by (simp add: in_region_Suc unat_diff_Suc drop_bit_drop_bit add.commute)
  qed
qed

lemma store_le_other [mem_simps]:
  "k < 2 ^ 64 \<Longrightarrow> \<not> in_region a k b \<Longrightarrow> store_le k m a v b = m b"
  by (simp add: store_le_apply)

lemma load_numeral: "load_le (numeral k) m a = ucast (m a) OR push_bit 8 (load_le (pred_numeral k) m (a + 1))"
  by (simp add: numeral_eq_Suc)

lemma bit_load_le:
  "bit (load_le k m a :: 'a::len word) n \<longleftrightarrow>
     n < LENGTH('a) \<and> n < 8 * k \<and> bit (m (a + of_nat (n div 8))) (n mod 8)"
proof (induction k arbitrary: a n)
  case 0
  then show ?case by simp
next
  case (Suc k)
  show ?case
  proof (cases "n < 8")
    case True
    then show ?thesis
      by (auto simp: bit_or_iff bit_push_bit_iff bit_ucast_iff)
  next
    case False
    then have d: "n div 8 = Suc ((n - 8) div 8)" and r: "n mod 8 = (n - 8) mod 8"
      by (simp_all add: le_div_geq le_mod_geq)
    have b: "\<not> bit (m a) n"
      using False bit_imp_le_length [of "m a" n] by auto
    show ?thesis
      using False Suc.IH [of "a + 1" "n - 8"] b
      by (auto simp: bit_or_iff bit_push_bit_iff bit_ucast_iff d r add.assoc)
  qed
qed

lemma load_le_shift:
  "(\<And>i. i < k \<Longrightarrow> m (a + of_nat i) = m' (a' + of_nat i)) \<Longrightarrow> load_le k m a = (load_le k m' a' :: 'a::len word)"
  by (rule bit_word_eqI) (auto simp: bit_load_le)

lemma load_le_cong:
  "(\<And>i. i < k \<Longrightarrow> m (a + of_nat i) = m' (a + of_nat i)) \<Longrightarrow> load_le k m a = (load_le k m' a :: 'a::len word)"
  by (rule load_le_shift)

lemma load_store_le [mem_simps]:
  fixes v :: "'a::len word"
  assumes "k < 2 ^ 64" and "LENGTH('a) \<le> 8 * k"
  shows "load_le k (store_le k m a v) a = v"
proof (rule bit_word_eqI)
  fix n assume n: "n < LENGTH('a)"
  with assms have k: "n div 8 < k" by simp
  with assms have "n div 8 < 2 ^ 64" by simp
  with k n assms show "bit (load_le k (store_le k m a v) a :: 'a word) n = bit v n"
    by (simp add: bit_load_le store_le_apply bit_ucast_iff bit_drop_bit_eq)
qed

text \<open>Two accesses whose byte ranges are apart do not interact.\<close>

definition apart :: "u64 \<Rightarrow> nat \<Rightarrow> u64 \<Rightarrow> nat \<Rightarrow> bool" where
  "apart a n b k \<longleftrightarrow> (\<forall>i<k. \<not> in_region a n (b + of_nat i))"

lemma load_store_apart [mem_simps]:
  "k < 2 ^ 64 \<Longrightarrow> apart a k b j \<Longrightarrow>
     load_le j (store_le k m a v) b = (load_le j m b :: 'b::len word)"
  by (rule load_le_cong) (simp add: apart_def store_le_other)

lemma apartI:
  assumes "unat (b - a) \<ge> n" and "unat (b - a) + k \<le> 2 ^ 64"
  shows "apart a n b k"
proof (unfold apart_def in_region_def, intro allI impI)
  fix i assume i: "i < k"
  have e: "b + of_nat i - a = (b - a) + of_nat i" by simp
  have "i < 2 ^ 64" using i assms(2) by linarith
  then have u: "unat (of_nat i :: u64) = i" by simp
  have "unat (b + of_nat i - a) = unat (b - a) + i"
    unfolding e using i assms(2) u
    by (subst unat_add_small) simp_all
  with assms(1) show "\<not> unat (b + of_nat i - a) < n" by simp
qed

lemma apart_offset:
  assumes "x + n \<le> y \<or> y + k \<le> x" and "x + n \<le> 2 ^ 64" and "y + k \<le> 2 ^ 64"
  shows "apart (a + of_nat x) n (a + of_nat y) k"
proof (cases "x + n \<le> y")
  case True
  have d: "(of_nat y :: u64) - of_nat x = of_nat (y - x)" using True by (simp add: of_nat_diff)
  have "y - x < 2 ^ 64 \<or> k = 0" using assms(3) True by linarith
  moreover have ?thesis if "y - x < 2 ^ 64"
  proof -
    have "unat ((of_nat y :: u64) - of_nat x) = y - x" unfolding d using that by (rule unat_of_nat_64)
    then show ?thesis using True assms(3) by (intro apartI) simp_all
  qed
  moreover have ?thesis if "k = 0" using that by (simp add: apart_def)
  ultimately show ?thesis by blast
next
  case False
  with assms(1) have le: "y + k \<le> x" by blast
  show ?thesis
  proof (cases "k = 0")
    case True
    then show ?thesis by (simp add: apart_def)
  next
    case k: False
    have s: "x - y < 2 ^ 64 \<or> n = 0" using assms(2) by linarith
    have d: "(of_nat y :: u64) - of_nat x = - of_nat (x - y)"
      using le by (simp add: of_nat_diff)
    have ?thesis if l: "x - y < 2 ^ 64"
    proof -
      have u: "unat (of_nat (x - y) :: u64) = x - y" using l by (rule unat_of_nat_64)
      have "x - y \<noteq> 0" using le k by linarith
      then have "(of_nat (x - y) :: u64) \<noteq> 0" by (metis u unsigned_0)
      then have "unat ((of_nat y :: u64) - of_nat x) = 2 ^ 64 - (x - y)"
        unfolding d by (simp only: unat_uminus_64 u not_False_eq_True)
      then show ?thesis using le assms(2) by (intro apartI) simp_all
    qed
    moreover have ?thesis if "n = 0" using that by (simp add: apart_def in_region_def)
    ultimately show ?thesis using s by blast
  qed
qed

text \<open>A region that does not wrap, by its bounds.\<close>

lemma in_region_nat:
  assumes "x < 2 ^ 64" and "x + k \<le> 2 ^ 64"
  shows "in_region (of_nat x) k b \<longleftrightarrow> x \<le> unat b \<and> unat b < x + k"
proof -
  define y where "y = unat b"
  have y: "b = of_nat y" "y < 2 ^ 64" by (simp_all add: y_def)
  show ?thesis
  proof (cases "x \<le> y")
    case True
    then have "b - of_nat x = of_nat (y - x)" unfolding y(1) by (simp add: of_nat_diff)
    moreover have "y - x < 2 ^ 64" using y(2) by linarith
    ultimately have "unat (b - of_nat x) = y - x" by (simp only: unat_of_nat_64)
    with True show ?thesis by (auto simp: in_region_def y_def)
  next
    case False
    then have "b - of_nat x = - of_nat (x - y)" unfolding y(1) by (simp add: of_nat_diff)
    moreover have "x - y < 2 ^ 64" "x - y \<noteq> 0" using False assms(1) by linarith+
    then have "unat (of_nat (x - y) :: u64) = x - y" "(of_nat (x - y) :: u64) \<noteq> 0"
      by (simp_all only: unat_of_nat_64) (metis unat_of_nat_64 unsigned_0)
    ultimately have "unat (b - of_nat x) = 2 ^ 64 - (x - y)" by (simp only: unat_uminus_64 not_False_eq_True)
    with False assms show ?thesis by (auto simp: in_region_def y_def)
  qed
qed

lemma not_in_region_below: "b < a \<Longrightarrow> unat a + n \<le> 2 ^ 64 \<Longrightarrow> \<not> in_region a n b"
  using in_region_nat [of "unat a" n b] by (auto simp: word_less_nat_alt)

lemma in_region_part:
  assumes "in_region (a + of_nat c) k b" and "c + k \<le> n" and "n < 2 ^ 64"
  shows "in_region a n b"
proof -
  define e where "e = b - (a + of_nat c)"
  have "b - a = e + of_nat c" by (simp add: e_def)
  moreover have "unat e < k" using assms(1) by (simp add: in_region_def e_def)
  moreover have "unat (of_nat c :: u64) = c" using assms(2,3) by (intro unat_of_nat_64) linarith
  moreover have "unat (e + of_nat c) \<le> unat e + unat (of_nat c :: u64)"
    by (simp only: unat_word_ariths mod_less_eq_dividend)
  ultimately show ?thesis using assms(2) by (simp add: in_region_def)
qed

end
