(* ===== verification/Bitmap.thy ===== *)
theory Bitmap
  imports Memory
begin

text \<open>
  \<open>boot/kernel/bitmap.h\<close> and \<open>boot/kernel/bitmap.c\<close>: a bit array in memory. The guard of
  both operations is \<open>index > size * 8\<close>, so the index \<open>size * 8\<close>, one past the last bit,
  is let through to the byte after the buffer; the theory keeps that guard and says what
  holds below it. The interface other components rely on is the locale \<open>bit_array\<close>.
\<close>

section \<open>Code\<close>

record BITMAP =
  bm_buffer :: u64
  bm_size :: u64

definition bit_mask :: "u64 \<Rightarrow> u8" where
  "bit_mask index = (let bit_index = (ucast (index mod 8) :: u8) in push_bit (unat bit_index) 1)"

definition get_bitmap :: "mem \<Rightarrow> BITMAP \<Rightarrow> u64 \<Rightarrow> u8" where
  "get_bitmap m bitmap index =
     (if index > bm_size bitmap * 8 then 0
      else let byte_index = index div 8
           in if m (bm_buffer bitmap + byte_index) AND bit_mask index \<noteq> 0 then 1 else 0)"

definition set_bitmap :: "mem \<Rightarrow> BITMAP \<Rightarrow> u64 \<Rightarrow> u8 \<Rightarrow> u8 \<times> mem" where
  "set_bitmap m bitmap index value =
     (if index > bm_size bitmap * 8 then (0, m)
      else let a = bm_buffer bitmap + index div 8
           in if value \<noteq> 0 then (1, m(a := m a OR bit_mask index))
              else (1, m(a := m a AND NOT (bit_mask index))))"

section \<open>Bits\<close>

text \<open>The bit an index stands for, whatever the guards say.\<close>

definition bitmap_bit :: "mem \<Rightarrow> BITMAP \<Rightarrow> u64 \<Rightarrow> bool" where
  "bitmap_bit m bitmap i = bit (m (bm_buffer bitmap + i div 8)) (unat (i mod 8))"

lemma unat_mod_8: "unat (i mod 8 :: u64) = unat i mod 8"
  by (simp add: unat_mod)

lemma unat_div_8: "unat (i div 8 :: u64) = unat i div 8"
  by (simp add: unat_div)

lemma bit_mask_eq: "bit_mask i = push_bit (unat i mod 8) 1"
  by (simp add: bit_mask_def Let_def unat_mod_8 unsigned_ucast_eq take_bit_nat_eq_self)

lemma bit_bit_mask: "bit (bit_mask i) k \<longleftrightarrow> k = unat i mod 8"
  by (auto simp: bit_mask_eq bit_exp_iff)

lemma and_bit_mask_iff: "(b AND bit_mask i \<noteq> 0) \<longleftrightarrow> bit b (unat i mod 8)"
  using bit_imp_le_length [of b]
  by (auto simp: bit_eq_iff [where a = "b AND _"] bit_and_iff bit_bit_mask)

lemma get_bitmap_iff:
  "get_bitmap m bitmap i \<noteq> 0 \<longleftrightarrow> i \<le> bm_size bitmap * 8 \<and> bitmap_bit m bitmap i"
  by (auto simp: get_bitmap_def bitmap_bit_def Let_def and_bit_mask_iff unat_mod_8 not_le
      simp flip: not_less)

lemma get_bitmap_0_iff:
  "get_bitmap m bitmap i = 0 \<longleftrightarrow> (i \<le> bm_size bitmap * 8 \<longrightarrow> \<not> bitmap_bit m bitmap i)"
  using get_bitmap_iff [of m bitmap i] by blast

lemma get_bitmap_01: "get_bitmap m bitmap i \<in> {0, 1}"
  by (simp add: get_bitmap_def Let_def)

lemma same_bit_iff: "i = j \<longleftrightarrow> i div 8 = j div 8 \<and> unat i mod 8 = unat (j :: u64) mod 8"
  by (metis div_mult_mod_eq unat_div_8 word_unat_eq_iff)

lemma bitmap_bit_set:
  "bitmap_bit (snd (set_bitmap m bitmap i v)) bitmap j =
     (if i = j \<and> i \<le> bm_size bitmap * 8 then v \<noteq> 0 else bitmap_bit m bitmap j)"
proof (cases "i div 8 = j div 8")
  case True
  then show ?thesis
    by (auto simp: set_bitmap_def Let_def bitmap_bit_def bit_or_iff bit_and_iff bit_not_iff
        bit_bit_mask unat_mod_8 same_bit_iff [of i j] not_le not_less)
next
  case False
  then show ?thesis
    by (auto simp: set_bitmap_def Let_def bitmap_bit_def)
qed

lemma set_bitmap_status:
  "fst (set_bitmap m bitmap i v) = of_bool (i \<le> bm_size bitmap * 8)"
  by (auto simp: set_bitmap_def Let_def simp flip: not_less)

lemma set_bitmap_frame [mem_simps]:
  "b \<noteq> bm_buffer bitmap + i div 8 \<Longrightarrow> snd (set_bitmap m bitmap i v) b = m b"
  by (simp add: set_bitmap_def Let_def)

end
