(* ===== verification/Bit_Array.thy ===== *)
theory Bit_Array
  imports Bitmap
begin

text \<open>
  The interface of a finite array of bits, as the page allocator uses one: a lookup, an
  update and a number of bits, with the law that an update changes one bit. The locale
  counts clear bits and finds the first; \<open>boot/kernel/bitmap.c\<close> is its interpretation.
\<close>

locale bit_array =
  fixes get :: "'b \<Rightarrow> nat \<Rightarrow> bool"
    and put :: "'b \<Rightarrow> nat \<Rightarrow> bool \<Rightarrow> 'b"
    and limit :: "'b \<Rightarrow> nat"
  assumes get_put: "i < limit b \<Longrightarrow> j < limit b \<Longrightarrow> get (put b i v) j = (if i = j then v else get b j)"
    and limit_put: "limit (put b i v) = limit b"
begin

definition clear_set :: "'b \<Rightarrow> nat set" where
  "clear_set b = {i. i < limit b \<and> \<not> get b i}"

lemma finite_clear_set [simp]: "finite (clear_set b)"
  by (simp add: clear_set_def)

lemma clear_set_put:
  "i < limit b \<Longrightarrow> clear_set (put b i v) = (if v then clear_set b - {i} else insert i (clear_set b))"
  by (auto simp: clear_set_def limit_put get_put split: if_splits)

lemma card_put_True: "i \<in> clear_set b \<Longrightarrow> Suc (card (clear_set (put b i True))) = card (clear_set b)"
  using card_Suc_Diff1 [of "clear_set b" i] clear_set_put [of i b True]
  by (simp add: clear_set_def)

lemma card_put_False:
  "i < limit b \<Longrightarrow> get b i \<Longrightarrow> card (clear_set (put b i False)) = Suc (card (clear_set b))"
  by (subst clear_set_put) (auto simp: clear_set_def)

end

section \<open>Interpretation on the bitmap of the kernel\<close>

text \<open>
  The bitmap together with its memory. The number of bits is \<open>size * 8\<close>, as a number and
  not modulo \<open>2 ^ 64\<close>; a bitmap whose bit count does not fit counts as empty.
\<close>

definition bits_of :: "BITMAP \<Rightarrow> nat" where
  "bits_of bitmap = (if unat (bm_size bitmap) * 8 < 2 ^ 64 then unat (bm_size bitmap) * 8 else 0)"

definition bitmap_get :: "BITMAP \<times> mem \<Rightarrow> nat \<Rightarrow> bool" where
  "bitmap_get b i = (get_bitmap (snd b) (fst b) (of_nat i) \<noteq> 0)"

definition bitmap_put :: "BITMAP \<times> mem \<Rightarrow> nat \<Rightarrow> bool \<Rightarrow> BITMAP \<times> mem" where
  "bitmap_put b i v = (fst b, snd (set_bitmap (snd b) (fst b) (of_nat i) (of_bool v)))"

lemma bits_of_le: "i < bits_of bm \<Longrightarrow> (of_nat i :: u64) < bm_size bm * 8"
  by (auto simp: bits_of_def word_less_nat_alt unat_word_ariths split: if_splits)

lemma bits_of_small: "i < bits_of bm \<Longrightarrow> i < 2 ^ 64"
  by (auto simp: bits_of_def split: if_splits)

interpretation bm: bit_array bitmap_get bitmap_put "bits_of \<circ> fst"
proof unfold_locales
  fix i j and b :: "BITMAP \<times> mem" and v
  assume i: "i < (bits_of \<circ> fst) b" and j: "j < (bits_of \<circ> fst) b"
  then have "(of_nat i :: u64) = of_nat j \<longleftrightarrow> i = j"
    by (auto simp: word_of_nat_eq_iff take_bit_nat_eq_self dest!: bits_of_small)
  with i j show "bitmap_get (bitmap_put b i v) j = (if i = j then v else bitmap_get b j)"
    by (auto simp: bitmap_get_def bitmap_put_def get_bitmap_iff bitmap_bit_set less_imp_le
        dest!: bits_of_le)
next
  fix b :: "BITMAP \<times> mem" and i v
  show "(bits_of \<circ> fst) (bitmap_put b i v) = (bits_of \<circ> fst) b"
    by (simp add: bitmap_put_def)
qed

end
