(* ===== verification/Page_Alloc.thy ===== *)
theory Page_Alloc
  imports Bit_Array
begin

text \<open>
  The physical page allocator, lines 1 to 76 of \<open>boot/kernel/paging.c\<close>: the four operations
  that flip the bit of one page and move its size between the counters, their loops over a
  run of pages, and \<open>req_page\<close>. The locale \<open>page_op\<close> states the contract the four share and
  proves their loops once.
\<close>

section \<open>Code\<close>

abbreviation PAGE_SIZE :: u64 where "PAGE_SIZE \<equiv> 4096"

record PAGE_BITMAP =
  pb_bitmap :: BITMAP
  pb_free :: u64
  pb_reserved :: u64
  pb_used :: u64

text \<open>The allocator state: the \<open>PAGE_BITMAP\<close> object and the memory its buffer lives in.\<close>

type_synonym pager = "PAGE_BITMAP \<times> mem"

fun free_page :: "u64 \<Rightarrow> pager \<Rightarrow> pager" where
  "free_page addr (pb, m) =
     (let i = addr div PAGE_SIZE
      in if get_bitmap m (pb_bitmap pb) i \<noteq> 0
         then (pb\<lparr>pb_free := pb_free pb + PAGE_SIZE, pb_used := pb_used pb - PAGE_SIZE\<rparr>,
               snd (set_bitmap m (pb_bitmap pb) i 0))
         else (pb, m))"

fun lock_page :: "u64 \<Rightarrow> pager \<Rightarrow> pager" where
  "lock_page addr (pb, m) =
     (let i = addr div PAGE_SIZE
      in if get_bitmap m (pb_bitmap pb) i = 0
         then (pb\<lparr>pb_free := pb_free pb - PAGE_SIZE, pb_used := pb_used pb + PAGE_SIZE\<rparr>,
               snd (set_bitmap m (pb_bitmap pb) i 1))
         else (pb, m))"

fun unreserve_page :: "u64 \<Rightarrow> pager \<Rightarrow> pager" where
  "unreserve_page addr (pb, m) =
     (let i = addr div PAGE_SIZE
      in if get_bitmap m (pb_bitmap pb) i \<noteq> 0
         then (pb\<lparr>pb_free := pb_free pb + PAGE_SIZE, pb_reserved := pb_reserved pb - PAGE_SIZE\<rparr>,
               snd (set_bitmap m (pb_bitmap pb) i 0))
         else (pb, m))"

fun reserve_page :: "u64 \<Rightarrow> pager \<Rightarrow> pager" where
  "reserve_page addr (pb, m) =
     (let i = addr div PAGE_SIZE
      in if get_bitmap m (pb_bitmap pb) i = 0
         then (pb\<lparr>pb_free := pb_free pb - PAGE_SIZE, pb_reserved := pb_reserved pb + PAGE_SIZE\<rparr>,
               snd (set_bitmap m (pb_bitmap pb) i 1))
         else (pb, m))"

text \<open>The loop \<open>for (i = 0; i < page_cnt; i++) op(page_bitmap, addr + i * PAGE_SIZE)\<close>.\<close>

primrec pages_loop :: "(u64 \<Rightarrow> 's \<Rightarrow> 's) \<Rightarrow> u64 \<Rightarrow> nat \<Rightarrow> 's \<Rightarrow> 's" where
  "pages_loop op addr 0 s = s"
| "pages_loop op addr (Suc i) s = op (addr + of_nat i * PAGE_SIZE) (pages_loop op addr i s)"

definition free_pages :: "u64 \<Rightarrow> u64 \<Rightarrow> pager \<Rightarrow> pager" where
  "free_pages addr page_cnt = pages_loop free_page addr (unat page_cnt)"

definition lock_pages :: "u64 \<Rightarrow> u64 \<Rightarrow> pager \<Rightarrow> pager" where
  "lock_pages addr page_cnt = pages_loop lock_page addr (unat page_cnt)"

definition unreserve_pages :: "u64 \<Rightarrow> u64 \<Rightarrow> pager \<Rightarrow> pager" where
  "unreserve_pages addr page_cnt = pages_loop unreserve_page addr (unat page_cnt)"

definition reserve_pages :: "u64 \<Rightarrow> u64 \<Rightarrow> pager \<Rightarrow> pager" where
  "reserve_pages addr page_cnt = pages_loop reserve_page addr (unat page_cnt)"

text \<open>
  The search of \<open>req_page\<close>: from index \<open>i\<close> with \<open>k\<close> indices left. The result \<open>None\<close> is the
  end of the loop, where the code returns \<open>NULL\<close>.
\<close>

fun scan_free :: "mem \<Rightarrow> BITMAP \<Rightarrow> nat \<Rightarrow> nat \<Rightarrow> nat option" where
  "scan_free m bitmap i 0 = None"
| "scan_free m bitmap i (Suc k) =
     (if get_bitmap m bitmap (of_nat i) \<noteq> 0 then scan_free m bitmap (Suc i) k else Some i)"

fun req_page :: "pager \<Rightarrow> u64 \<times> pager" where
  "req_page (pb, m) =
     (case scan_free m (pb_bitmap pb) 0 (unat (bm_size (pb_bitmap pb) * 8)) of
        Some i \<Rightarrow> (of_nat i * PAGE_SIZE, lock_page (of_nat i * PAGE_SIZE) (pb, m))
      | None \<Rightarrow> (0, (pb, m)))"

section \<open>The contract of the four operations\<close>

definition page_bit :: "pager \<Rightarrow> u64 \<Rightarrow> bool" where
  "page_bit s i = bitmap_bit (snd s) (pb_bitmap (fst s)) i"

definition pb_total :: "PAGE_BITMAP \<Rightarrow> u64" where
  "pb_total pb = pb_free pb + pb_reserved pb + pb_used pb"

definition page_guard :: "pager \<Rightarrow> u64 \<Rightarrow> bool" where
  "page_guard s i \<longleftrightarrow> i \<le> bm_size (pb_bitmap (fst s)) * 8"

text \<open>The bytes the bitmap operations can touch: the buffer and, past its end, one byte more.\<close>

definition bitmap_bytes :: "BITMAP \<Rightarrow> u64 set" where
  "bitmap_bytes bm = {bm_buffer bm + i div 8 | i. i \<le> bm_size bm * 8}"

definition page_range :: "u64 \<Rightarrow> nat \<Rightarrow> u64 \<Rightarrow> bool" where
  "page_range a n j \<longleftrightarrow> (\<exists>i<n. j = (a + of_nat i * PAGE_SIZE) div PAGE_SIZE)"

lemma page_range_0 [simp]: "\<not> page_range a 0 j"
  by (simp add: page_range_def)

lemma page_range_Suc:
  "page_range a (Suc n) j \<longleftrightarrow> page_range a n j \<or> j = (a + of_nat n * PAGE_SIZE) div PAGE_SIZE"
  by (auto simp: page_range_def less_Suc_eq)

locale page_op =
  fixes op :: "u64 \<Rightarrow> pager \<Rightarrow> pager" and target :: bool
  assumes op_bitmap: "pb_bitmap (fst (op a s)) = pb_bitmap (fst s)"
    and op_bit: "page_bit (op a s) j =
      (if j = a div PAGE_SIZE \<and> page_guard s j then target else page_bit s j)"
    and op_total: "pb_total (fst (op a s)) = pb_total (fst s)"
    and op_frame: "b \<notin> bitmap_bytes (pb_bitmap (fst s)) \<Longrightarrow> snd (op a s) b = snd s b"
    and op_hit: "page_guard s (a div PAGE_SIZE) \<Longrightarrow> page_bit s (a div PAGE_SIZE) = target \<Longrightarrow> op a s = s"
begin

lemma loop_bitmap: "pb_bitmap (fst (pages_loop op a n s)) = pb_bitmap (fst s)"
  by (induction n) (simp_all add: op_bitmap)

lemma loop_guard: "page_guard (pages_loop op a n s) j = page_guard s j"
  by (simp add: page_guard_def loop_bitmap)

lemma loop_total: "pb_total (fst (pages_loop op a n s)) = pb_total (fst s)"
  by (induction n) (simp_all add: op_total)

lemma loop_frame: "b \<notin> bitmap_bytes (pb_bitmap (fst s)) \<Longrightarrow> snd (pages_loop op a n s) b = snd s b"
  by (induction n) (simp_all add: op_frame loop_bitmap)

lemma loop_bit:
  "page_bit (pages_loop op a n s) j = (if page_range a n j \<and> page_guard s j then target else page_bit s j)"
  by (induction n) (auto simp: op_bit page_range_Suc loop_guard)

lemma loop_hit:
  assumes "\<And>j. page_range a n j \<Longrightarrow> page_guard s j \<and> page_bit s j = target"
  shows "pages_loop op a n s = s"
  using assms
proof (induction n)
  case 0
  then show ?case by simp
next
  case (Suc n)
  then have "pages_loop op a n s = s"
    by (simp add: page_range_Suc)
  with Suc.prems show ?case
    by (simp add: op_hit page_range_Suc)
qed

text \<open>Doing a run of pages twice is doing it once, as long as the run is in range.\<close>

lemma loop_idem:
  assumes "\<And>j. page_range a n j \<Longrightarrow> page_guard s j"
  shows "pages_loop op a n (pages_loop op a n s) = pages_loop op a n s"
  by (rule loop_hit) (simp add: loop_bit loop_guard assms)

end

section \<open>Interpretation on the four operations\<close>

lemma set_bitmap_bytes:
  "b \<notin> bitmap_bytes bm \<Longrightarrow> snd (set_bitmap m bm i v) b = m b"
  by (cases "i \<le> bm_size bm * 8")
     (auto simp: bitmap_bytes_def set_bitmap_def Let_def not_le)

lemmas page_op_defs = page_bit_def page_guard_def pb_total_def get_bitmap_iff
  get_bitmap_0_iff bitmap_bit_set set_bitmap_bytes Let_def

interpretation fp: page_op free_page False
  by unfold_locales (auto simp: page_op_defs split: prod.split if_splits)

interpretation lp: page_op lock_page True
  by unfold_locales (auto simp: page_op_defs split: prod.split if_splits)

interpretation up: page_op unreserve_page False
  by unfold_locales (auto simp: page_op_defs split: prod.split if_splits)

interpretation rp: page_op reserve_page True
  by unfold_locales (auto simp: page_op_defs split: prod.split if_splits)

section \<open>Counting free pages\<close>

text \<open>The indices of the pages the bitmap says are free.\<close>

definition clear_pages :: "pager \<Rightarrow> nat set" where
  "clear_pages s = set (filter (\<lambda>i. \<not> page_bit s (of_nat i)) [0..<bits_of (pb_bitmap (fst s))])"

lemma page_bit_get:
  "i < bits_of (pb_bitmap (fst s)) \<Longrightarrow> page_bit s (of_nat i) = bitmap_get (pb_bitmap (fst s), snd s) i"
  by (auto simp: page_bit_def bitmap_get_def get_bitmap_iff less_imp_le dest!: bits_of_le)

lemma clear_pages_eq: "clear_pages s = bm.clear_set (pb_bitmap (fst s), snd s)"
  by (auto simp: clear_pages_def bm.clear_set_def page_bit_get)

lemma finite_clear_pages [simp]: "finite (clear_pages s)"
  by (simp add: clear_pages_def)

lemma clear_pages_iff:
  "i \<in> clear_pages s \<longleftrightarrow> i < bits_of (pb_bitmap (fst s)) \<and> \<not> page_bit s (of_nat i)"
  by (auto simp: clear_pages_def)

text \<open>
  What a counter operation does to the free counter and to the set of free pages, for a
  page the bitmap covers: they move together. The difference \<open>slack\<close> is what stays.
\<close>

definition slack :: "pager \<Rightarrow> u64" where
  "slack s = pb_free (fst s) - of_nat (card (clear_pages s)) * PAGE_SIZE"

definition covered :: "pager \<Rightarrow> u64 \<Rightarrow> bool" where
  "covered s addr \<longleftrightarrow> unat (addr div PAGE_SIZE) < bits_of (pb_bitmap (fst s))"

lemma covered_guard: "covered s a \<Longrightarrow> page_guard s (a div PAGE_SIZE)"
  using bits_of_le [of "unat (a div PAGE_SIZE)" "pb_bitmap (fst s)"]
  by (simp add: covered_def page_guard_def less_imp_le)

lemma set_clear_pages:
  assumes "covered (pb, m) addr"
    and "pb_bitmap pb' = pb_bitmap pb"
    and "m' = snd (set_bitmap m (pb_bitmap pb) (addr div PAGE_SIZE) v)"
  shows "clear_pages (pb', m') = (if v = 0 then insert (unat (addr div PAGE_SIZE)) (clear_pages (pb, m))
     else clear_pages (pb, m) - {unat (addr div PAGE_SIZE)})"
proof -
  let ?i = "unat (addr div PAGE_SIZE)"
  have i: "?i < bits_of (pb_bitmap pb)" using assms(1) by (simp add: covered_def)
  have g: "addr div PAGE_SIZE \<le> bm_size (pb_bitmap pb) * 8"
    using covered_guard [OF assms(1)] by (simp add: page_guard_def)
  have eq: "addr div PAGE_SIZE = of_nat j \<longleftrightarrow> ?i = j" if "j < bits_of (pb_bitmap pb)" for j
    using bits_of_small [OF that] by auto
  show ?thesis
  proof (rule set_eqI)
    fix j
    show "j \<in> clear_pages (pb', m') \<longleftrightarrow> j \<in> (if v = 0 then insert ?i (clear_pages (pb, m))
       else clear_pages (pb, m) - {?i})"
      using i g eq [of j]
      by (cases "j < bits_of (pb_bitmap pb)")
         (simp_all add: clear_pages_iff assms(2,3) page_bit_def bitmap_bit_set)
  qed
qed

lemma clear_pages_same:
  "pb_bitmap pb' = pb_bitmap pb \<Longrightarrow> clear_pages (pb', m) = clear_pages (pb, m)"
  by (simp add: clear_pages_def page_bit_def)

lemma clear_pages_covered:
  "covered (pb, m) addr \<Longrightarrow>
     unat (addr div PAGE_SIZE) \<in> clear_pages (pb, m) \<longleftrightarrow> get_bitmap m (pb_bitmap pb) (addr div PAGE_SIZE) = 0"
  using covered_guard [of "(pb, m)" addr]
  by (simp add: clear_pages_iff covered_def get_bitmap_0_iff page_bit_def page_guard_def)

text \<open>The slack of the allocator is kept by each operation on a page the bitmap covers.\<close>

lemma slack_clear_bit:
  assumes c: "covered (pb, m) a" and g: "get_bitmap m (pb_bitmap pb) (a div PAGE_SIZE) \<noteq> 0"
    and b: "pb_bitmap pb' = pb_bitmap pb" and f: "pb_free pb' = pb_free pb + PAGE_SIZE"
  shows "slack (pb', snd (set_bitmap m (pb_bitmap pb) (a div PAGE_SIZE) 0)) = slack (pb, m)"
proof -
  have "unat (a div PAGE_SIZE) \<notin> clear_pages (pb, m)"
    using g by (simp add: clear_pages_covered [OF c])
  then have "card (insert (unat (a div PAGE_SIZE)) (clear_pages (pb, m))) = Suc (card (clear_pages (pb, m)))"
    by simp
  then show ?thesis
    unfolding slack_def set_clear_pages [OF c b refl] by (simp add: f algebra_simps)
qed

lemma slack_set_bit:
  assumes c: "covered (pb, m) a" and g: "get_bitmap m (pb_bitmap pb) (a div PAGE_SIZE) = 0"
    and b: "pb_bitmap pb' = pb_bitmap pb" and f: "pb_free pb' = pb_free pb - PAGE_SIZE"
  shows "slack (pb', snd (set_bitmap m (pb_bitmap pb) (a div PAGE_SIZE) 1)) = slack (pb, m)"
proof -
  have "unat (a div PAGE_SIZE) \<in> clear_pages (pb, m)"
    using g by (simp add: clear_pages_covered [OF c])
  from card_Suc_Diff1 [OF finite_clear_pages this]
  have "card (clear_pages (pb, m)) = Suc (card (clear_pages (pb, m) - {unat (a div PAGE_SIZE)}))"
    by (rule sym)
  then have "(of_nat (card (clear_pages (pb, m))) :: u64) =
      1 + of_nat (card (clear_pages (pb, m) - {unat (a div PAGE_SIZE)}))"
    by (metis of_nat_Suc)
  then show ?thesis
    unfolding slack_def set_clear_pages [OF c b refl] by (simp add: f algebra_simps)
qed

lemma slack_free: "covered s a \<Longrightarrow> slack (free_page a s) = slack s"
  by (cases s) (auto simp: Let_def intro!: slack_clear_bit)

lemma slack_unreserve: "covered s a \<Longrightarrow> slack (unreserve_page a s) = slack s"
  by (cases s) (auto simp: Let_def intro!: slack_clear_bit)

lemma slack_lock: "covered s a \<Longrightarrow> slack (lock_page a s) = slack s"
  by (cases s) (auto simp: Let_def intro!: slack_set_bit)

lemma slack_reserve: "covered s a \<Longrightarrow> slack (reserve_page a s) = slack s"
  by (cases s) (auto simp: Let_def intro!: slack_set_bit)

locale page_op_counted = page_op +
  assumes op_slack: "covered s a \<Longrightarrow> slack (op a s) = slack s"
begin

lemma loop_slack:
  "(\<And>i. i < n \<Longrightarrow> covered s (a + of_nat i * PAGE_SIZE)) \<Longrightarrow> slack (pages_loop op a n s) = slack s"
proof (induction n)
  case 0
  then show ?case by simp
next
  case (Suc n)
  have "covered (pages_loop op a n s) (a + of_nat n * PAGE_SIZE)"
    using Suc.prems [of n] by (simp add: covered_def loop_bitmap)
  with Suc show ?case by (simp add: op_slack)
qed

end

interpretation fpc: page_op_counted free_page False
  by unfold_locales (rule slack_free)

interpretation lpc: page_op_counted lock_page True
  by unfold_locales (rule slack_lock)

interpretation upc: page_op_counted unreserve_page False
  by unfold_locales (rule slack_unreserve)

interpretation rpc: page_op_counted reserve_page True
  by unfold_locales (rule slack_reserve)

section \<open>The search of req_page\<close>

lemma scan_free_SomeD:
  "scan_free m bm i k = Some j \<Longrightarrow>
     i \<le> j \<and> j < i + k \<and> get_bitmap m bm (of_nat j) = 0 \<and>
     (\<forall>l. i \<le> l \<and> l < j \<longrightarrow> get_bitmap m bm (of_nat l) \<noteq> 0)"
proof (induction m bm i k rule: scan_free.induct)
  case (1 m bitmap i)
  then show ?case by simp
next
  case (2 m bitmap i k)
  show ?case
  proof (cases "get_bitmap m bitmap (of_nat i) = 0")
    case True
    with 2 show ?thesis by auto
  next
    case False
    with 2 have "Suc i \<le> j \<and> j < Suc i + k \<and> get_bitmap m bitmap (of_nat j) = 0 \<and>
        (\<forall>l. Suc i \<le> l \<and> l < j \<longrightarrow> get_bitmap m bitmap (of_nat l) \<noteq> 0)" by simp
    with False show ?thesis by (metis Suc_leD Suc_le_eq add_Suc_shift le_neq_implies_less)
  qed
qed

lemma scan_free_None_iff:
  "scan_free m bm i k = None \<longleftrightarrow> (\<forall>l<k. get_bitmap m bm (of_nat (i + l)) \<noteq> 0)"
proof (induction k arbitrary: i)
  case 0
  then show ?case by simp
next
  case (Suc k)
  have "(\<forall>l<Suc k. P l) \<longleftrightarrow> P 0 \<and> (\<forall>l<k. P (Suc l))" for P
    by (metis less_Suc_eq_0_disj)
  with Suc [of "Suc i"] show ?case by (simp add: ac_simps)
qed

text \<open>
  A bitmap that a 52-bit physical address space can need: at most \<open>2 ^ 40\<close> pages. Then the
  address of every page is below \<open>2 ^ 52\<close>, and indices and addresses do not wrap.
\<close>

definition pager_ok :: "pager \<Rightarrow> bool" where
  "pager_ok s \<longleftrightarrow> unat (bm_size (pb_bitmap (fst s))) \<le> 2 ^ 37"

lemma pager_ok_bits:
  "pager_ok s \<Longrightarrow> bits_of (pb_bitmap (fst s)) = unat (bm_size (pb_bitmap (fst s)) * 8) \<and>
     bits_of (pb_bitmap (fst s)) \<le> 2 ^ 40"
  by (simp add: pager_ok_def bits_of_def unat_word_ariths)

lemma unat_page_addr: "i < 2 ^ 52 \<Longrightarrow> unat (of_nat i * PAGE_SIZE :: u64) = i * 4096"
  by (simp add: unat_word_ariths unat_of_nat_small)

lemma page_addr_div: "i < 2 ^ 52 \<Longrightarrow> (of_nat i * PAGE_SIZE :: u64) div PAGE_SIZE = of_nat i"
  by (simp add: word_unat_eq_iff unat_div unat_page_addr)

lemma clear_pages_get:
  assumes "i < bits_of (pb_bitmap pb)"
  shows "i \<in> clear_pages (pb, m) \<longleftrightarrow> get_bitmap m (pb_bitmap pb) (of_nat i) = 0"
  using assms bits_of_le [OF assms]
  by (simp add: clear_pages_iff get_bitmap_0_iff page_bit_def less_imp_le)

lemma req_page_none:
  assumes "pager_ok s" and "clear_pages s = {}"
  shows "req_page s = (0, s)"
proof -
  obtain pb m where s: "s = (pb, m)" by (cases s)
  have "scan_free m (pb_bitmap pb) 0 (unat (bm_size (pb_bitmap pb) * 8)) = None"
    using assms pager_ok_bits [of s] clear_pages_get [of _ pb m]
    by (auto simp: s scan_free_None_iff)
  then show ?thesis by (simp add: s)
qed

lemma req_page_some:
  assumes ok: "pager_ok s" and ne: "clear_pages s \<noteq> {}"
  defines "i \<equiv> Min (clear_pages s)"
  shows "req_page s = (of_nat i * PAGE_SIZE, lock_page (of_nat i * PAGE_SIZE) s)"
proof -
  obtain pb m where s: "s = (pb, m)" by (cases s)
  let ?n = "unat (bm_size (pb_bitmap pb) * 8)"
  have n: "bits_of (pb_bitmap pb) = ?n" using pager_ok_bits [OF ok] by (simp add: s)
  have clear: "l \<in> clear_pages s \<longleftrightarrow> l < ?n \<and> get_bitmap m (pb_bitmap pb) (of_nat l) = 0" for l
    using clear_pages_get [of l pb m] by (auto simp: s n clear_pages_iff)
  from ne obtain l where "l \<in> clear_pages s" by blast
  with clear have "scan_free m (pb_bitmap pb) 0 ?n \<noteq> None"
    by (auto simp: scan_free_None_iff)
  then obtain j where j: "scan_free m (pb_bitmap pb) 0 ?n = Some j" by blast
  from scan_free_SomeD [OF j] have "Min (clear_pages s) = j"
    by (intro Min_eqI) (auto simp: clear not_less [symmetric])
  with j show ?thesis by (simp add: s i_def)
qed

text \<open>What a successful \<open>req_page\<close> does: the first free page, and only that one, is taken.\<close>

lemma clear_pages_lock:
  assumes "covered s a"
  shows "clear_pages (lock_page a s) = clear_pages s - {unat (a div PAGE_SIZE)}"
proof -
  obtain pb m where s: "s = (pb, m)" by (cases s)
  show ?thesis
  proof (cases "get_bitmap m (pb_bitmap pb) (a div PAGE_SIZE) = 0")
    case True
    then show ?thesis
      unfolding s using assms set_clear_pages [of pb m a _ _ 1]
      by (simp add: s Let_def)
  next
    case False
    then show ?thesis
      using assms clear_pages_covered [of pb m a] by (simp add: s Let_def)
  qed
qed

lemma Min_clear:
  assumes "pager_ok s" and "clear_pages s \<noteq> {}"
  shows "Min (clear_pages s) \<in> clear_pages s" "Min (clear_pages s) < 2 ^ 40"
    "covered s (of_nat (Min (clear_pages s)) * PAGE_SIZE)"
proof -
  show m: "Min (clear_pages s) \<in> clear_pages s"
    using assms by simp
  then have b: "Min (clear_pages s) < bits_of (pb_bitmap (fst s))"
    by (simp add: clear_pages_iff)
  then show l: "Min (clear_pages s) < 2 ^ 40"
    using pager_ok_bits [OF assms(1)] by simp
  have "unat (of_nat (Min (clear_pages s)) :: u64) = Min (clear_pages s)"
    using l by simp
  with b l show "covered s (of_nat (Min (clear_pages s)) * PAGE_SIZE)"
    by (simp add: covered_def page_addr_div)
qed

lemma req_page_success:
  assumes ok: "pager_ok s" and ne: "clear_pages s \<noteq> {}" and r: "req_page s = (a, s')"
  shows "unat a = Min (clear_pages s) * 4096"
    and "clear_pages s' = clear_pages s - {Min (clear_pages s)}"
    and "s' = lock_page a s"
proof -
  let ?i = "Min (clear_pages s)"
  from r req_page_some [OF ok ne] have a: "a = of_nat ?i * PAGE_SIZE" and s': "s' = lock_page a s"
    by auto
  from Min_clear [OF ok ne] have i: "?i < 2 ^ 40" and c: "covered s a"
    by (simp_all add: a)
  from i show "unat a = ?i * 4096" by (simp add: a unat_page_addr)
  from i have "unat (a div PAGE_SIZE) = ?i" by (simp add: a page_addr_div)
  with clear_pages_lock [OF c] show "clear_pages s' = clear_pages s - {?i}"
    by (simp add: s')
  show "s' = lock_page a s" by (rule s')
qed

section \<open>Sequences of allocator calls\<close>

datatype page_call =
    Free_pages u64 u64
  | Lock_pages u64 u64
  | Unreserve_pages u64 u64
  | Reserve_pages u64 u64
  | Req_page

fun apply_call :: "page_call \<Rightarrow> pager \<Rightarrow> pager" where
  "apply_call (Free_pages a n) s = free_pages a n s"
| "apply_call (Lock_pages a n) s = lock_pages a n s"
| "apply_call (Unreserve_pages a n) s = unreserve_pages a n s"
| "apply_call (Reserve_pages a n) s = reserve_pages a n s"
| "apply_call Req_page s = snd (req_page s)"

fun call_covered :: "pager \<Rightarrow> page_call \<Rightarrow> bool" where
  "call_covered s Req_page \<longleftrightarrow> True"
| "call_covered s (Free_pages a n) \<longleftrightarrow> (\<forall>i\<in>{0..<unat n}. covered s (a + of_nat i * PAGE_SIZE))"
| "call_covered s (Lock_pages a n) \<longleftrightarrow> (\<forall>i\<in>{0..<unat n}. covered s (a + of_nat i * PAGE_SIZE))"
| "call_covered s (Unreserve_pages a n) \<longleftrightarrow> (\<forall>i\<in>{0..<unat n}. covered s (a + of_nat i * PAGE_SIZE))"
| "call_covered s (Reserve_pages a n) \<longleftrightarrow> (\<forall>i\<in>{0..<unat n}. covered s (a + of_nat i * PAGE_SIZE))"

lemmas pages_defs = free_pages_def lock_pages_def unreserve_pages_def reserve_pages_def

lemma apply_call_bitmap: "pb_bitmap (fst (apply_call c s)) = pb_bitmap (fst s)"
  by (cases c; cases s)
     (auto simp: pages_defs fp.loop_bitmap lp.loop_bitmap up.loop_bitmap rp.loop_bitmap lp.op_bitmap
       simp del: lock_page.simps split: option.split)

lemma apply_call_total: "pb_total (fst (apply_call c s)) = pb_total (fst s)"
  by (cases c; cases s)
     (auto simp: pages_defs fp.loop_total lp.loop_total up.loop_total rp.loop_total lp.op_total
       simp del: lock_page.simps split: option.split)

lemma apply_call_frame:
  "b \<notin> bitmap_bytes (pb_bitmap (fst s)) \<Longrightarrow> snd (apply_call c s) b = snd s b"
  by (cases c; cases s)
     (auto simp: pages_defs fp.loop_frame lp.loop_frame up.loop_frame rp.loop_frame lp.op_frame
       simp del: lock_page.simps split: option.split)

lemma slack_req_page: "pager_ok s \<Longrightarrow> slack (snd (req_page s)) = slack s"
proof (cases "clear_pages s = {}")
  case True
  moreover assume "pager_ok s"
  ultimately show ?thesis by (simp add: req_page_none)
next
  case False
  moreover assume "pager_ok s"
  ultimately show ?thesis by (simp add: req_page_some slack_lock Min_clear)
qed

lemma apply_call_slack: "pager_ok s \<Longrightarrow> call_covered s c \<Longrightarrow> slack (apply_call c s) = slack s"
  by (cases c) (simp_all add: pages_defs fpc.loop_slack lpc.loop_slack upc.loop_slack
      rpc.loop_slack slack_req_page)

end
