(* ===== verification/CString.thy ===== *)
theory CString
  imports Memory
begin

text \<open>
  \<open>sys/string.c\<close>: \<open>memcpy\<close>, \<open>memset\<close> and \<open>strncmp\<close>. The counted loops are recursion on
  the number of iterations done, in the order the C loop does them. A string argument
  that is only read is the function from an index to the byte there (\<open>bytes_at\<close> for a
  pointer into memory, \<open>cstr\<close> for a literal).
\<close>

section \<open>Strings\<close>

definition bytes_at :: "mem \<Rightarrow> u64 \<Rightarrow> nat \<Rightarrow> u8" where
  "bytes_at m a i = m (a + of_nat i)"

definition cstr :: "string \<Rightarrow> nat \<Rightarrow> u8" where
  "cstr s i = (if i < length s then of_char (s ! i) else 0)"

text \<open>\<open>char\<close> is signed on this target, so \<open>s1[i] > s2[i]\<close> compares two's complement values.\<close>

fun strncmp_from :: "(nat \<Rightarrow> u8) \<Rightarrow> (nat \<Rightarrow> u8) \<Rightarrow> nat \<Rightarrow> nat \<Rightarrow> int" where
  "strncmp_from s1 s2 i 0 = 0"
| "strncmp_from s1 s2 i (Suc k) =
     (if s1 i \<noteq> 0 \<or> s2 i \<noteq> 0
      then (if s1 i \<noteq> s2 i then (if sint (s1 i) > sint (s2 i) then 1 else - 1)
            else strncmp_from s1 s2 (Suc i) k)
      else 0)"

definition strncmp :: "(nat \<Rightarrow> u8) \<Rightarrow> (nat \<Rightarrow> u8) \<Rightarrow> nat \<Rightarrow> int" where
  "strncmp s1 s2 n = strncmp_from s1 s2 0 n"

section \<open>Block operations\<close>

fun memset :: "mem \<Rightarrow> u64 \<Rightarrow> u32 \<Rightarrow> nat \<Rightarrow> mem" where
  "memset m s c 0 = m"
| "memset m s c (Suc i) = (memset m s c i)(s + of_nat i := ucast c)"

fun memcpy :: "mem \<Rightarrow> u64 \<Rightarrow> u64 \<Rightarrow> nat \<Rightarrow> mem" where
  "memcpy m s1 s2 0 = m"
| "memcpy m s1 s2 (Suc i) =
     (let m' = memcpy m s1 s2 i in m'(s1 + of_nat i := m' (s2 + of_nat i)))"

section \<open>What the block operations write\<close>

lemma in_region_last:
  "k < 2 ^ 64 \<Longrightarrow> in_region a (Suc k) b \<longleftrightarrow> in_region a k b \<or> b = a + of_nat k"
  by (auto simp: in_region_def less_Suc_eq)

lemma memset_apply:
  "n \<le> 2 ^ 64 \<Longrightarrow> memset m s c n b = (if in_region s n b then ucast c else m b)"
  by (induction n) (auto simp: in_region_last)

lemma memset_other [mem_simps]:
  "n \<le> 2 ^ 64 \<Longrightarrow> \<not> in_region s n b \<Longrightarrow> memset m s c n b = m b"
  by (simp add: memset_apply)

lemma memcpy_other:
  "n \<le> 2 ^ 64 \<Longrightarrow> \<not> in_region s1 n b \<Longrightarrow> memcpy m s1 s2 n b = m b"
  by (induction n) (auto simp: in_region_last Let_def)

text \<open>
  The \<open>restrict\<close> qualifiers of \<open>memcpy\<close> promise that the two blocks do not overlap; then
  every destination byte is the source byte of the memory before the call.
\<close>

lemma memcpy_copies:
  assumes "n \<le> 2 ^ 64" and "apart s1 n s2 n" and "i < n"
  shows "memcpy m s1 s2 n (s1 + of_nat i) = m (s2 + of_nat i)"
  using assms
proof (induction n)
  case 0
  then show ?case by simp
next
  case (Suc n)
  have src: "memcpy m s1 s2 n (s2 + of_nat n) = m (s2 + of_nat n)"
    using Suc.prems by (intro memcpy_other) (auto simp: apart_def in_region_last)
  show ?case
  proof (cases "i = n")
    case True
    with src show ?thesis by (simp add: Let_def)
  next
    case False
    with Suc.prems have i: "i < n" by simp
    have "apart s1 n s2 n"
      using Suc.prems by (auto simp: apart_def in_region_last)
    with Suc.IH Suc.prems i have "memcpy m s1 s2 n (s1 + of_nat i) = m (s2 + of_nat i)"
      by simp
    moreover have "s1 + of_nat i \<noteq> s1 + (of_nat n :: u64)"
      using i Suc.prems by (simp add: word_of_nat_eq_iff take_bit_nat_eq_self)
    ultimately show ?thesis by (simp add: Let_def)
  qed
qed

text \<open>Both at once, for every byte.\<close>

lemma memcpy_apply:
  assumes "n \<le> 2 ^ 64" and "apart s1 n s2 n"
  shows "memcpy m s1 s2 n b = (if in_region s1 n b then m (s2 + (b - s1)) else m b)"
  using memcpy_copies [OF assms, of "unat (b - s1)" m] memcpy_other [OF assms(1), of s1 b m s2]
  by (auto simp: in_region_def)

section \<open>What strncmp decides\<close>

lemma strncmp_from_0_iff:
  "strncmp_from s1 s2 i k = 0 \<longleftrightarrow>
     (\<forall>j<k. (\<forall>l<j. s1 (i + l) \<noteq> 0) \<longrightarrow> s1 (i + j) = s2 (i + j))"
proof (induction k arbitrary: i)
  case 0
  then show ?case by simp
next
  case (Suc k)
  have split: "(\<forall>j<Suc k. P j) \<longleftrightarrow> P 0 \<and> (\<forall>j<k. P (Suc j))" for P
    by (metis less_Suc_eq_0_disj)
  have first: "(\<forall>l<Suc j. s1 (i + l) \<noteq> 0) \<longleftrightarrow> s1 i \<noteq> 0 \<and> (\<forall>l<j. s1 (Suc i + l) \<noteq> 0)" for j
    by (auto simp: less_Suc_eq_0_disj)
  show ?case
    unfolding split first using Suc.IH [of "Suc i"] by auto
qed

lemma strncmp_from_swap: "strncmp_from s2 s1 i k = - strncmp_from s1 s2 i k"
proof (induction k arbitrary: i)
  case 0
  then show ?case by simp
next
  case (Suc k)
  have "s1 i \<noteq> s2 i \<Longrightarrow> sint (s1 i) \<noteq> sint (s2 i)"
    using signed_word_eqI by blast
  with Suc show ?case by auto
qed

lemma strncmp_range: "strncmp s1 s2 n \<in> {- 1, 0, 1}"
proof -
  have "strncmp_from s1 s2 i k \<in> {- 1, 0, 1}" for i k
    by (induction k arbitrary: i) auto
  then show ?thesis by (simp add: strncmp_def)
qed

lemma strncmp_0_iff:
  "strncmp s1 s2 n = 0 \<longleftrightarrow> (\<forall>j<n. (\<forall>l<j. s1 l \<noteq> 0) \<longrightarrow> s1 j = s2 j)"
  by (simp add: strncmp_def strncmp_from_0_iff)

end
