(* ===== verification/Machine.thy ===== *)
theory Machine
  imports Memory
begin

text \<open>
  The machine as the C code sees it, and the wrappers of \<open>inc/asm.c\<close> around single
  instructions. The state holds memory, the model-specific registers as the pair
  (\<open>edx\<close>, \<open>eax\<close>) the instructions transfer, the number of device reads done so far and
  the log of the instructions that act on devices or on the processor, oldest first.
  What devices do is not code: it is the parameter \<open>hardware\<close>, which says how memory
  looks just before the n-th device read and what the n-th port read returns.
\<close>

section \<open>State and environment\<close>

datatype event =
    Outb u8 u16
  | Inb u16 u8
  | Outl u32 u16
  | Inl u16 u32
  | Wrmsr u32 u64
  | Invlpg u64
  | Mfence
  | Cli
  | Sti
  | Hlt
  | Lgdt u16 u64
  | Lidt u16 u64
  | Write_cr3 u64
  | Mmio_write u64 u32

record machine =
  mem :: mem
  msrs :: "u32 \<Rightarrow> u32 \<times> u32"
  tick :: nat
  events :: "event list"

record hardware =
  hw_mem :: "nat \<Rightarrow> mem \<Rightarrow> mem"
  hw_port :: "nat \<Rightarrow> u16 \<Rightarrow> u32"

definition log_event :: "event \<Rightarrow> machine \<Rightarrow> machine" where
  "log_event e s = s\<lparr>events := events s @ [e]\<rparr>"

lemma log_event_simps [simp]:
  "mem (log_event e s) = mem s" "msrs (log_event e s) = msrs s"
  "tick (log_event e s) = tick s" "events (log_event e s) = events s @ [e]"
  by (simp_all add: log_event_def)

section \<open>The instruction wrappers of inc/asm.c\<close>

definition outb :: "u8 \<Rightarrow> u16 \<Rightarrow> machine \<Rightarrow> machine" where
  "outb origin dest s = log_event (Outb origin dest) s"

definition inb :: "hardware \<Rightarrow> u16 \<Rightarrow> machine \<Rightarrow> u8 \<times> machine" where
  "inb hw origin s =
     (let ret = ucast (hw_port hw (tick s) origin)
      in (ret, log_event (Inb origin ret) (s\<lparr>tick := Suc (tick s)\<rparr>)))"

definition outl :: "u32 \<Rightarrow> u16 \<Rightarrow> machine \<Rightarrow> machine" where
  "outl origin dest s = log_event (Outl origin dest) s"

definition inl :: "hardware \<Rightarrow> u16 \<Rightarrow> machine \<Rightarrow> u32 \<times> machine" where
  "inl hw origin s =
     (let ret = hw_port hw (tick s) origin
      in (ret, log_event (Inl origin ret) (s\<lparr>tick := Suc (tick s)\<rparr>)))"

definition io_wait :: "machine \<Rightarrow> machine" where
  "io_wait s = log_event (Outb 0 128) s"

definition rdmsr :: "u32 \<Rightarrow> machine \<Rightarrow> u64" where
  "rdmsr msr s = (let (h, l) = msrs s msr in push_bit 32 (ucast h) + ucast l)"

definition wrmsr :: "u32 \<Rightarrow> u64 \<Rightarrow> machine \<Rightarrow> machine" where
  "wrmsr msr value s =
     (let l = ucast (value AND 4294967295) :: u32; h = ucast (drop_bit 32 value) :: u32
      in log_event (Wrmsr msr value) (s\<lparr>msrs := (msrs s)(msr := (h, l))\<rparr>))"

definition invlpg :: "u64 \<Rightarrow> machine \<Rightarrow> machine" where
  "invlpg vir_addr s = log_event (Invlpg vir_addr) s"

section \<open>Device registers in memory\<close>

text \<open>
  A volatile 32-bit access through a pointer to a device register. Between two reads the
  device may change memory; a write lands in memory and in the log.
\<close>

definition mmio_read32 :: "hardware \<Rightarrow> u64 \<Rightarrow> machine \<Rightarrow> u32 \<times> machine" where
  "mmio_read32 hw a s =
     (let m = hw_mem hw (tick s) (mem s) in (load32 m a, s\<lparr>mem := m, tick := Suc (tick s)\<rparr>))"

definition mmio_write32 :: "u64 \<Rightarrow> u32 \<Rightarrow> machine \<Rightarrow> machine" where
  "mmio_write32 a v s = log_event (Mmio_write a v) (s\<lparr>mem := store32 (mem s) a v\<rparr>)"

text \<open>A device that leaves memory alone: what is read is what was last written.\<close>

definition quiet :: "hardware \<Rightarrow> bool" where
  "quiet hw \<longleftrightarrow> (\<forall>n m. hw_mem hw n m = m)"

lemma mmio_read_quiet:
  "quiet hw \<Longrightarrow> mmio_read32 hw a s = (load32 (mem s) a, s\<lparr>tick := Suc (tick s)\<rparr>)"
  by (simp add: mmio_read32_def quiet_def)

section \<open>Model-specific registers\<close>

text \<open>The two halves \<open>rdmsr\<close> adds do not overlap, so their sum is their union.\<close>

lemma halves_disjoint: "push_bit 32 (ucast (h :: u32)) + (ucast (l :: u32) :: u64)
    = push_bit 32 (ucast h) OR ucast l"
proof (rule disjunctive_add)
  fix n
  show "\<not> bit (push_bit 32 (ucast h) :: u64) n \<or> \<not> bit (ucast l :: u64) n"
    using bit_imp_le_length [of l n] by (auto simp: bit_push_bit_iff bit_ucast_iff)
qed

lemma join_halves:
  "push_bit 32 (ucast (ucast (drop_bit 32 v) :: u32)) OR ucast (ucast (v AND 4294967295) :: u32) = (v :: u64)"
  by (rule bit_word_eqI)
     (auto simp: bit_or_iff bit_push_bit_iff bit_ucast_iff bit_drop_bit_eq bit_take_bit_iff bit_defs)

lemma rdmsr_wrmsr: "rdmsr r (wrmsr r v s) = v"
  by (simp add: rdmsr_def wrmsr_def Let_def halves_disjoint join_halves)

lemma rdmsr_wrmsr_other: "r \<noteq> r' \<Longrightarrow> rdmsr r (wrmsr r' v s) = rdmsr r s"
  by (simp add: rdmsr_def wrmsr_def Let_def)

lemma mem_io [simp]:
  "mem (outb v p s) = mem s" "mem (outl w p s) = mem s" "mem (io_wait s) = mem s"
  "mem (invlpg a s) = mem s" "mem (wrmsr r x s) = mem s"
  "mem (snd (inb hw p s)) = mem s" "mem (snd (inl hw p s)) = mem s"
  by (simp_all add: outb_def outl_def io_wait_def invlpg_def wrmsr_def inb_def inl_def Let_def)

end
