(* ===== verification/Page_Table.thy ===== *)
theory Page_Table
  imports Page_Alloc CString Machine
begin

text \<open>
  The page tables, \<open>PAGE_TABLE_ENTRY\<close> of \<open>boot/kernel/paging.h\<close> and lines 77 to 164 of
  \<open>boot/kernel/paging.c\<close>: the bit-fields of an entry, \<open>map_page\<close>, \<open>map_pages\<close> and
  \<open>vir_to_phys\<close>.
\<close>

section \<open>Entries\<close>

record PAGE_TABLE_ENTRY =
  pte_p :: "1 word"
  pte_rw :: "1 word"
  pte_us :: "1 word"
  pte_pwt :: "1 word"
  pte_pcd :: "1 word"
  pte_a :: "1 word"
  pte_avl0 :: "1 word"
  pte_ps :: "1 word"
  pte_avl1 :: "4 word"
  pte_addr :: "40 word"
  pte_avl2 :: "11 word"
  pte_xd :: "1 word"

text \<open>The packed bit-fields fill 64 bits from the least significant bit on.\<close>

definition pte_encode :: "PAGE_TABLE_ENTRY \<Rightarrow> u64" where
  "pte_encode e = field 0 (pte_p e) OR field 1 (pte_rw e) OR field 2 (pte_us e)
     OR field 3 (pte_pwt e) OR field 4 (pte_pcd e) OR field 5 (pte_a e) OR field 6 (pte_avl0 e)
     OR field 7 (pte_ps e) OR field 8 (pte_avl1 e) OR field 12 (pte_addr e)
     OR field 52 (pte_avl2 e) OR field 63 (pte_xd e)"

definition pte_decode :: "u64 \<Rightarrow> PAGE_TABLE_ENTRY" where
  "pte_decode w = \<lparr>pte_p = field_at 0 w, pte_rw = field_at 1 w, pte_us = field_at 2 w,
     pte_pwt = field_at 3 w, pte_pcd = field_at 4 w, pte_a = field_at 5 w, pte_avl0 = field_at 6 w,
     pte_ps = field_at 7 w, pte_avl1 = field_at 8 w, pte_addr = field_at 12 w,
     pte_avl2 = field_at 52 w, pte_xd = field_at 63 w\<rparr>"

definition load_pte :: "mem \<Rightarrow> u64 \<Rightarrow> PAGE_TABLE_ENTRY" where
  "load_pte m a = pte_decode (load64 m a)"

definition store_pte :: "mem \<Rightarrow> u64 \<Rightarrow> PAGE_TABLE_ENTRY \<Rightarrow> mem" where
  "store_pte m a e = store64 m a (pte_encode e)"

text \<open>\<open>table->entries[i]\<close> is the entry at \<open>table + i * sizeof(PAGE_TABLE_ENTRY)\<close>.\<close>

definition entry_addr :: "u64 \<Rightarrow> u64 \<Rightarrow> u64" where
  "entry_addr table i = table + i * 8"

section \<open>Mapping\<close>

definition table_index :: "nat \<Rightarrow> u64 \<Rightarrow> u64" where
  "table_index shift vir_addr = drop_bit shift vir_addr AND 511"

text \<open>
  The block that \<open>map_page\<close> repeats for the levels below \<open>pml4\<close>, \<open>pdpt\<close> and \<open>pd\<close>: read the
  entry, and either follow it or request, clear and link a new table.
\<close>

definition next_table :: "u64 \<Rightarrow> u64 \<Rightarrow> pager \<Rightarrow> u64 \<times> pager" where
  "next_table table i s =
     (let pe = load_pte (snd s) (entry_addr table i)
      in if pte_p pe = 0
         then let pe = pte_decode 0;
                  (sub, pb, m) = req_page s;
                  m = memset m sub 0 4096;
                  pe = pe\<lparr>pte_addr := ucast (drop_bit 12 sub)\<rparr>;
                  pe = pe\<lparr>pte_p := 1\<rparr>;
                  pe = pe\<lparr>pte_rw := 1\<rparr>;
                  m = store_pte m (entry_addr table i) pe
              in (sub, pb, m)
         else (push_bit 12 (ucast (pte_addr pe)), s))"

definition set_leaf :: "u64 \<Rightarrow> u64 \<Rightarrow> u64 \<Rightarrow> mem \<Rightarrow> mem" where
  "set_leaf pt p_i phys_addr m =
     (let pe = load_pte m (entry_addr pt p_i);
          pe = pe\<lparr>pte_addr := ucast (drop_bit 12 phys_addr)\<rparr>;
          pe = pe\<lparr>pte_p := 1\<rparr>;
          pe = pe\<lparr>pte_rw := 1\<rparr>
      in store_pte m (entry_addr pt p_i) pe)"

definition map_page :: "u64 \<Rightarrow> u64 \<Rightarrow> u64 \<Rightarrow> PAGE_BITMAP \<times> machine \<Rightarrow> PAGE_BITMAP \<times> machine" where
  "map_page pml4 vir_addr phys_addr s =
     (let p_i = table_index 12 vir_addr; pt_i = table_index 21 vir_addr;
          pd_i = table_index 30 vir_addr; pdpt_i = table_index 39 vir_addr;
          (pdpt, s1) = next_table pml4 pdpt_i (fst s, mem (snd s));
          (pd, s2) = next_table pdpt pd_i s1;
          (pt, s3) = next_table pd pt_i s2;
          m = set_leaf pt p_i phys_addr (snd s3)
      in (fst s3, invlpg vir_addr ((snd s)\<lparr>mem := m\<rparr>)))"

primrec map_pages :: "u64 \<Rightarrow> u64 \<Rightarrow> u64 \<Rightarrow> nat \<Rightarrow> PAGE_BITMAP \<times> machine \<Rightarrow> PAGE_BITMAP \<times> machine" where
  "map_pages pml4 vir_addr phys_addr 0 s = s"
| "map_pages pml4 vir_addr phys_addr (Suc i) s =
     map_page pml4 (vir_addr + of_nat i * PAGE_SIZE) (phys_addr + of_nat i * PAGE_SIZE)
       (map_pages pml4 vir_addr phys_addr i s)"

text \<open>
  \<open>vir_to_phys\<close> shifts the 40-bit bit-field \<open>addr\<close> without a cast, and in which type that
  shift is done is the compiler's choice: gcc keeps the 40 bits of the bit-field, other
  compilers use its declared type \<open>uint64_t\<close>. The choice is an argument.
\<close>

datatype bitfield_type = Declared_width | Declared_type

fun shl12 :: "bitfield_type \<Rightarrow> 40 word \<Rightarrow> u64" where
  "shl12 Declared_width a = ucast (push_bit 12 a)"
| "shl12 Declared_type a = push_bit 12 (ucast a)"

definition vir_to_phys :: "bitfield_type \<Rightarrow> u64 \<Rightarrow> mem \<Rightarrow> u64 \<Rightarrow> u64" where
  "vir_to_phys bt cr3 m vir_addr =
     (let p_i = table_index 12 vir_addr; pt_i = table_index 21 vir_addr;
          pd_i = table_index 30 vir_addr; pdpt_i = table_index 39 vir_addr;
          pml4 = cr3;
          pdpt = shl12 bt (pte_addr (load_pte m (entry_addr pml4 pdpt_i)));
          pd = shl12 bt (pte_addr (load_pte m (entry_addr pdpt pd_i)));
          pt = shl12 bt (pte_addr (load_pte m (entry_addr pd pt_i)))
      in shl12 bt (pte_addr (load_pte m (entry_addr pt p_i))))"

section \<open>Bit-fields\<close>

lemma pte_decode_encode: "pte_decode (pte_encode e) = e"
  unfolding pte_decode_def pte_encode_def
  by (rule PAGE_TABLE_ENTRY.equality; simp; rule bit_word_eqI)
     (auto simp: bit_or_iff bit_field bit_field_at)

lemma pte_encode_decode: "pte_encode (pte_decode w) = w"
  unfolding pte_encode_def pte_decode_def
  by (simp add: fields_join take_bit_word_eq_self flip: or.assoc numeral_2_eq_2)

end
