(* ===== verification/Page_Walk.thy ===== *)
theory Page_Walk
  imports Page_Table
begin

text \<open>
  What the page tables mean: the walk the processor does over four levels, the invariant
  of the table tree, and the lemmas that \<open>map_page\<close> keeps the invariant and changes the
  walk of one virtual page only.
\<close>

section \<open>The walk\<close>

definition table_child :: "mem \<Rightarrow> u64 \<Rightarrow> u64 \<Rightarrow> u64 option" where
  "table_child m table i =
     (let e = load_pte m (entry_addr table i)
      in if pte_p e = 0 then None else Some (push_bit 12 (ucast (pte_addr e))))"

fun table_at :: "mem \<Rightarrow> u64 \<Rightarrow> u64 list \<Rightarrow> u64 option" where
  "table_at m t [] = Some t"
| "table_at m t (i # p) = Option.bind (table_child m t i) (\<lambda>t'. table_at m t' p)"

definition table_path :: "u64 \<Rightarrow> u64 list" where
  "table_path va = [table_index 39 va, table_index 30 va, table_index 21 va]"

definition page_walk :: "mem \<Rightarrow> u64 \<Rightarrow> u64 \<Rightarrow> PAGE_TABLE_ENTRY option" where
  "page_walk m pml4 va =
     Option.bind (table_at m pml4 (table_path va))
       (\<lambda>pt. let e = load_pte m (entry_addr pt (table_index 12 va))
             in if pte_p e = 0 then None else Some e)"

text \<open>The virtual page of an address: the 36 bits the four indices are cut from.\<close>

definition vpage :: "u64 \<Rightarrow> u64" where
  "vpage va = take_bit 36 (drop_bit 12 va)"

lemma table_at_snoc:
  "table_at m t (p @ [i]) = Option.bind (table_at m t p) (\<lambda>t'. table_child m t' i)"
  by (induction p arbitrary: t) (auto split: Option.bind_splits)

lemma bit_table_index: "bit (table_index k va) n \<longleftrightarrow> n < 9 \<and> bit va (k + n)"
  by (auto simp: table_index_def bit_defs bit_take_bit_iff bit_drop_bit_eq dest: bit_imp_le_length)

lemma table_index_less: "table_index k va < 512"
  using take_bit_nat_less_exp [of 9 "unat (drop_bit k va)"]
  by (simp add: table_index_def bit_defs word_less_nat_alt unsigned_take_bit_eq)

text \<open>Two addresses with the same four indices are in the same virtual page.\<close>

lemma vpage_eqI:
  assumes "table_path va = table_path vb" and "table_index 12 va = table_index 12 vb"
  shows "vpage va = vpage vb"
proof (rule bit_word_eqI)
  fix n :: nat
  have eq: "bit va (k + j) = bit vb (k + j)" if "j < 9" "k \<in> {12, 21, 30, 39}" for j k
    using that assms bit_table_index [of k va j] bit_table_index [of k vb j]
    by (auto simp: table_path_def)
  consider "n < 9" | "9 \<le> n" "n < 18" | "18 \<le> n" "n < 27" | "27 \<le> n" "n < 36" | "36 \<le> n"
    by linarith
  then show "bit (vpage va) n = bit (vpage vb) n"
  proof cases
    case 1 then show ?thesis using eq [of n 12] by (simp add: vpage_def bit_take_bit_iff bit_drop_bit_eq)
  next
    case 2 then show ?thesis using eq [of "n - 9" 21] by (simp add: vpage_def bit_take_bit_iff bit_drop_bit_eq)
  next
    case 3 then show ?thesis using eq [of "n - 18" 30] by (simp add: vpage_def bit_take_bit_iff bit_drop_bit_eq)
  next
    case 4 then show ?thesis using eq [of "n - 27" 39] by (simp add: vpage_def bit_take_bit_iff bit_drop_bit_eq)
  next
    case 5 then show ?thesis by (simp add: vpage_def bit_take_bit_iff)
  qed
qed

lemma vpage_index:
  assumes "vpage va = vpage vb" and "12 \<le> k" and "k \<le> 39"
  shows "table_index k va = table_index k vb"
proof (rule bit_word_eqI)
  fix n
  have bit_vpage: "bit (vpage v) m \<longleftrightarrow> m < 36 \<and> bit v (12 + m)" for v m
    by (auto simp: vpage_def bit_take_bit_iff bit_drop_bit_eq)
  have "n < 9 \<Longrightarrow> bit va (k + n) = bit vb (k + n)"
    using bit_vpage [of va "k - 12 + n"] bit_vpage [of vb "k - 12 + n"] assms by auto
  then show "bit (table_index k va) n = bit (table_index k vb) n"
    by (auto simp: bit_table_index)
qed

lemma vpage_eq_iff:
  "vpage va = vpage vb \<longleftrightarrow> table_path va = table_path vb \<and> table_index 12 va = table_index 12 vb"
proof
  assume "vpage va = vpage vb"
  then show "table_path va = table_path vb \<and> table_index 12 va = table_index 12 vb"
    by (simp add: table_path_def vpage_index [of va vb])
qed (rule vpage_eqI, simp_all)

section \<open>Entries in pages\<close>

text \<open>The page an address is in, and agreement of two memories on a page.\<close>

abbreviation page_of :: "u64 \<Rightarrow> u64" where "page_of a \<equiv> a div PAGE_SIZE"

definition page_aligned :: "u64 \<Rightarrow> bool" where
  "page_aligned t \<longleftrightarrow> t mod PAGE_SIZE = 0"

definition same_page :: "u64 \<Rightarrow> mem \<Rightarrow> mem \<Rightarrow> bool" where
  "same_page t m m' \<longleftrightarrow> (\<forall>b. page_of b = page_of t \<longrightarrow> m b = m' b)"

lemma aligned_div: "page_aligned t \<Longrightarrow> page_of t * PAGE_SIZE = t"
  by (metis add.right_neutral div_mult_mod_eq page_aligned_def)

lemma page_of_unat: "unat (page_of t) = unat t div 4096"
  by (simp add: unat_div)

lemma aligned_unat:
  assumes "page_aligned t"
  shows "unat t = 4096 * unat (page_of t)" and "unat (page_of t) < 4503599627370496"
proof -
  have "unat t mod 4096 = 0"
    using assms unat_mod [of t 4096] by (simp add: page_aligned_def)
  then show t: "unat t = 4096 * unat (page_of t)"
    unfolding page_of_unat using mult_div_mod_eq [of 4096 "unat t"] by linarith
  have "unat t < 18446744073709551616" by simp
  with t show "unat (page_of t) < 4503599627370496" by linarith
qed

lemma page_of_offset:
  assumes "page_aligned t" and "unat x < 4096"
  shows "page_of (t + x) = page_of t"
proof -
  note t = aligned_unat [OF assms(1)]
  have "unat t + unat x < 18446744073709551616"
    using t assms(2) by linarith
  then have "unat (t + x) = unat t + unat x"
    by (simp add: unat_word_ariths)
  then have "unat (t + x) = 4096 * unat (page_of t) + unat x"
    using t(1) by linarith
  then have "unat (page_of (t + x)) = unat (page_of t)"
    unfolding page_of_unat [of "t + x"] using assms(2) by simp
  then show ?thesis by (simp add: word_unat_eq_iff)
qed

lemma page_of_in_region:
  assumes "page_aligned t"
  shows "in_region t 4096 b \<longleftrightarrow> page_of b = page_of t"
proof
  assume "in_region t 4096 b"
  then show "page_of b = page_of t"
    using page_of_offset [OF assms, of "b - t"] by (simp add: in_region_def)
next
  assume p: "page_of b = page_of t"
  have "unat b = 4096 * unat (page_of t) + unat b mod 4096"
    using mult_div_mod_eq [of 4096 "unat b"] page_of_unat [of b] by (simp only: p)
  moreover have "unat b mod 4096 < 4096" by simp
  ultimately have "unat t \<le> unat b" and "unat b - unat t < 4096"
    using aligned_unat(1) [OF assms] by linarith+
  then show "in_region t 4096 b"
    by (simp add: in_region_def unat_sub word_le_nat_alt)
qed

lemma same_page_refl [simp]: "same_page t m m"
  by (simp add: same_page_def)

lemma same_page_trans: "same_page t m m' \<Longrightarrow> same_page t m' m'' \<Longrightarrow> same_page t m m''"
  by (simp add: same_page_def)

lemma entry_offset: "i < 512 \<Longrightarrow> unat (i * 8 :: u64) = unat i * 8"
  by (simp add: unat_word_ariths word_less_nat_alt)

lemma page_of_entry:
  assumes "page_aligned t" and "i < 512" and "j < 8"
  shows "page_of (entry_addr t i + of_nat j) = page_of t"
proof -
  have j: "unat (of_nat j :: u64) = j" using assms(3) by simp
  have "unat i \<le> 511" using assms(2) by (simp add: word_less_nat_alt)
  then have "unat (i * 8) + j < 4096"
    using assms(3) by (simp add: entry_offset assms(2))
  then have "unat (i * 8 + of_nat j) < 4096"
    using j by (simp add: unat_word_ariths(1))
  then show ?thesis
    using page_of_offset [OF assms(1), of "i * 8 + of_nat j"] by (simp add: entry_addr_def add.assoc)
qed

lemma load_pte_same_page:
  assumes "page_aligned t" and "i < 512" and "same_page t m m'"
  shows "load_pte m (entry_addr t i) = load_pte m' (entry_addr t i)"
proof -
  have "load64 m (entry_addr t i) = load64 m' (entry_addr t i)"
    by (rule load_le_cong) (use assms page_of_entry in \<open>simp add: same_page_def\<close>)
  then show ?thesis by (simp add: load_pte_def)
qed

lemma load_store_pte: "load_pte (store_pte m a e) a = e"
  by (simp add: load_pte_def store_pte_def load_store_le pte_decode_encode)

lemma entry_apart:
  assumes "page_aligned t" "i < 512" "j < 512" "i \<noteq> j"
  shows "apart (entry_addr t i) 8 (entry_addr t j) 8"
proof -
  have u: "unat i \<le> 511" "unat j \<le> 511" "unat i \<noteq> unat j"
    using assms word_unat_eq_iff [of i j] by (simp_all add: word_less_nat_alt)
  have d: "entry_addr t j - entry_addr t i = j * 8 - i * 8"
    by (simp add: entry_addr_def)
  show ?thesis
  proof (cases "unat i < unat j")
    case True
    then have "i * 8 \<le> j * 8"
      using assms by (simp add: word_le_nat_alt entry_offset)
    then have "unat (entry_addr t j - entry_addr t i) = unat j * 8 - unat i * 8"
      unfolding d using assms by (simp add: unat_sub entry_offset)
    with True u show ?thesis by (intro apartI) simp_all
  next
    case False
    with u have lt: "unat j * 8 < unat i * 8" by simp
    then have "\<not> i * 8 \<le> j * 8"
      using assms by (simp add: word_le_nat_alt entry_offset)
    then have "unat (entry_addr t j - entry_addr t i) = 2 ^ 64 + unat j * 8 - unat i * 8"
      unfolding d using assms by (simp add: unat_sub_if_size word_size entry_offset word_le_nat_alt)
    with False u lt show ?thesis by (intro apartI) simp_all
  qed
qed

lemma load_store_pte_other:
  "page_aligned t \<Longrightarrow> i < 512 \<Longrightarrow> j < 512 \<Longrightarrow> i \<noteq> j \<Longrightarrow>
     load_pte (store_pte m (entry_addr t i) e) (entry_addr t j) = load_pte m (entry_addr t j)"
  by (simp add: load_pte_def store_pte_def load_store_apart entry_apart)

lemma store_pte_same_page:
  assumes "page_aligned t" "i < 512" "page_of r \<noteq> page_of t"
  shows "same_page r (store_pte m (entry_addr t i) e) m"
proof (unfold same_page_def, intro allI impI)
  fix b assume b: "page_of b = page_of r"
  have "\<not> in_region (entry_addr t i) 8 b"
  proof
    assume "in_region (entry_addr t i) 8 b"
    then have "page_of (entry_addr t i + of_nat (unat (b - entry_addr t i))) = page_of t"
      using assms by (intro page_of_entry) (simp_all add: in_region_def)
    with b assms(3) show False by simp
  qed
  then show "store_pte m (entry_addr t i) e b = m b"
    by (simp add: store_pte_def store_le_other)
qed

lemma memset_page_same:
  "page_aligned t \<Longrightarrow> page_of r \<noteq> page_of t \<Longrightarrow> same_page r (memset m t c 4096) m"
  by (simp add: same_page_def memset_apply page_of_in_region)

lemma load_le_zero:
  "(\<And>i. i < k \<Longrightarrow> m (a + of_nat i) = 0) \<Longrightarrow> load_le k m a = 0"
  by (rule bit_word_eqI) (simp add: bit_load_le)

lemma load_pte_cleared:
  assumes "page_aligned t" and "i < 512"
  shows "load_pte (memset m t 0 4096) (entry_addr t i) = pte_decode 0"
proof -
  have "load64 (memset m t 0 4096) (entry_addr t i) = 0"
    by (rule load_le_zero) (simp add: memset_apply page_of_in_region assms page_of_entry)
  then show ?thesis by (simp add: load_pte_def)
qed

end
