(* ===== verification/Page_Map.thy ===== *)
theory Page_Map
  imports Page_Walk
begin

text \<open>
  The tree of page tables under a root \<open>pml4\<close>: its invariant \<open>tables_ok\<close>, the lemma that one
  level of \<open>map_page\<close> (\<open>next_table\<close>) keeps it and no walk changes, the lemma for the write
  of the leaf entry, and from them the contract of \<open>map_page\<close> and \<open>map_pages\<close>.
\<close>

section \<open>The invariant\<close>

text \<open>
  A path is a list of at most three table indices. Every table a path leads to is aligned,
  is in a page the bitmap covers and has marked used, and is not in a page of the bitmap
  itself; no two paths lead to the same table; the pages of the bitmap are marked used.
\<close>

definition path_ok :: "u64 list \<Rightarrow> bool" where
  "path_ok p \<longleftrightarrow> length p \<le> 3 \<and> list_all (\<lambda>i. i < 512) p"

definition page_taken :: "pager \<Rightarrow> u64 \<Rightarrow> bool" where
  "page_taken s a \<longleftrightarrow> covered s a \<and> page_bit s (page_of a)"

definition off_bitmap :: "BITMAP \<Rightarrow> u64 \<Rightarrow> bool" where
  "off_bitmap bm t \<longleftrightarrow> (\<forall>b\<in>bitmap_bytes bm. page_of b \<noteq> page_of t)"

definition tables_ok :: "pager \<Rightarrow> u64 \<Rightarrow> bool" where
  "tables_ok s pml4 \<longleftrightarrow> pager_ok s \<and> page_aligned pml4 \<and>
     (\<forall>b\<in>bitmap_bytes (pb_bitmap (fst s)). page_taken s b) \<and>
     (\<forall>p t. path_ok p \<and> table_at (snd s) pml4 p = Some t \<longrightarrow>
        page_taken s t \<and> off_bitmap (pb_bitmap (fst s)) t) \<and>
     (\<forall>p q t. path_ok p \<and> path_ok q \<and> table_at (snd s) pml4 p = Some t \<and>
        table_at (snd s) pml4 q = Some t \<longrightarrow> p = q)"

lemma tables_okD:
  assumes "tables_ok s pml4"
  shows "pager_ok s" "page_aligned pml4"
    and "\<And>b. b \<in> bitmap_bytes (pb_bitmap (fst s)) \<Longrightarrow> page_taken s b"
    and "\<And>p t. path_ok p \<Longrightarrow> table_at (snd s) pml4 p = Some t \<Longrightarrow> page_taken s t"
    and "\<And>p t. path_ok p \<Longrightarrow> table_at (snd s) pml4 p = Some t \<Longrightarrow> off_bitmap (pb_bitmap (fst s)) t"
    and "\<And>p q t. path_ok p \<Longrightarrow> path_ok q \<Longrightarrow> table_at (snd s) pml4 p = Some t \<Longrightarrow>
        table_at (snd s) pml4 q = Some t \<Longrightarrow> p = q"
  using assms unfolding tables_ok_def by blast+

lemma path_ok_Nil [simp]: "path_ok []"
  by (simp add: path_ok_def)

lemma path_ok_snoc: "path_ok (p @ [i]) \<longleftrightarrow> length p < 3 \<and> path_ok p \<and> i < 512"
  by (auto simp: path_ok_def)

lemma page_aligned_mult: "page_aligned (w * PAGE_SIZE)"
  by (simp add: page_aligned_def word_unat_eq_iff unat_mod unat_word_ariths mod_mod_cancel)

lemma page_aligned_push: "page_aligned (push_bit 12 w)"
  using page_aligned_mult [of w] by (simp add: push_bit_eq_mult)

lemma table_child_aligned: "table_child m t i = Some t' \<Longrightarrow> page_aligned t'"
  by (auto simp: table_child_def Let_def page_aligned_push split: if_splits)

lemma table_at_aligned: "page_aligned pml4 \<Longrightarrow> table_at m pml4 p = Some t \<Longrightarrow> page_aligned t"
  by (induction p arbitrary: pml4) (auto split: Option.bind_splits dest: table_child_aligned)

lemma aligned_eq: "page_aligned a \<Longrightarrow> page_aligned b \<Longrightarrow> page_of a = page_of b \<Longrightarrow> a = b"
  by (metis aligned_div)

section \<open>Taking a page\<close>

text \<open>The bits of the bitmap are read from its own bytes only.\<close>

lemma page_bit_cong:
  assumes "\<And>b. b \<in> bitmap_bytes (pb_bitmap pb) \<Longrightarrow> m b = m' b" and "page_guard (pb, m) i"
  shows "page_bit (pb, m) i = page_bit (pb, m') i"
proof -
  have "bm_buffer (pb_bitmap pb) + i div 8 \<in> bitmap_bytes (pb_bitmap pb)"
    using assms(2) by (auto simp: page_guard_def bitmap_bytes_def)
  from assms(1) [OF this] show ?thesis by (simp add: page_bit_def bitmap_bit_def)
qed

lemma page_taken_cong:
  assumes "\<And>b. b \<in> bitmap_bytes (pb_bitmap pb) \<Longrightarrow> m b = m' b"
  shows "page_taken (pb, m) a = page_taken (pb, m') a"
proof (cases "covered (pb, m) a")
  case True
  then have "page_bit (pb, m) (page_of a) = page_bit (pb, m') (page_of a)"
    using assms covered_guard [OF True] by (intro page_bit_cong)
  then show ?thesis by (simp add: page_taken_def covered_def)
next
  case False
  then show ?thesis by (simp add: page_taken_def covered_def)
qed

lemma clear_pages_cong:
  assumes "\<And>b. b \<in> bitmap_bytes (pb_bitmap pb) \<Longrightarrow> m b = m' b"
  shows "clear_pages (pb, m) = clear_pages (pb, m')"
proof (rule set_eqI)
  fix i
  show "i \<in> clear_pages (pb, m) \<longleftrightarrow> i \<in> clear_pages (pb, m')"
  proof (cases "i < bits_of (pb_bitmap pb)")
    case True
    then have "page_guard (pb, m) (of_nat i)"
      using bits_of_le by (simp add: page_guard_def less_imp_le)
    then have "page_bit (pb, m) (of_nat i) = page_bit (pb, m') (of_nat i)"
      using assms by (intro page_bit_cong)
    then show ?thesis by (simp add: clear_pages_iff)
  qed (simp add: clear_pages_iff)
qed

lemma page_taken_lock: "page_taken s b \<Longrightarrow> page_taken (lock_page a s) b"
  using lp.op_bit [of a s "page_of b"] covered_guard [of s b]
  by (auto simp: page_taken_def covered_def lp.op_bitmap)

text \<open>A page \<open>req_page\<close> returns was not taken before and is taken after.\<close>

lemma req_page_fresh:
  assumes ok: "pager_ok s" and ne: "clear_pages s \<noteq> {}" and r: "req_page s = (a, s')"
  shows "page_aligned a" "page_taken s' a" "unat a < 2 ^ 52" "\<not> page_taken s a"
    and "\<And>b. page_taken s b \<Longrightarrow> page_taken s' b"
    and "\<And>b. b \<notin> bitmap_bytes (pb_bitmap (fst s)) \<Longrightarrow> snd s' b = snd s b"
    and "pb_bitmap (fst s') = pb_bitmap (fst s)"
    and "card (clear_pages s) = Suc (card (clear_pages s'))"
proof -
  let ?i = "Min (clear_pages s)"
  note m = Min_clear [OF ok ne]
  note q = req_page_success [OF ok ne r]
  from r req_page_some [OF ok ne] have a: "a = of_nat ?i * PAGE_SIZE" by simp
  have d: "page_of a = of_nat ?i" using m(2) by (simp add: a page_addr_div)
  from m(2) show "unat a < 2 ^ 52" by (simp add: q(1))
  show "page_aligned a" by (simp add: a page_aligned_mult)
  from m(3) have c: "covered s a" by (simp add: a)
  show "page_taken s' a"
    using c lp.op_bit [of a s "page_of a"] covered_guard [OF c]
    by (simp add: q(3) page_taken_def covered_def lp.op_bitmap)
  show "\<not> page_taken s a"
    using m(1) by (simp add: page_taken_def d clear_pages_iff)
  show "page_taken s' b" if "page_taken s b" for b
    using that by (simp add: q(3) page_taken_lock)
  show "snd s' b = snd s b" if "b \<notin> bitmap_bytes (pb_bitmap (fst s))" for b
    using that by (simp add: q(3) lp.op_frame)
  show "pb_bitmap (fst s') = pb_bitmap (fst s)"
    by (simp add: q(3) lp.op_bitmap)
  show "card (clear_pages s) = Suc (card (clear_pages s'))"
    using card_Suc_Diff1 [OF finite_clear_pages m(1)] by (simp only: q(2))
qed

section \<open>One level: a table that is there, or a new one\<close>

definition new_entry :: "u64 \<Rightarrow> PAGE_TABLE_ENTRY" where
  "new_entry sub = (pte_decode 0)\<lparr>pte_addr := ucast (drop_bit 12 sub), pte_p := 1, pte_rw := 1\<rparr>"

lemma push_drop_12: "page_aligned a \<Longrightarrow> unat a < 2 ^ 52 \<Longrightarrow>
   push_bit 12 (ucast (ucast (drop_bit 12 a) :: 40 word)) = a"
proof (rule bit_word_eqI)
  fix n assume al: "page_aligned a" and lt: "unat a < 2 ^ 52"
  have "take_bit 12 a = 0" using al by (simp add: page_aligned_def take_bit_eq_mod)
  then have low: "\<not> bit a n" if "n < 12"
    using that bit_take_bit_iff [of 12 a n] by simp
  have "take_bit 52 a = a" using lt by (simp add: word_unat_eq_iff unsigned_take_bit_eq take_bit_nat_eq_self)
  then have high: "n < 52" if "bit a n" using that by (metis bit_take_bit_iff)
  show "bit (push_bit 12 (ucast (ucast (drop_bit 12 a) :: 40 word)) :: u64) n = bit a n"
    using low high bit_imp_le_length [of a n]
    by (cases "n < 12") (auto simp: bit_push_bit_iff bit_ucast_iff bit_drop_bit_eq)
qed

lemma table_child_new:
  assumes "load_pte m (entry_addr t i) = new_entry sub" "page_aligned sub" "unat sub < 2 ^ 52"
  shows "table_child m t i = Some sub"
  using assms by (simp add: table_child_def new_entry_def push_drop_12)

lemma table_child_zero: "load_pte m (entry_addr t i) = pte_decode 0 \<Longrightarrow> table_child m t i = None"
  by (simp add: table_child_def pte_decode_def field_at_def)

lemma table_child_cong:
  "load_pte m (entry_addr t i) = load_pte m' (entry_addr t i) \<Longrightarrow> table_child m t i = table_child m' t i"
  by (simp add: table_child_def)

text \<open>
  The new tree, in terms of what the new memory holds: the entry \<open>i\<close> of the table at \<open>p\<close>
  links the fresh table \<open>sub\<close>, \<open>sub\<close> is empty, and no other entry of a table has changed.
\<close>

lemma table_at_link:
  assumes inj: "\<And>q. path_ok q \<Longrightarrow> table_at m pml4 q = Some t \<Longrightarrow> q = p"
    and at: "table_at m pml4 p = Some t" and none: "table_child m t i = None"
    and link: "table_child m' t i = Some sub"
    and empty: "\<And>j. j < 512 \<Longrightarrow> table_child m' sub j = None"
    and same: "\<And>q r j. path_ok q \<Longrightarrow> table_at m pml4 q = Some r \<Longrightarrow> j < 512 \<Longrightarrow>
        r \<noteq> t \<or> j \<noteq> i \<Longrightarrow> table_child m' r j = table_child m r j"
    and q: "path_ok q"
  shows "table_at m' pml4 q = (if q = p @ [i] then Some sub else table_at m pml4 q)"
  using q
proof (induction q rule: rev_induct)
  case Nil
  then show ?case by simp
next
  case (snoc j q)
  then have q: "path_ok q" and j: "j < 512" by (simp_all add: path_ok_snoc)
  with snoc.IH have IH: "table_at m' pml4 q = (if q = p @ [i] then Some sub else table_at m pml4 q)" by simp
  show ?case
  proof (cases "q = p @ [i]")
    case True
    then have n: "table_at m pml4 q = None"
      by (simp add: table_at_snoc at none)
    have "table_at m' pml4 (q @ [j]) = None"
      unfolding table_at_snoc using IH True empty [OF j] by simp
    moreover have "table_at m pml4 (q @ [j]) = None"
      unfolding table_at_snoc [of _ _ q] using n by simp
    moreover have "q @ [j] \<noteq> p @ [i]" using True by auto
    ultimately show ?thesis by simp
  next
    case False
    show ?thesis
    proof (cases "table_at m pml4 q")
      case None
      then have "q \<noteq> p" using at by auto
      with None False IH show ?thesis by (simp add: table_at_snoc)
    next
      case (Some r)
      show ?thesis
      proof (cases "r = t \<and> j = i")
        case True
        with inj [OF q] Some have "q = p" by simp
        with True Some False IH link show ?thesis by (simp add: table_at_snoc)
      next
        case r: False
        then have "q @ [j] \<noteq> p @ [i]" using Some at by auto
        with same [OF q Some j] r Some False IH show ?thesis by (auto simp: table_at_snoc)
      qed
    qed
  qed
qed

text \<open>
  The allocating branch of \<open>next_table\<close>, as a relation between the state before it (\<open>s\<close>),
  after \<open>req_page\<close> (\<open>s1\<close>) and at its end (\<open>s'\<close>), for the table \<open>t\<close> at path \<open>p\<close> and its
  entry \<open>i\<close>: which pages have changed, and what the entries of \<open>t\<close> and \<open>sub\<close> now are.
\<close>

definition fresh_link :: "pager \<Rightarrow> pager \<Rightarrow> pager \<Rightarrow> u64 \<Rightarrow> u64 list \<Rightarrow> u64 \<Rightarrow> u64 \<Rightarrow> u64 \<Rightarrow> bool" where
  "fresh_link s s1 s' pml4 p t i sub \<longleftrightarrow>
     tables_ok s pml4 \<and> path_ok p \<and> length p < 3 \<and> i < 512 \<and>
     table_at (snd s) pml4 p = Some t \<and> table_child (snd s) t i = None \<and>
     clear_pages s \<noteq> {} \<and> req_page s = (sub, s1) \<and> fst s' = fst s1 \<and>
     (\<forall>r. same_page r (snd s1) (snd s') \<or> page_of r = page_of sub \<or> page_of r = page_of t) \<and>
     load_pte (snd s') (entry_addr t i) = new_entry sub \<and>
     (\<forall>j<512. load_pte (snd s') (entry_addr sub j) = pte_decode 0) \<and>
     (\<forall>j<512. j \<noteq> i \<longrightarrow> load_pte (snd s') (entry_addr t j) = load_pte (snd s1) (entry_addr t j))"

lemma next_table_new:
  assumes ok: "tables_ok s pml4" and p: "path_ok p" "length p < 3" and i: "i < 512"
    and at: "table_at (snd s) pml4 p = Some t" and none: "table_child (snd s) t i = None"
    and ne: "clear_pages s \<noteq> {}" and nt: "next_table t i s = (sub, s')"
  shows "\<exists>s1. fresh_link s s1 s' pml4 p t i sub"
proof -
  obtain a s1 where r: "req_page s = (a, s1)" by (cases "req_page s")
  have "pte_p (load_pte (snd s) (entry_addr t i)) = 0"
    using none by (simp add: table_child_def Let_def split: if_splits)
  with nt r have sub: "a = sub" and s': "s' = (fst s1,
      store_pte (memset (snd s1) sub 0 4096) (entry_addr t i) (new_entry sub))"
    by (auto simp: next_table_def Let_def new_entry_def split: prod.splits)
  note fresh = req_page_fresh [OF tables_okD(1) [OF ok] ne r, unfolded sub]
  have al: "page_aligned t" using table_at_aligned [OF tables_okD(2) [OF ok] at] .
  have ts: "page_of t \<noteq> page_of sub"
    using fresh(1,4) tables_okD(4) [OF ok p(1) at] aligned_eq [OF fresh(1) al] by auto
  have "same_page r (snd s1) (snd s') \<or> page_of r = page_of sub \<or> page_of r = page_of t" for r
    using store_pte_same_page [OF al i, of r] memset_page_same [OF fresh(1), of r]
    by (auto simp: s' same_page_def)
  moreover have "load_pte (snd s') (entry_addr sub j) = pte_decode 0" if "j < 512" for j
    using load_pte_same_page [OF fresh(1) that store_pte_same_page [OF al i]] ts
    by (simp add: s' load_pte_cleared fresh(1) that)
  moreover have "load_pte (snd s') (entry_addr t j) = load_pte (snd s1) (entry_addr t j)"
    if "j < 512" "j \<noteq> i" for j
    using load_store_pte_other [OF al i that(1)] that(2)
      load_pte_same_page [OF al that(1) memset_page_same [OF fresh(1) ts]]
    by (simp add: s')
  ultimately have "fresh_link s s1 s' pml4 p t i sub"
    using ok p i at none ne r sub by (simp add: fresh_link_def s' load_store_pte)
  then show ?thesis ..
qed

lemma fresh_linkD:
  assumes "fresh_link s s1 s' pml4 p t i sub"
  shows "tables_ok s pml4" "path_ok p" "length p < 3" "i < 512"
    and "table_at (snd s) pml4 p = Some t" "table_child (snd s) t i = None"
    and "clear_pages s \<noteq> {}" "req_page s = (sub, s1)" "fst s' = fst s1"
    and "\<And>r. same_page r (snd s1) (snd s') \<or> page_of r = page_of sub \<or> page_of r = page_of t"
    and "load_pte (snd s') (entry_addr t i) = new_entry sub"
    and "\<And>j. j < 512 \<Longrightarrow> load_pte (snd s') (entry_addr sub j) = pte_decode 0"
    and "\<And>j. j < 512 \<Longrightarrow> j \<noteq> i \<Longrightarrow> load_pte (snd s') (entry_addr t j) = load_pte (snd s1) (entry_addr t j)"
  using assms unfolding fresh_link_def by blast+

lemma page_taken_page: "page_of a = page_of b \<Longrightarrow> page_taken s a = page_taken s b"
  by (simp add: page_taken_def covered_def)

lemma off_bitmap_same_page:
  assumes "off_bitmap bm r" and "\<And>b. b \<notin> bitmap_bytes bm \<Longrightarrow> m' b = m b"
  shows "same_page r m m'"
  using assms by (auto simp: same_page_def off_bitmap_def)

lemma path_ok_table_path [simp]: "path_ok (table_path va)"
  by (simp add: path_ok_def table_path_def table_index_less)

lemma length_table_path [simp]: "length (table_path va) = 3"
  by (simp add: table_path_def)

lemma fresh_link_apart:
  assumes fl: "fresh_link s s1 s' pml4 p t i sub" and x: "page_taken s x"
  shows "page_of x \<noteq> page_of sub"
  using x req_page_fresh(4) [OF tables_okD(1) [OF fresh_linkD(1) [OF fl]] fresh_linkD(7,8) [OF fl]]
    page_taken_page [of x sub s] by auto

lemma fresh_link_old:
  assumes fl: "fresh_link s s1 s' pml4 p t i sub"
    and q: "path_ok q" "table_at (snd s) pml4 q = Some r" "j < 512" "r \<noteq> t \<or> j \<noteq> i"
  shows "load_pte (snd s') (entry_addr r j) = load_pte (snd s) (entry_addr r j)"
proof -
  note D = fresh_linkD [OF fl] and okD = tables_okD [OF fresh_linkD(1) [OF fl]]
  note fresh = req_page_fresh [OF okD(1) D(7,8)]
  have al: "page_aligned r" "page_aligned t"
    using table_at_aligned okD(2) q(2) D(5) by blast+
  have 1: "load_pte (snd s) (entry_addr r j) = load_pte (snd s1) (entry_addr r j)"
    by (rule load_pte_same_page [OF al(1) q(3) off_bitmap_same_page [OF okD(5) [OF q(1,2)] fresh(6)]])
  show ?thesis
  proof (cases "r = t")
    case True
    with q D(13) 1 show ?thesis by simp
  next
    case False
    then have "page_of r \<noteq> page_of t" using aligned_eq al by blast
    with D(10) [of r] fresh_link_apart [OF fl okD(4) [OF q(1,2)]]
    have "same_page r (snd s1) (snd s')" by blast
    from load_pte_same_page [OF al(1) q(3) this] 1 show ?thesis by simp
  qed
qed

lemma fresh_link_at:
  assumes fl: "fresh_link s s1 s' pml4 p t i sub" and q: "path_ok q"
  shows "table_at (snd s') pml4 q = (if q = p @ [i] then Some sub else table_at (snd s) pml4 q)"
proof -
  note D = fresh_linkD [OF fl] and okD = tables_okD [OF fresh_linkD(1) [OF fl]]
  note fresh = req_page_fresh [OF okD(1) D(7,8)]
  show ?thesis
    by (rule table_at_link [OF _ D(5,6) _ _ _ q])
      (use okD(6) D(2,5,11,12) fresh(1,3) fresh_link_old [OF fl] in
        \<open>auto intro: table_child_new table_child_zero table_child_cong\<close>)
qed

text \<open>The bytes of the bitmap are as \<open>req_page\<close> left them, so its bits are too.\<close>

lemma fresh_link_bits:
  assumes fl: "fresh_link s s1 s' pml4 p t i sub"
  shows "pb_bitmap (fst s') = pb_bitmap (fst s)"
    and "page_taken s' x \<longleftrightarrow> page_taken s1 x" and "clear_pages s' = clear_pages s1"
proof -
  note D = fresh_linkD [OF fl] and okD = tables_okD [OF fresh_linkD(1) [OF fl]]
  note fresh = req_page_fresh [OF okD(1) D(7,8)]
  show bm': "pb_bitmap (fst s') = pb_bitmap (fst s)" by (simp add: D(9) fresh(7))
  have bytes: "snd s1 b = snd s' b" if "b \<in> bitmap_bytes (pb_bitmap (fst s'))" for b
    using D(10) [of b] that fresh_link_apart [OF fl okD(3)] okD(5) [OF D(2,5)]
    by (auto simp: bm' same_page_def off_bitmap_def)
  have "page_taken (fst s', snd s1) x = page_taken (fst s', snd s') x"
    by (rule page_taken_cong) (rule bytes)
  then show "page_taken s' x \<longleftrightarrow> page_taken s1 x" by (metis D(9) prod.collapse)
  have "clear_pages (fst s', snd s1) = clear_pages (fst s', snd s')"
    by (rule clear_pages_cong) (rule bytes)
  then show "clear_pages s' = clear_pages s1" by (metis D(9) prod.collapse)
qed

lemma fresh_link_tables_ok:
  assumes fl: "fresh_link s s1 s' pml4 p t i sub"
  shows "tables_ok s' pml4"
proof -
  note D = fresh_linkD [OF fl] and okD = tables_okD [OF fresh_linkD(1) [OF fl]]
  note fresh = req_page_fresh [OF okD(1) D(7,8)] and bits = fresh_link_bits [OF fl]
  note at' = fresh_link_at [OF fl]
  have sub_off: "off_bitmap (pb_bitmap (fst s)) sub"
    using okD(3) fresh_link_apart [OF fl] by (auto simp: off_bitmap_def)
  show ?thesis
  proof (unfold tables_ok_def bits(1), intro conjI allI impI ballI)
    show "pager_ok s'" using okD(1) by (simp add: pager_ok_def bits(1))
    show "page_aligned pml4" by (rule okD(2))
    show "page_taken s' b" if "b \<in> bitmap_bytes (pb_bitmap (fst s))" for b
      using okD(3) [OF that] fresh(5) by (simp add: bits(2))
  next
    fix q r assume q: "path_ok q \<and> table_at (snd s') pml4 q = Some r"
    then show "page_taken s' r"
      using okD(4) fresh(2,5) by (auto simp: at' bits(2) split: if_splits)
    show "off_bitmap (pb_bitmap (fst s)) r"
      using q okD(5) sub_off by (auto simp: at' split: if_splits)
  next
    fix q1 q2 r
    assume "path_ok q1 \<and> path_ok q2 \<and> table_at (snd s') pml4 q1 = Some r \<and>
      table_at (snd s') pml4 q2 = Some r"
    then show "q1 = q2"
      using okD(4,6) fresh(4) by (auto simp: at' split: if_splits)
  qed
qed

text \<open>An empty table below an absent entry maps nothing, so no walk changes.\<close>

lemma fresh_link_walk:
  assumes fl: "fresh_link s s1 s' pml4 p t i sub"
  shows "page_walk (snd s') pml4 va = page_walk (snd s) pml4 va"
proof -
  note D = fresh_linkD [OF fl] and okD = tables_okD [OF fresh_linkD(1) [OF fl]]
  note at' = fresh_link_at [OF fl path_ok_table_path]
  show ?thesis
  proof (cases "table_path va = p @ [i]")
    case True
    then have "table_at (snd s) pml4 (table_path va) = None"
      by (simp add: table_at_snoc D(5,6))
    with True at' [of va] show ?thesis
      by (simp add: page_walk_def D(12) table_index_less Let_def pte_decode_def field_at_def)
  next
    case False
    have "r \<noteq> t" if "table_at (snd s) pml4 (table_path va) = Some r" for r
      using that okD(6) [OF path_ok_table_path D(2) that] D(3,5) length_table_path [of va] by auto
    with False show ?thesis
      using fresh_link_old [OF fl path_ok_table_path, of va _ "table_index 12 va"]
      by (auto simp: page_walk_def at' table_index_less split: Option.bind_splits)
  qed
qed

text \<open>A byte of a page in use that is neither the bitmap's nor a table's.\<close>

definition data_byte :: "pager \<Rightarrow> u64 \<Rightarrow> u64 \<Rightarrow> bool" where
  "data_byte s pml4 b \<longleftrightarrow> page_taken s b \<and> off_bitmap (pb_bitmap (fst s)) b \<and>
     (\<forall>p t. path_ok p \<and> table_at (snd s) pml4 p = Some t \<longrightarrow> page_of t \<noteq> page_of b)"

lemma fresh_link_data:
  assumes fl: "fresh_link s s1 s' pml4 p t i sub" and b: "data_byte s pml4 b"
  shows "snd s' b = snd s b \<and> data_byte s' pml4 b"
proof -
  note D = fresh_linkD [OF fl] and okD = tables_okD [OF fresh_linkD(1) [OF fl]]
  note fresh = req_page_fresh [OF okD(1) D(7,8)] and bits = fresh_link_bits [OF fl]
  have taken: "page_taken s b" and off: "off_bitmap (pb_bitmap (fst s)) b"
    and tab: "\<And>q r. path_ok q \<Longrightarrow> table_at (snd s) pml4 q = Some r \<Longrightarrow> page_of r \<noteq> page_of b"
    using b unfolding data_byte_def by blast+
  note sub = fresh_link_apart [OF fl taken]
  have "snd s' b = snd s1 b"
    using D(10) [of b] sub tab [OF D(2,5)] by (auto simp: same_page_def)
  moreover have "snd s1 b = snd s b"
    using off fresh(6) by (auto simp: off_bitmap_def)
  moreover have "data_byte s' pml4 b"
    using taken off tab sub fresh(5)
    by (auto simp: data_byte_def bits fresh_link_at [OF fl] split: if_splits)
  ultimately show ?thesis by simp
qed

section \<open>What one level does, whichever branch it takes\<close>

text \<open>
  After the level for the path \<open>q\<close>: there is a table \<open>sub\<close> at \<open>q\<close>, every other path leads
  where it led, a page was taken exactly if the table was missing, and no walk and no data
  has changed.
\<close>

definition level_result :: "pager \<Rightarrow> pager \<Rightarrow> u64 \<Rightarrow> u64 list \<Rightarrow> u64 \<Rightarrow> bool" where
  "level_result s s' pml4 q sub \<longleftrightarrow> tables_ok s' pml4 \<and> pb_bitmap (fst s') = pb_bitmap (fst s) \<and>
     card (clear_pages s) = card (clear_pages s') + (if table_at (snd s) pml4 q = None then 1 else 0) \<and>
     (\<forall>r. path_ok r \<longrightarrow> table_at (snd s') pml4 r = (if r = q then Some sub else table_at (snd s) pml4 r)) \<and>
     (\<forall>va. page_walk (snd s') pml4 va = page_walk (snd s) pml4 va) \<and>
     (\<forall>b. data_byte s pml4 b \<longrightarrow> snd s' b = snd s b \<and> data_byte s' pml4 b)"

lemma level_resultD:
  assumes "level_result s s' pml4 q sub"
  shows "tables_ok s' pml4" "pb_bitmap (fst s') = pb_bitmap (fst s)"
    and "card (clear_pages s) = card (clear_pages s') + (if table_at (snd s) pml4 q = None then 1 else 0)"
    and "\<And>r. path_ok r \<Longrightarrow> table_at (snd s') pml4 r = (if r = q then Some sub else table_at (snd s) pml4 r)"
    and "\<And>va. page_walk (snd s') pml4 va = page_walk (snd s) pml4 va"
    and "\<And>b. data_byte s pml4 b \<Longrightarrow> snd s' b = snd s b \<and> data_byte s' pml4 b"
  using assms unfolding level_result_def by blast+

lemma next_table_level:
  assumes ok: "tables_ok s pml4" and p: "path_ok p" "length p < 3" and i: "i < 512"
    and at: "table_at (snd s) pml4 p = Some t"
    and ne: "table_at (snd s) pml4 (p @ [i]) = None \<Longrightarrow> clear_pages s \<noteq> {}"
    and nt: "next_table t i s = (sub, s')"
  shows "level_result s s' pml4 (p @ [i]) sub"
proof (cases "table_child (snd s) t i")
  case (Some c)
  then have "s' = s" "sub = c"
    using nt by (auto simp: next_table_def table_child_def Let_def split: if_splits)
  then show ?thesis using at Some ok by (simp add: table_at_snoc level_result_def)
next
  case None
  then have missing: "table_at (snd s) pml4 (p @ [i]) = None" by (simp add: table_at_snoc at)
  from None obtain s1 where fl: "fresh_link s s1 s' pml4 p t i sub"
    using next_table_new [OF ok p i at _ ne nt] missing by blast
  note D = fresh_linkD [OF fl] and bits = fresh_link_bits [OF fl]
  have "card (clear_pages s) = Suc (card (clear_pages s'))"
    using req_page_fresh(8) [OF tables_okD(1) [OF ok] D(7,8)] by (simp add: bits)
  then show ?thesis
    using fresh_link_at [OF fl] fresh_link_tables_ok [OF fl] fresh_link_walk [OF fl]
      fresh_link_data [OF fl] missing
    by (simp add: level_result_def bits(1))
qed

section \<open>The leaf entry\<close>

definition leaf_entry :: "PAGE_TABLE_ENTRY \<Rightarrow> u64 \<Rightarrow> PAGE_TABLE_ENTRY" where
  "leaf_entry e phys_addr = e\<lparr>pte_addr := ucast (drop_bit 12 phys_addr), pte_p := 1, pte_rw := 1\<rparr>"

lemma set_leaf_eq:
  "set_leaf pt j pa m = store_pte m (entry_addr pt j) (leaf_entry (load_pte m (entry_addr pt j)) pa)"
  by (simp add: set_leaf_def leaf_entry_def Let_def)

text \<open>A last-level table is at a path of length three; no shorter path reaches its page.\<close>

lemma last_level_apart:
  assumes ok: "tables_ok s pml4" and p: "path_ok p" and at: "table_at (snd s) pml4 p = Some pt"
    and q: "path_ok q" "table_at (snd s) pml4 q = Some r" "q \<noteq> p"
  shows "page_of r \<noteq> page_of pt"
proof
  assume "page_of r = page_of pt"
  then have "r = pt"
    using aligned_eq table_at_aligned tables_okD(2) [OF ok] q(2) at by metis
  then show False using tables_okD(6) [OF ok q(1) p q(2)] at q(3) by simp
qed

lemma set_leaf_at:
  assumes ok: "tables_ok s pml4" and p: "path_ok p" "length p = 3" and j: "j < 512"
    and at: "table_at (snd s) pml4 p = Some pt" and q: "path_ok q"
  shows "table_at (set_leaf pt j pa (snd s)) pml4 q = table_at (snd s) pml4 q"
  using q
proof (induction q rule: rev_induct)
  case Nil
  then show ?case by simp
next
  case (snoc k q)
  then have q: "path_ok q" "k < 512" "length q < 3" by (simp_all add: path_ok_snoc)
  have al: "page_aligned pt" using table_at_aligned tables_okD(2) [OF ok] at by blast
  have "table_child (set_leaf pt j pa (snd s)) r k = table_child (snd s) r k"
    if r: "table_at (snd s) pml4 q = Some r" for r
  proof (rule table_child_cong)
    have "page_aligned r" using table_at_aligned tables_okD(2) [OF ok] r by blast
    moreover have "q \<noteq> p" using q(3) p(2) by auto
    then have "page_of r \<noteq> page_of pt" by (rule last_level_apart [OF ok p(1) at q(1) r])
    ultimately show "load_pte (set_leaf pt j pa (snd s)) (entry_addr r k) = load_pte (snd s) (entry_addr r k)"
      using load_pte_same_page store_pte_same_page [OF al j] q(2) by (metis set_leaf_eq)
  qed
  with snoc.IH q(1) show ?case by (auto simp: table_at_snoc split: Option.bind_splits)
qed

lemma page_walk_at:
  "page_walk m pml4 va = (case table_at m pml4 (table_path va) of None \<Rightarrow> None
     | Some pt \<Rightarrow> let e = load_pte m (entry_addr pt (table_index 12 va))
                  in if pte_p e = 0 then None else Some e)"
  by (simp add: page_walk_def split: option.split)

lemma leaf_entry_p [simp]: "pte_p (leaf_entry e pa) = 1"
  by (simp add: leaf_entry_def)

lemma set_leaf_walk:
  assumes ok: "tables_ok s pml4" and at: "table_at (snd s) pml4 (table_path va) = Some pt"
  shows "page_walk (set_leaf pt (table_index 12 va) pa (snd s)) pml4 vb =
     (if vpage vb = vpage va then Some (leaf_entry (load_pte (snd s) (entry_addr pt (table_index 12 va))) pa)
      else page_walk (snd s) pml4 vb)"
proof -
  let ?j = "table_index 12 va" and ?k = "table_index 12 vb"
  let ?m' = "set_leaf pt ?j pa (snd s)"
  have al: "page_aligned pt" using table_at_aligned tables_okD(2) [OF ok] at by blast
  have at': "table_at ?m' pml4 (table_path vb) = table_at (snd s) pml4 (table_path vb)"
    by (rule set_leaf_at [OF ok _ _ table_index_less at]) simp_all
  show ?thesis
  proof (cases "table_path vb = table_path va")
    case True
    show ?thesis
    proof (cases "?k = ?j")
      case same: True
      with True at' at show ?thesis
        by (simp add: page_walk_at vpage_eq_iff set_leaf_eq load_store_pte)
    next
      case False
      then have "load_pte ?m' (entry_addr pt ?k) = load_pte (snd s) (entry_addr pt ?k)"
        by (simp add: set_leaf_eq load_store_pte_other al table_index_less)
      with False True at' at show ?thesis by (simp add: page_walk_at vpage_eq_iff)
    qed
  next
    case False
    have "load_pte ?m' (entry_addr r ?k) = load_pte (snd s) (entry_addr r ?k)"
      if r: "table_at (snd s) pml4 (table_path vb) = Some r" for r
    proof -
      have "page_aligned r" using table_at_aligned tables_okD(2) [OF ok] r by blast
      moreover have "page_of r \<noteq> page_of pt"
        using last_level_apart [OF ok _ at _ r] False by simp
      ultimately show ?thesis
        using load_pte_same_page store_pte_same_page [OF al table_index_less] table_index_less
        by (metis set_leaf_eq)
    qed
    with False at' show ?thesis by (simp add: page_walk_at vpage_eq_iff split: option.split)
  qed
qed

lemma set_leaf_same_page:
  assumes "page_aligned pt" "j < 512" "page_of b \<noteq> page_of pt"
  shows "set_leaf pt j pa m b = m b"
  using store_pte_same_page [OF assms] by (simp add: set_leaf_eq same_page_def)

lemma set_leaf_tables_ok:
  assumes ok: "tables_ok (pb, m) pml4" and p: "path_ok p" "length p = 3" and j: "j < 512"
    and at: "table_at m pml4 p = Some pt"
  shows "tables_ok (pb, set_leaf pt j pa m) pml4"
    and "clear_pages (pb, set_leaf pt j pa m) = clear_pages (pb, m)"
    and "data_byte (pb, m) pml4 b \<Longrightarrow>
      set_leaf pt j pa m b = m b \<and> data_byte (pb, set_leaf pt j pa m) pml4 b"
proof -
  note okD = tables_okD [OF ok, simplified]
  have al: "page_aligned pt" using table_at_aligned okD(2) at by blast
  have at': "table_at (set_leaf pt j pa m) pml4 q = table_at m pml4 q" if "path_ok q" for q
    using set_leaf_at [OF ok p j _ that] at by simp
  have bytes: "m b = set_leaf pt j pa m b" if "b \<in> bitmap_bytes (pb_bitmap pb)" for b
    using set_leaf_same_page [OF al j] okD(5) [OF p(1) at] that by (simp add: off_bitmap_def)
  then have taken: "page_taken (pb, set_leaf pt j pa m) x = page_taken (pb, m) x" for x
    by (intro page_taken_cong) simp
  show "clear_pages (pb, set_leaf pt j pa m) = clear_pages (pb, m)"
    using bytes by (intro clear_pages_cong) simp
  show "tables_ok (pb, set_leaf pt j pa m) pml4"
    using ok by (auto simp: tables_ok_def at' taken pager_ok_def)
  show "set_leaf pt j pa m b = m b \<and> data_byte (pb, set_leaf pt j pa m) pml4 b"
    if b: "data_byte (pb, m) pml4 b"
  proof -
    have "page_of pt \<noteq> page_of b" using b p(1) at by (auto simp: data_byte_def)
    then have "set_leaf pt j pa m b = m b" using set_leaf_same_page [OF al j, of b] by simp
    then show ?thesis using b by (auto simp: data_byte_def at' taken)
  qed
qed

section \<open>map_page\<close>

text \<open>The tables the walk of an address goes through, and how many of a list are missing.\<close>

definition prefixes :: "u64 \<Rightarrow> u64 list list" where
  "prefixes va = [[table_index 39 va], [table_index 39 va, table_index 30 va], table_path va]"

definition missing_tables :: "mem \<Rightarrow> u64 \<Rightarrow> u64 list list \<Rightarrow> nat" where
  "missing_tables m pml4 ps = length (remdups (filter (\<lambda>p. table_at m pml4 p = None) ps))"

lemma missing_prefixes:
  "missing_tables m pml4 (prefixes va) =
     (if table_at m pml4 [table_index 39 va] = None then 1 else 0) +
     (if table_at m pml4 [table_index 39 va, table_index 30 va] = None then 1 else 0) +
     (if table_at m pml4 (table_path va) = None then 1 else 0)"
  by (simp add: missing_tables_def prefixes_def table_path_def)

text \<open>The contract of \<open>map_page\<close>, from the state \<open>(pb, mach)\<close> to \<open>(pb', mach')\<close>.\<close>

definition map_result :: "u64 \<Rightarrow> u64 \<Rightarrow> u64 \<Rightarrow> PAGE_BITMAP \<times> machine \<Rightarrow> PAGE_BITMAP \<times> machine \<Rightarrow> bool" where
  "map_result pml4 va pa s s' \<longleftrightarrow>
     (let before = (fst s, mem (snd s)); after = (fst s', mem (snd s')) in
        tables_ok after pml4 \<and> pb_bitmap (fst s') = pb_bitmap (fst s) \<and>
        card (clear_pages before) = card (clear_pages after) + missing_tables (snd before) pml4 (prefixes va) \<and>
        (\<forall>q. path_ok q \<longrightarrow> (table_at (snd after) pml4 q = None \<longleftrightarrow>
           table_at (snd before) pml4 q = None \<and> q \<notin> set (prefixes va))) \<and>
        (\<exists>e. \<forall>vb. vpage vb = vpage va \<longrightarrow> page_walk (snd after) pml4 vb = Some (leaf_entry e pa)) \<and>
        (\<forall>vb. vpage vb \<noteq> vpage va \<longrightarrow> page_walk (snd after) pml4 vb = page_walk (snd before) pml4 vb) \<and>
        (\<forall>b. data_byte before pml4 b \<longrightarrow> snd after b = snd before b \<and> data_byte after pml4 b) \<and>
        events (snd s') = events (snd s) @ [Invlpg va])"

lemma card_pos_clear: "0 < card (clear_pages s) \<Longrightarrow> clear_pages s \<noteq> {}"
  by auto

text \<open>The three levels above the leaf, one after the other.\<close>

lemma three_levels:
  assumes ok: "tables_ok s pml4"
    and enough: "missing_tables (snd s) pml4 (prefixes va) \<le> card (clear_pages s)"
    and n: "next_table pml4 (table_index 39 va) s = (pdpt, s1)"
      "next_table pdpt (table_index 30 va) s1 = (pd, s2)" "next_table pd (table_index 21 va) s2 = (pt, s3)"
  shows "level_result s s1 pml4 [table_index 39 va] pdpt"
    and "level_result s1 s2 pml4 [table_index 39 va, table_index 30 va] pd"
    and "level_result s2 s3 pml4 (table_path va) pt"
    and "card (clear_pages s) = card (clear_pages s3) + missing_tables (snd s) pml4 (prefixes va)"
proof -
  let ?a = "[table_index 39 va]" and ?b = "[table_index 39 va, table_index 30 va]" and ?c = "table_path va"
  have ab: "?a \<noteq> ?b" "?a \<noteq> ?c" "?b \<noteq> ?c" by (simp_all add: table_path_def)
  have oks: "path_ok ?a" "path_ok ?b" "path_ok ?c"
    by (simp_all add: path_ok_def table_index_less table_path_def)
  let ?m = "\<lambda>p. if table_at (snd s) pml4 p = None then 1 else 0 :: nat"
  have free: "?m ?a + ?m ?b + ?m ?c \<le> card (clear_pages s)"
    using enough by (simp only: missing_prefixes)
  show l1: "level_result s s1 pml4 ?a pdpt"
    by (rule next_table_level [OF ok path_ok_Nil _ table_index_less _ _ n(1), simplified append_Nil])
       (use free in \<open>auto intro!: card_pos_clear simp del: table_at.simps(2) split: if_splits\<close>)
  note L1 = level_resultD [OF l1]
  have free1: "?m ?b + ?m ?c \<le> card (clear_pages s1)"
    using free L1(3) by simp
  show l2: "level_result s1 s2 pml4 ?b pd"
    by (rule next_table_level [OF L1(1) oks(1) _ table_index_less _ _ n(2), simplified append.simps])
       (use free1 L1(4) oks ab in \<open>auto intro!: card_pos_clear simp del: table_at.simps(2) split: if_splits\<close>)
  note L2 = level_resultD [OF l2]
  have free2: "?m ?c \<le> card (clear_pages s2)"
    using free1 L2(3) L1(4) oks ab by (simp del: table_at.simps(2))
  show l3: "level_result s2 s3 pml4 ?c pt"
    by (rule next_table_level [OF L2(1) oks(2) _ table_index_less _ _ n(3), simplified append.simps,
          folded table_path_def])
       (use free2 L1(4) L2(4) oks ab in \<open>auto intro!: card_pos_clear simp del: table_at.simps(2) split: if_splits\<close>)
  show "card (clear_pages s) = card (clear_pages s3) + missing_tables (snd s) pml4 (prefixes va)"
    using L1(3,4) L2(3,4) level_resultD(3) [OF l3] oks ab
    by (simp del: table_at.simps(2) add: missing_prefixes)
qed

lemma set_leaf_pager:
  assumes "tables_ok s pml4" "path_ok p" "length p = 3" "j < 512" "table_at (snd s) pml4 p = Some pt"
  shows "tables_ok (fst s, set_leaf pt j pa (snd s)) pml4"
    and "clear_pages (fst s, set_leaf pt j pa (snd s)) = clear_pages s"
    and "data_byte s pml4 b \<Longrightarrow>
      set_leaf pt j pa (snd s) b = snd s b \<and> data_byte (fst s, set_leaf pt j pa (snd s)) pml4 b"
  using assms set_leaf_tables_ok [of "fst s" "snd s"] by (cases s; simp)+

lemma map_page_result:
  assumes ok: "tables_ok (fst s, mem (snd s)) pml4"
    and enough: "missing_tables (mem (snd s)) pml4 (prefixes va) \<le> card (clear_pages (fst s, mem (snd s)))"
  shows "map_result pml4 va pa s (map_page pml4 va pa s)"
proof -
  let ?s = "(fst s, mem (snd s))" and ?j = "table_index 12 va"
  obtain pdpt s1 where n1: "next_table pml4 (table_index 39 va) ?s = (pdpt, s1)" by (metis surj_pair)
  obtain pd s2 where n2: "next_table pdpt (table_index 30 va) s1 = (pd, s2)" by (metis surj_pair)
  obtain pt s3 where n3: "next_table pd (table_index 21 va) s2 = (pt, s3)" by (metis surj_pair)
  have s': "map_page pml4 va pa s = (fst s3, invlpg va ((snd s)\<lparr>mem := set_leaf pt ?j pa (snd s3)\<rparr>))"
    by (simp add: map_page_def n1 n2 n3 Let_def)
  note levels = three_levels [of ?s, simplified, OF ok enough n1 n2 n3]
  note L1 = level_resultD [OF levels(1)] and L2 = level_resultD [OF levels(2)] and L3 = level_resultD [OF levels(3)]
  have pt: "table_at (snd s3) pml4 (table_path va) = Some pt" using L3(4) by simp
  note leaf = set_leaf_pager [OF L3(1) path_ok_table_path length_table_path table_index_less pt]
  have at3: "table_at (set_leaf pt ?j pa (snd s3)) pml4 q = None \<longleftrightarrow>
      table_at (mem (snd s)) pml4 q = None \<and> q \<notin> set (prefixes va)" if "path_ok q" for q
    using L1(4) [OF that] L2(4) [OF that] L3(4) [OF that] set_leaf_at [OF L3(1) _ _ table_index_less pt that]
    by (simp add: prefixes_def)
  have walk: "page_walk (set_leaf pt ?j pa (snd s3)) pml4 vb =
      (if vpage vb = vpage va then Some (leaf_entry (load_pte (snd s3) (entry_addr pt ?j)) pa)
       else page_walk (mem (snd s)) pml4 vb)" for vb
    using set_leaf_walk [OF L3(1) pt] L1(5) L2(5) L3(5) by simp
  have data: "set_leaf pt ?j pa (snd s3) b = mem (snd s) b \<and>
      data_byte (fst s3, set_leaf pt ?j pa (snd s3)) pml4 b" if "data_byte ?s pml4 b" for b
    using leaf(3) [of b] L1(6) [OF that] L2(6) [of b] L3(6) [of b] by simp
  show ?thesis
    using leaf(1,2) levels(4) at3 walk data L1(2) L2(2) L3(2)
    by (auto simp: map_result_def s' invlpg_def)
qed

lemma map_resultD:
  assumes "map_result pml4 va pa (pb, s) (pb', s')"
  shows "tables_ok (pb', mem s') pml4" "pb_bitmap pb' = pb_bitmap pb"
    and "card (clear_pages (pb, mem s)) =
      card (clear_pages (pb', mem s')) + missing_tables (mem s) pml4 (prefixes va)"
    and "\<And>q. path_ok q \<Longrightarrow> table_at (mem s') pml4 q = None \<longleftrightarrow>
      table_at (mem s) pml4 q = None \<and> q \<notin> set (prefixes va)"
    and "\<exists>e. \<forall>vb. vpage vb = vpage va \<longrightarrow> page_walk (mem s') pml4 vb = Some (leaf_entry e pa)"
    and "\<And>vb. vpage vb \<noteq> vpage va \<Longrightarrow> page_walk (mem s') pml4 vb = page_walk (mem s) pml4 vb"
    and "\<And>b. data_byte (pb, mem s) pml4 b \<Longrightarrow> mem s' b = mem s b \<and> data_byte (pb', mem s') pml4 b"
    and "events s' = events s @ [Invlpg va]"
  using assms unfolding map_result_def Let_def fst_conv snd_conv by blast+

section \<open>map_pages\<close>

definition page_addr :: "u64 \<Rightarrow> nat \<Rightarrow> u64" where
  "page_addr a i = a + of_nat i * PAGE_SIZE"

definition run_prefixes :: "u64 \<Rightarrow> nat \<Rightarrow> u64 list list" where
  "run_prefixes va n = concat (map (\<lambda>i. prefixes (page_addr va i)) [0..<n])"

lemma missing_card: "missing_tables m pml4 ps = card {p \<in> set ps. table_at m pml4 p = None}"
  by (simp add: missing_tables_def length_remdups_card_conv)

text \<open>Mapping one page of a longer run takes exactly what that page was missing.\<close>

lemma missing_split:
  assumes m': "\<And>q. q \<in> set ps \<union> set qs \<Longrightarrow> table_at m' pml4 q = None \<longleftrightarrow> table_at m pml4 q = None \<and> q \<notin> set ps"
  shows "missing_tables m pml4 (ps @ qs) = missing_tables m pml4 ps + missing_tables m' pml4 qs"
proof -
  let ?P = "{p \<in> set ps. table_at m pml4 p = None}" and ?Q = "{p \<in> set qs. table_at m' pml4 p = None}"
  have "p \<in> {p \<in> set (ps @ qs). table_at m pml4 p = None} \<longleftrightarrow> p \<in> ?P \<union> ?Q" for p
    using m' [of p] by auto
  then have "{p \<in> set (ps @ qs). table_at m pml4 p = None} = ?P \<union> ?Q" by blast
  moreover have "?P \<inter> ?Q = {}" using m' by blast
  ultimately show ?thesis by (simp add: missing_card card_Un_disjoint)
qed

lemma missing_mono: "set ps \<subseteq> set qs \<Longrightarrow> missing_tables m pml4 ps \<le> missing_tables m pml4 qs"
  unfolding missing_card by (rule card_mono) auto

lemma missing_set: "set ps = set qs \<Longrightarrow> missing_tables m pml4 ps = missing_tables m pml4 qs"
  by (simp add: missing_card)

lemma path_ok_prefixes: "q \<in> set (prefixes va) \<Longrightarrow> path_ok q"
  by (auto simp: prefixes_def path_ok_def table_path_def table_index_less)

lemma path_ok_run: "q \<in> set (run_prefixes va n) \<Longrightarrow> path_ok q"
  by (auto simp: run_prefixes_def path_ok_prefixes)

text \<open>The contract of \<open>map_pages\<close> for a run of \<open>n\<close> pages.\<close>

definition run_result :: "u64 \<Rightarrow> u64 \<Rightarrow> u64 \<Rightarrow> nat \<Rightarrow> PAGE_BITMAP \<times> machine \<Rightarrow> PAGE_BITMAP \<times> machine \<Rightarrow> bool" where
  "run_result pml4 va pa n s s' \<longleftrightarrow>
     (let before = (fst s, mem (snd s)); after = (fst s', mem (snd s')) in
        tables_ok after pml4 \<and> pb_bitmap (fst s') = pb_bitmap (fst s) \<and>
        card (clear_pages before) = card (clear_pages after) + missing_tables (snd before) pml4 (run_prefixes va n) \<and>
        (\<forall>q. path_ok q \<longrightarrow> (table_at (snd after) pml4 q = None \<longleftrightarrow>
           table_at (snd before) pml4 q = None \<and> q \<notin> set (run_prefixes va n))) \<and>
        (\<forall>i<n. \<exists>e. \<forall>vb. vpage vb = vpage (page_addr va i) \<longrightarrow>
           page_walk (snd after) pml4 vb = Some (leaf_entry e (page_addr pa i))) \<and>
        (\<forall>vb. (\<forall>i<n. vpage vb \<noteq> vpage (page_addr va i)) \<longrightarrow>
           page_walk (snd after) pml4 vb = page_walk (snd before) pml4 vb) \<and>
        (\<forall>b. data_byte before pml4 b \<longrightarrow> snd after b = snd before b \<and> data_byte after pml4 b) \<and>
        events (snd s') = events (snd s) @ map (\<lambda>i. Invlpg (page_addr va i)) [0..<n])"

lemma run_prefixes_Suc: "run_prefixes va (Suc n) = run_prefixes va n @ prefixes (page_addr va n)"
  by (simp add: run_prefixes_def)

lemma map_pages_Suc:
  "map_pages pml4 va pa (Suc n) s = map_page pml4 (page_addr va n) (page_addr pa n) (map_pages pml4 va pa n s)"
  by (simp add: page_addr_def)

lemma run_result_step:
  assumes r: "run_result pml4 va pa n s s1"
    and m: "map_result pml4 (page_addr va n) (page_addr pa n) s1 s2"
    and dist: "\<And>i. i < n \<Longrightarrow> vpage (page_addr va i) \<noteq> vpage (page_addr va n)"
  shows "run_result pml4 va pa (Suc n) s s2"
proof -
  let ?m0 = "mem (snd s)" and ?m1 = "mem (snd s1)"
  note R = r [unfolded run_result_def Let_def fst_conv snd_conv]
  note M = m [unfolded map_result_def Let_def fst_conv snd_conv]
  have at1: "table_at ?m1 pml4 q = None \<longleftrightarrow> table_at ?m0 pml4 q = None \<and> q \<notin> set (run_prefixes va n)"
    if "path_ok q" for q using R that by blast
  have "missing_tables ?m0 pml4 (run_prefixes va (Suc n)) =
      missing_tables ?m0 pml4 (run_prefixes va n) + missing_tables ?m1 pml4 (prefixes (page_addr va n))"
    unfolding run_prefixes_Suc
    by (rule missing_split) (use at1 path_ok_run path_ok_prefixes in blast)
  then have count: "card (clear_pages (fst s, ?m0)) =
      card (clear_pages (fst s2, mem (snd s2))) + missing_tables ?m0 pml4 (run_prefixes va (Suc n))"
    using R M by simp
  have at2: "table_at (mem (snd s2)) pml4 q = None \<longleftrightarrow>
      table_at ?m0 pml4 q = None \<and> q \<notin> set (run_prefixes va (Suc n))" if "path_ok q" for q
    using M at1 that by (auto simp: run_prefixes_Suc simp del: not_None_eq)
  have hit: "\<exists>e. \<forall>vb. vpage vb = vpage (page_addr va i) \<longrightarrow>
      page_walk (mem (snd s2)) pml4 vb = Some (leaf_entry e (page_addr pa i))" if "i < Suc n" for i
  proof (cases "i = n")
    case True
    with M show ?thesis by blast
  next
    case False
    with that have "i < n" by simp
    with R dist [of i] M show ?thesis by metis
  qed
  have miss: "page_walk (mem (snd s2)) pml4 vb = page_walk ?m0 pml4 vb"
    if "\<forall>i<Suc n. vpage vb \<noteq> vpage (page_addr va i)" for vb
    using R M that by simp
  show ?thesis
    using count at2 hit miss R M by (simp add: run_result_def)
qed

lemma map_pages_result:
  assumes ok: "tables_ok (fst s, mem (snd s)) pml4"
    and "missing_tables (mem (snd s)) pml4 (run_prefixes va n) \<le> card (clear_pages (fst s, mem (snd s)))"
    and "\<And>i j. i < j \<Longrightarrow> j < n \<Longrightarrow> vpage (page_addr va i) \<noteq> vpage (page_addr va j)"
  shows "run_result pml4 va pa n s (map_pages pml4 va pa n s)"
  using assms(2,3)
proof (induction n)
  case 0
  then show ?case using ok by (simp add: run_result_def run_prefixes_def missing_tables_def)
next
  case (Suc n)
  let ?s1 = "map_pages pml4 va pa n s"
  have "missing_tables (mem (snd s)) pml4 (run_prefixes va n)
      \<le> missing_tables (mem (snd s)) pml4 (run_prefixes va (Suc n))"
    by (rule missing_mono) (simp add: run_prefixes_Suc)
  with Suc have r: "run_result pml4 va pa n s ?s1" by simp
  note R = r [unfolded run_result_def Let_def fst_conv snd_conv]
  have "missing_tables (mem (snd s)) pml4 (run_prefixes va (Suc n)) =
      missing_tables (mem (snd s)) pml4 (run_prefixes va n) +
      missing_tables (mem (snd ?s1)) pml4 (prefixes (page_addr va n))"
    unfolding run_prefixes_Suc
    by (rule missing_split) (use R path_ok_run path_ok_prefixes in blast)
  with Suc.prems(1) R have "missing_tables (mem (snd ?s1)) pml4 (prefixes (page_addr va n))
      \<le> card (clear_pages (fst ?s1, mem (snd ?s1)))" by linarith
  with R have "map_result pml4 (page_addr va n) (page_addr pa n) ?s1 (map_pages pml4 va pa (Suc n) s)"
    unfolding map_pages_Suc by (intro map_page_result) simp_all
  with r show ?case
    by (rule run_result_step) (use Suc.prems(2) in simp)
qed

lemma run_resultD:
  assumes "run_result pml4 va pa n (pb, s) (pb', s')"
  shows "tables_ok (pb', mem s') pml4" "pb_bitmap pb' = pb_bitmap pb"
    and "card (clear_pages (pb, mem s)) =
      card (clear_pages (pb', mem s')) + missing_tables (mem s) pml4 (run_prefixes va n)"
    and "\<And>i. i < n \<Longrightarrow> \<exists>e. \<forall>vb. vpage vb = vpage (page_addr va i) \<longrightarrow>
      page_walk (mem s') pml4 vb = Some (leaf_entry e (page_addr pa i))"
    and "\<And>vb. (\<And>i. i < n \<Longrightarrow> vpage vb \<noteq> vpage (page_addr va i)) \<Longrightarrow>
      page_walk (mem s') pml4 vb = page_walk (mem s) pml4 vb"
    and "\<And>b. data_byte (pb, mem s) pml4 b \<Longrightarrow> mem s' b = mem s b \<and> data_byte (pb', mem s') pml4 b"
    and "events s' = events s @ map (\<lambda>i. Invlpg (page_addr va i)) [0..<n]"
  using assms unfolding run_result_def Let_def fst_conv snd_conv by blast+

section \<open>The first table\<close>

text \<open>A cleared root table in a page that is taken is a tree with no other table.\<close>

lemma table_at_cleared:
  assumes "page_aligned pml4" and "\<And>b. page_of b = page_of pml4 \<Longrightarrow> m b = 0"
    and "path_ok p" and "table_at m pml4 p = Some t"
  shows "p = [] \<and> t = pml4"
proof (cases p)
  case Nil
  with assms(4) show ?thesis by simp
next
  case (Cons i q)
  then have "i < 512" using assms(3) by (simp add: path_ok_def)
  then have "load64 m (entry_addr pml4 i) = 0"
    by (intro load_le_zero assms(2) page_of_entry [OF assms(1)])
  then have "table_child m pml4 i = None"
    by (intro table_child_zero) (simp add: load_pte_def)
  with Cons assms(4) show ?thesis by simp
qed

lemma tables_ok_init:
  assumes "pager_ok s" "page_aligned pml4" "page_taken s pml4"
    and "\<And>b. b \<in> bitmap_bytes (pb_bitmap (fst s)) \<Longrightarrow> page_taken s b \<and> page_of b \<noteq> page_of pml4"
    and "\<And>b. page_of b = page_of pml4 \<Longrightarrow> snd s b = 0"
  shows "tables_ok s pml4"
  using assms table_at_cleared [OF assms(2), of "snd s"]
  unfolding tables_ok_def off_bitmap_def by blast

section \<open>vir_to_phys\<close>

lemma shl12_narrow: "unat a < 2 ^ 28 \<Longrightarrow> shl12 bt a = push_bit 12 (ucast a)"
proof (cases bt)
  case Declared_width
  assume "unat a < 2 ^ 28"
  then have "take_bit 28 a = a"
    by (simp add: word_unat_eq_iff unsigned_take_bit_eq take_bit_nat_eq_self)
  then have a: "n < 28" if "bit a n" for n using that by (metis bit_take_bit_iff)
  have "(ucast (push_bit 12 a) :: u64) = push_bit 12 (ucast a)"
    by (rule bit_word_eqI) (auto simp: bit_ucast_iff bit_push_bit_iff dest: a)
  with Declared_width show ?thesis by simp
qed simp

lemma page_of_push: "page_of (push_bit 12 (ucast (a :: 40 word))) = ucast a"
proof -
  have "unat a < 2 ^ 40" using unsigned_less [of a, where ?'a = nat] by simp
  then have "unat (ucast a :: u64) * 4096 < 2 ^ 64" by (simp add: unsigned_ucast_eq take_bit_nat_eq_self)
  then show ?thesis
    by (simp add: push_bit_eq_mult word_unat_eq_iff unat_div unat_word_ariths)
qed

text \<open>
  For either compiler choice \<open>vir_to_phys\<close> finds the page of the walk, as long as, where the
  shift is done in 40 bits, the tables and the page lie below \<open>2 ^ 40\<close>.
\<close>

definition narrow :: "bitfield_type \<Rightarrow> pager \<Rightarrow> 40 word \<Rightarrow> bool" where
  "narrow bt s a \<longleftrightarrow> bt = Declared_type \<or> bits_of (pb_bitmap (fst s)) \<le> 2 ^ 28 \<and> unat a < 2 ^ 28"

lemma table_child_shl12:
  assumes ok: "tables_ok s pml4" and n: "narrow bt s b"
    and p: "path_ok (p @ [i])" and t: "table_at (snd s) pml4 p = Some t"
    and c: "table_at (snd s) pml4 (p @ [i]) = Some t'"
  shows "shl12 bt (pte_addr (load_pte (snd s) (entry_addr t i))) = t'"
proof -
  let ?a = "pte_addr (load_pte (snd s) (entry_addr t i))"
  have t': "t' = push_bit 12 (ucast ?a)"
    using c by (simp add: table_at_snoc t table_child_def Let_def split: if_splits)
  show ?thesis
  proof (cases bt)
    case Declared_width
    have "unat (page_of t') < bits_of (pb_bitmap (fst s))"
      using tables_okD(4) [OF ok p c] by (simp add: page_taken_def covered_def)
    then have "unat (ucast ?a :: u64) < 2 ^ 28"
      using n Declared_width by (simp add: narrow_def t' page_of_push)
    moreover have "unat (ucast ?a :: u64) = unat ?a"
      using unsigned_less [of ?a, where ?'a = nat]
      by (simp add: unsigned_ucast_eq take_bit_nat_eq_self)
    ultimately show ?thesis by (simp add: shl12_narrow t')
  qed (simp add: t')
qed

lemma vir_to_phys_walk:
  assumes ok: "tables_ok s cr3" and n: "narrow bt s (pte_addr e)"
    and w: "page_walk (snd s) cr3 va = Some e"
  shows "vir_to_phys bt cr3 (snd s) va = push_bit 12 (ucast (pte_addr e))"
proof -
  let ?i = "table_index 39 va" and ?j = "table_index 30 va" and ?k = "table_index 21 va"
  obtain pt where pt: "table_at (snd s) cr3 (([?i] @ [?j]) @ [?k]) = Some pt"
    and e: "load_pte (snd s) (entry_addr pt (table_index 12 va)) = e"
    using w by (auto simp: page_walk_at table_path_def Let_def split: option.splits if_splits)
  obtain pd where pd: "table_at (snd s) cr3 ([?i] @ [?j]) = Some pd"
    using pt by (subst (asm) table_at_snoc) (auto split: Option.bind_splits)
  obtain pdpt where pdpt: "table_at (snd s) cr3 ([] @ [?i]) = Some pdpt"
    using pd by (subst (asm) table_at_snoc) (auto split: Option.bind_splits)
  have oks: "path_ok ([] @ [?i])" "path_ok ([?i] @ [?j])" "path_ok (([?i] @ [?j]) @ [?k])"
    by (simp_all add: path_ok_def table_index_less)
  have 1: "shl12 bt (pte_addr (load_pte (snd s) (entry_addr cr3 ?i))) = pdpt"
    by (rule table_child_shl12 [OF ok n oks(1) _ pdpt]) simp
  have 2: "shl12 bt (pte_addr (load_pte (snd s) (entry_addr pdpt ?j))) = pd"
    by (rule table_child_shl12 [OF ok n oks(2) _ pd]) (use pdpt in simp)
  have 3: "shl12 bt (pte_addr (load_pte (snd s) (entry_addr pd ?k))) = pt"
    by (rule table_child_shl12 [OF ok n oks(3) pd pt])
  have 4: "shl12 bt (pte_addr e) = push_bit 12 (ucast (pte_addr e))"
    using n by (cases bt) (simp_all add: narrow_def shl12_narrow del: shl12.simps(1))
  show ?thesis by (simp add: vir_to_phys_def Let_def 1 2 3 4 e)
qed

end
