(* ===== verification/Page_Props.thy ===== *)
theory Page_Props
  imports Page_Map
begin

text \<open>
  The properties of the bitmap, the page allocator and the page tables, each with a witness
  on a small machine: a bitmap of one byte at address \<open>0x1000\<close> that has the first three
  pages taken, a cleared root table in page 2, and five free pages.
\<close>

section \<open>A small machine\<close>

definition ex_pb :: PAGE_BITMAP where
  "ex_pb = \<lparr>pb_bitmap = \<lparr>bm_buffer = 4096, bm_size = 1\<rparr>,
     pb_free = 20480, pb_reserved = 12288, pb_used = 0\<rparr>"

definition ex_mem :: mem where
  "ex_mem = (\<lambda>_. 0)(4096 := 7)"

definition ex_mach :: machine where
  "ex_mach = \<lparr>mem = ex_mem, msrs = (\<lambda>_. (0, 0)), tick = 0, events = []\<rparr>"

lemma ex_mach_mem [simp]: "mem ex_mach = ex_mem"
  by (simp add: ex_mach_def)

lemma ex_bytes: "b \<in> bitmap_bytes (pb_bitmap ex_pb) \<Longrightarrow> b = 4096 \<or> b = 4097"
proof -
  assume "b \<in> bitmap_bytes (pb_bitmap ex_pb)"
  then obtain i :: u64 where i: "b = 4096 + i div 8" "i \<le> 8"
    by (auto simp: bitmap_bytes_def ex_pb_def)
  then have "unat i \<le> 8" by (simp add: word_le_nat_alt)
  then have "unat (i div 8) = 0 \<or> unat (i div 8) = 1" by (simp add: unat_div) linarith
  then have "i div 8 = 0 \<or> i div 8 = 1" by (auto simp: word_unat_eq_iff)
  with i show ?thesis by auto
qed

lemma ex_bits: "bits_of (pb_bitmap ex_pb) = 8"
  by (simp add: bits_of_def ex_pb_def)

lemma ex_taken: "a div 4096 = 0 \<or> a div 4096 = 1 \<or> a div 4096 = 2 \<Longrightarrow> page_taken (ex_pb, ex_mem) a"
  by (auto simp: page_taken_def covered_def ex_bits page_bit_def bitmap_bit_def ex_mem_def)
     (simp_all add: ex_pb_def)

lemma ex_bit: "i < 8 \<Longrightarrow> page_bit (ex_pb, ex_mem) (of_nat i) \<longleftrightarrow> i < 3"
proof -
  assume "i < 8"
  then have "i \<in> set [0,1,2,3,4,5,6,7]" by auto
  moreover have "\<forall>i \<in> set [0,1,2,3,4,5,6,7]. page_bit (ex_pb, ex_mem) (of_nat i) \<longleftrightarrow> i < 3"
    by (simp add: page_bit_def bitmap_bit_def ex_mem_def ex_pb_def bit_numeral_rec)
  ultimately show ?thesis by blast
qed

lemma ex_clear: "clear_pages (ex_pb, ex_mem) = {3..<8}"
  by (auto simp: clear_pages_iff ex_bits ex_bit)

lemma ex_pager_ok: "pager_ok (ex_pb, ex_mem)"
  by (simp add: pager_ok_def ex_pb_def)

lemma ex_tables_ok: "tables_ok (ex_pb, ex_mem) 8192"
proof (rule tables_ok_init)
  show "pager_ok (ex_pb, ex_mem)" by (rule ex_pager_ok)
  show "page_aligned 8192" by (simp add: page_aligned_def)
  show "page_taken (ex_pb, ex_mem) 8192" by (simp add: ex_taken)
  fix b
  show "page_taken (ex_pb, ex_mem) b \<and> page_of b \<noteq> page_of 8192"
    if "b \<in> bitmap_bytes (pb_bitmap (fst (ex_pb, ex_mem)))"
    using ex_bytes [of b] that by (auto simp: ex_taken)
  show "snd (ex_pb, ex_mem) b = 0" if "page_of b = page_of 8192"
    using that by (auto simp: ex_mem_def)
qed

lemma ex_enough: "missing_tables m pml4 (prefixes va) \<le> card (clear_pages (ex_pb, ex_mem))"
  unfolding missing_prefixes ex_clear by simp

lemma ex_entry: "load64 ex_mem (entry_addr 8192 3) = 0"
proof (rule load_le_zero)
  fix i :: nat
  assume "i < 8"
  then have "page_of (entry_addr 8192 3 + of_nat i) = 2"
    using page_of_entry [of 8192 3 i] by (simp add: page_aligned_def)
  then have "entry_addr 8192 3 + of_nat i \<noteq> 4096" by auto
  then show "ex_mem (entry_addr 8192 3 + of_nat i) = 0" by (simp add: ex_mem_def)
qed

lemma ex_run: "missing_tables ex_mem 8192 (run_prefixes 4194304 2) \<le> 5"
proof -
  have "set (run_prefixes 4194304 2) = set (prefixes 4194304)"
    by (auto simp: run_prefixes_def upt_rec prefixes_def page_addr_def table_path_def table_index_def)
  then have "missing_tables ex_mem 8192 (run_prefixes 4194304 2) = missing_tables ex_mem 8192 (prefixes 4194304)"
    by (rule missing_set)
  then show ?thesis by (simp add: missing_prefixes)
qed

lemma page_number:
  "pa < 2 ^ 40 \<Longrightarrow> unat (ucast (drop_bit 12 pa) :: 40 word) = unat (pa :: u64) div 4096"
proof -
  assume "pa < 2 ^ 40"
  then have "unat pa < 2 ^ 40" by (simp add: word_less_nat_alt)
  then have "unat pa div 4096 < 2 ^ 40" by linarith
  then show ?thesis
    by (simp add: unsigned_ucast_eq take_bit_nat_eq_self unat_drop_bit_eq drop_bit_eq_div unat_div)
qed

lemma page_base:
  "pa < 2 ^ 40 \<Longrightarrow> push_bit 12 (ucast (ucast (drop_bit 12 pa) :: 40 word)) = (pa :: u64) - pa mod 4096"
proof -
  assume pa: "pa < 2 ^ 40"
  have "unat (ucast (ucast (drop_bit 12 pa) :: 40 word) :: u64) = unat (pa div 4096)"
    using page_number [OF pa] unsigned_less [of "ucast (drop_bit 12 pa) :: 40 word", where ?'a = nat]
    by (simp add: unsigned_ucast_eq [where w = "_ :: 40 word"] take_bit_nat_eq_self unat_div)
  then have "(ucast (ucast (drop_bit 12 pa) :: 40 word) :: u64) = pa div 4096"
    by (simp only: word_unat_eq_iff)
  then show ?thesis
    by (simp add: push_bit_eq_mult minus_mod_eq_div_mult)
qed

section \<open>Page tables\<close>

text \<open>C3: After \<open>map_page\<close> the walk of the virtual address leads to the physical page, present
  and writable, and the walk of every address in another virtual page is what it was.\<close>

theorem map_page_maps:
  assumes "tables_ok (pb, mem s) pml4"
    and "missing_tables (mem s) pml4 (prefixes va) \<le> card (clear_pages (pb, mem s))"
    and "map_page pml4 va pa (pb, s) = (pb', s')"
  shows "(\<exists>e. page_walk (mem s') pml4 va = Some e \<and> pte_p e = 1 \<and> pte_rw e = 1 \<and>
           pte_addr e = ucast (drop_bit 12 pa)) \<and>
         (\<forall>vb. vpage vb \<noteq> vpage va \<longrightarrow> page_walk (mem s') pml4 vb = page_walk (mem s) pml4 vb)"
proof -
  have "map_result pml4 va pa (pb, s) (pb', s')"
    using map_page_result [of "(pb, s)" pml4 va pa] assms by simp
  note R = map_resultD(5,6) [OF this]
  then show ?thesis by (fastforce simp: leaf_entry_def)
qed

theorem map_page_maps_witness:
  "\<exists>pb' s' e. map_page 8192 4194304 20480 (ex_pb, ex_mach) = (pb', s') \<and>
     page_walk (mem s') 8192 4194304 = Some e \<and> pte_p e = 1 \<and> pte_addr e = 5"
proof -
  obtain pb' s' where m: "map_page 8192 4194304 20480 (ex_pb, ex_mach) = (pb', s')"
    by (metis surj_pair)
  have "(ucast (drop_bit 12 (20480 :: u64)) :: 40 word) = 5" by simp
  with map_page_maps [OF _ _ m] ex_tables_ok ex_enough m show ?thesis by auto
qed

text \<open>C6: \<open>map_page\<close> keeps the invariant of the table tree, takes exactly as many free pages
  as tables were missing on the walk, leaves every byte of a used page that is neither the
  bitmap's nor a table's as it was, and flushes the address from the TLB.\<close>

theorem map_page_keeps:
  assumes "tables_ok (pb, mem s) pml4"
    and "missing_tables (mem s) pml4 (prefixes va) \<le> card (clear_pages (pb, mem s))"
    and "map_page pml4 va pa (pb, s) = (pb', s')"
  shows "tables_ok (pb', mem s') pml4 \<and>
    card (clear_pages (pb, mem s)) = card (clear_pages (pb', mem s')) + missing_tables (mem s) pml4 (prefixes va) \<and>
    (\<forall>b. data_byte (pb, mem s) pml4 b \<longrightarrow> mem s' b = mem s b) \<and>
    events s' = events s @ [Invlpg va]"
proof -
  have "map_result pml4 va pa (pb, s) (pb', s')"
    using map_page_result [of "(pb, s)" pml4 va pa] assms by simp
  note R = map_resultD [OF this]
  from R(1,3,7,8) show ?thesis by blast
qed

theorem map_page_keeps_witness:
  "\<exists>pb' s'. map_page 8192 4194304 20480 (ex_pb, ex_mach) = (pb', s') \<and>
     tables_ok (pb', mem s') 8192 \<and> events s' = [Invlpg 4194304]"
proof -
  obtain pb' s' where m: "map_page 8192 4194304 20480 (ex_pb, ex_mach) = (pb', s')"
    by (metis surj_pair)
  with map_page_keeps [OF _ _ m] ex_tables_ok ex_enough show ?thesis by (simp add: ex_mach_def)
qed

text \<open>\<open>map_pages\<close> maps every page of its run to the corresponding physical page, whatever
  tables it had to add on the way, and changes no other walk.\<close>

lemma map_pages_maps:
  assumes "tables_ok (pb, mem s) pml4"
    and "missing_tables (mem s) pml4 (run_prefixes va n) \<le> card (clear_pages (pb, mem s))"
    and "\<And>i j. i < j \<Longrightarrow> j < n \<Longrightarrow> vpage (page_addr va i) \<noteq> vpage (page_addr va j)"
    and "map_pages pml4 va pa n (pb, s) = (pb', s')"
  shows "tables_ok (pb', mem s') pml4 \<and>
    (\<forall>i<n. \<exists>e. page_walk (mem s') pml4 (va + of_nat i * 4096) = Some e \<and> pte_p e = 1 \<and> pte_rw e = 1 \<and>
       pte_addr e = ucast (drop_bit 12 (pa + of_nat i * 4096))) \<and>
    (\<forall>vb. (\<forall>i<n. vpage vb \<noteq> vpage (va + of_nat i * 4096)) \<longrightarrow>
       page_walk (mem s') pml4 vb = page_walk (mem s) pml4 vb)"
proof -
  have "run_result pml4 va pa n (pb, s) (pb', s')"
    using map_pages_result [of "(pb, s)" pml4 va n pa] assms by simp
  note R = run_resultD [OF this]
  from R(4) have "\<exists>e. page_walk (mem s') pml4 (va + of_nat i * 4096) = Some e \<and> pte_p e = 1 \<and>
      pte_rw e = 1 \<and> pte_addr e = ucast (drop_bit 12 (pa + of_nat i * 4096))" if "i < n" for i
    using that by (fastforce simp: leaf_entry_def page_addr_def)
  with R(1,5) show ?thesis by (simp add: page_addr_def)
qed

lemma map_pages_maps_witness:
  "\<exists>pb' s' e. map_pages 8192 4194304 20480 2 (ex_pb, ex_mach) = (pb', s') \<and>
     page_walk (mem s') 8192 (4194304 + of_nat 1 * 4096) = Some e \<and> pte_p e = 1 \<and> pte_addr e = 6"
proof -
  obtain pb' s' where m: "map_pages 8192 4194304 20480 2 (ex_pb, ex_mach) = (pb', s')"
    by (metis surj_pair)
  have d: "vpage (page_addr 4194304 i) \<noteq> vpage (page_addr 4194304 j)" if "i < j" "j < 2" for i j
  proof -
    from that have "i = 0" "j = 1" by auto
    then show ?thesis by (simp add: page_addr_def vpage_def take_bit_eq_mod drop_bit_eq_div)
  qed
  have n: "missing_tables (mem ex_mach) 8192 (run_prefixes 4194304 2)
      \<le> card (clear_pages (ex_pb, mem ex_mach))"
    using ex_run by (simp add: ex_clear)
  have t: "tables_ok (ex_pb, mem ex_mach) 8192" using ex_tables_ok by simp
  have "(ucast (drop_bit 12 (20480 + of_nat 1 * 4096 :: u64)) :: 40 word) = 6" by simp
  with map_pages_maps [OF t n d m] obtain e where
    "page_walk (mem s') 8192 (4194304 + of_nat 1 * 4096) = Some e" "pte_p e = 1" "pte_addr e = 6"
    by (metis one_less_numeral_iff semiring_norm(76))
  with m show ?thesis by blast
qed

text \<open>C36: After \<open>map_page\<close>, \<open>vir_to_phys\<close> of any address in the virtual page is the base of
  the physical page, for physical memory below \<open>2 ^ 40\<close> whichever type the compiler shifts
  the 40-bit field in. The offset in the page is dropped.\<close>

theorem map_page_vir_to_phys:
  assumes "tables_ok (pb, mem s) pml4"
    and "missing_tables (mem s) pml4 (prefixes va) \<le> card (clear_pages (pb, mem s))"
    and "map_page pml4 va pa (pb, s) = (pb', s')"
    and "bits_of (pb_bitmap pb) \<le> 2 ^ 28" and "pa < 2 ^ 40"
    and "vpage vb = vpage va"
  shows "vir_to_phys bt pml4 (mem s') vb = pa - pa mod 4096"
proof -
  have "map_result pml4 va pa (pb, s) (pb', s')"
    using map_page_result [of "(pb, s)" pml4 va pa] assms(1-3) by simp
  note R = map_resultD [OF this]
  from R(5) assms(6) obtain e where w: "page_walk (mem s') pml4 vb = Some e"
    and e: "pte_addr e = ucast (drop_bit 12 pa)" by (auto simp: leaf_entry_def)
  from assms(5) have "unat pa < 2 ^ 28 * 4096" by (simp add: word_less_nat_alt)
  then have u: "unat pa div 4096 < 2 ^ 28" by (rule less_mult_imp_div_less)
  have n: "narrow bt (pb', mem s') (pte_addr e)"
    using assms(4) R(2) u by (simp add: narrow_def e page_number [OF assms(5)])
  have "vir_to_phys bt pml4 (mem s') vb = push_bit 12 (ucast (ucast (drop_bit 12 pa) :: 40 word))"
    using vir_to_phys_walk [OF _ n] R(1) w by (simp add: e)
  also have "\<dots> = pa - pa mod 4096"
    using page_base [OF assms(5)] by simp
  finally show ?thesis .
qed

theorem map_page_vir_to_phys_witness:
  "vir_to_phys Declared_width 8192
     (mem (snd (map_page 8192 4194304 20485 (ex_pb, ex_mach)))) 4194307 = 20480"
proof -
  obtain pb' s' where m: "map_page 8192 4194304 20485 (ex_pb, ex_mach) = (pb', s')"
    by (metis surj_pair)
  have v: "vpage 4194307 = vpage 4194304"
    by (simp add: vpage_def drop_bit_eq_div)
  have "bits_of (pb_bitmap ex_pb) \<le> 2 ^ 28" by (simp add: ex_bits)
  with map_page_vir_to_phys [OF _ _ m _ _ v, of Declared_width] ex_tables_ok ex_enough m
  show ?thesis by simp
qed

text \<open>C37: When no page is free, a missing table is linked at address 0: the level of
  \<open>map_page\<close> takes the \<open>NULL\<close> of \<open>req_page\<close> as a page, clears the first 4096 bytes of memory and
  writes a present entry that points to page 0.\<close>

theorem next_table_exhausted:
  assumes "pager_ok (pb, m)" and "clear_pages (pb, m) = {}"
    and "pte_p (load_pte m (entry_addr table i)) = 0"
  shows "next_table table i (pb, m) =
    (0, pb, store_pte (memset m 0 0 4096) (entry_addr table i) ((pte_decode 0)\<lparr>pte_p := 1, pte_rw := 1\<rparr>))"
  using assms by (simp add: next_table_def req_page_none Let_def pte_decode_def field_at_def del: req_page.simps)

theorem next_table_exhausted_witness:
  "fst (next_table 8192 3 (ex_pb\<lparr>pb_bitmap := \<lparr>bm_buffer = 4096, bm_size = 0\<rparr>\<rparr>, ex_mem)) = 0"
proof -
  have "clear_pages (ex_pb\<lparr>pb_bitmap := \<lparr>bm_buffer = 4096, bm_size = 0\<rparr>\<rparr>, ex_mem) = {}"
    by (simp add: clear_pages_def bits_of_def)
  moreover have "pte_p (load_pte ex_mem (entry_addr 8192 3)) = 0"
    by (simp add: load_pte_def ex_entry pte_decode_def field_at_def)
  ultimately show ?thesis
    by (subst next_table_exhausted) (simp_all add: pager_ok_def)
qed

text \<open>The 64-bit layout of a page-table entry is exact: packing the fields and reading them
  back is the identity, and so is unpacking any word and packing it again.\<close>

lemma pte_round_trip: "pte_decode (pte_encode e) = e \<and> pte_encode (pte_decode w) = w"
  by (simp add: pte_decode_encode pte_encode_decode)

end
