(* ===== verification/Alloc_Props.thy ===== *)
theory Alloc_Props
  imports Page_Props
begin

text \<open>
  The properties of the bitmap and of the page allocator over it: which page \<open>req_page\<close> hands
  out, what a run of pages does to the bits, what no sequence of calls changes, and what
  happens past the end of the bitmap.
\<close>

section \<open>Helpers\<close>

lemma fold_call_total: "pb_total (fst (fold apply_call cs s)) = pb_total (fst s)"
  by (induction cs arbitrary: s) (simp_all add: apply_call_total)

lemma fold_call_bitmap: "pb_bitmap (fst (fold apply_call cs s)) = pb_bitmap (fst s)"
  by (induction cs arbitrary: s) (simp_all add: apply_call_bitmap)

lemma fold_call_frame:
  "b \<notin> bitmap_bytes (pb_bitmap (fst s)) \<Longrightarrow> snd (fold apply_call cs s) b = snd s b"
  by (induction cs arbitrary: s) (simp_all add: apply_call_frame apply_call_bitmap)

lemma call_covered_cong: "pb_bitmap (fst s) = pb_bitmap (fst t) \<Longrightarrow> call_covered s c = call_covered t c"
  by (cases c) (simp_all add: covered_def)

lemma pager_ok_call: "pager_ok (apply_call c s) = pager_ok s"
  by (simp add: pager_ok_def apply_call_bitmap)

lemma fold_call_slack:
  "pager_ok s \<Longrightarrow> list_all (call_covered s) cs \<Longrightarrow> slack (fold apply_call cs s) = slack s"
proof (induction cs arbitrary: s)
  case Nil
  then show ?case by simp
next
  case (Cons c cs)
  have "call_covered (apply_call c s) = call_covered s"
    by (rule ext, rule call_covered_cong) (simp add: apply_call_bitmap)
  with Cons.prems have "slack (fold apply_call cs (apply_call c s)) = slack (apply_call c s)"
    by (intro Cons.IH) (simp_all add: pager_ok_call)
  with Cons.prems show ?case by (simp add: apply_call_slack)
qed

lemma set_bitmap_undo:
  "\<not> bitmap_bit m bm i \<Longrightarrow> snd (set_bitmap (snd (set_bitmap m bm i 1)) bm i 0) = m"
  by (rule ext, rule bit_word_eqI)
     (auto simp: set_bitmap_def Let_def bitmap_bit_def bit_or_iff bit_and_iff bit_not_iff bit_bit_mask
       unat_mod_8)

lemma two_pages: "(\<forall>i\<in>{0..<unat (2 :: u64)}. P i) \<longleftrightarrow> P 0 \<and> P (1 :: nat)"
proof -
  have "{0..<unat (2 :: u64)} = {0, 1}" by auto
  then show ?thesis by simp
qed

section \<open>Properties\<close>

text \<open>C20: \<open>req_page\<close> hands out the lowest page whose bit is clear, marks it used and moves its
  4096 bytes from the free to the used counter; with no such page it returns address 0 and
  changes nothing.\<close>

theorem req_page_first:
  assumes "pager_ok s" and "req_page s = (a, s')"
  shows "if clear_pages s = {} then a = 0 \<and> s' = s
    else unat a = Min (clear_pages s) * 4096 \<and>
      clear_pages s' = clear_pages s - {Min (clear_pages s)} \<and>
      pb_free (fst s') = pb_free (fst s) - 4096 \<and> pb_used (fst s') = pb_used (fst s) + 4096"
proof (cases "clear_pages s = {}")
  case True
  with assms show ?thesis by (simp add: req_page_none)
next
  case False
  note R = req_page_success [OF assms(1) False assms(2)]
  obtain pb m where s: "s = (pb, m)" by (cases s)
  have i: "Min (clear_pages s) < 2 ^ 40" "Min (clear_pages s) \<in> clear_pages s"
    by (rule Min_clear [OF assms(1) False])+
  then have "a div 4096 = of_nat (Min (clear_pages s))"
    using R(1) by (simp add: word_unat_eq_iff unat_div)
  with i have "get_bitmap m (pb_bitmap pb) (a div 4096) = 0"
    using clear_pages_get [of "Min (clear_pages s)" pb m] by (simp add: s clear_pages_iff)
  then have "pb_free (fst s') = pb_free (fst s) - 4096 \<and> pb_used (fst s') = pb_used (fst s) + 4096"
    by (simp add: R(3) s)
  with False R(1,2) show ?thesis by simp
qed

theorem req_page_first_witness:
  "\<exists>s'. req_page (ex_pb, ex_mem) = (12288, s') \<and> clear_pages s' = {4..<8}"
proof -
  obtain a s' where r: "req_page (ex_pb, ex_mem) = (a, s')" by (metis surj_pair)
  have "Min {3..<8::nat} = 3" "{3..<8::nat} - {3} = {4..<8}" by (auto intro: Min_eqI)
  with req_page_first [OF ex_pager_ok r] have "unat a = 12288" "clear_pages s' = {4..<8}"
    by (simp_all add: ex_clear)
  with r show ?thesis by (simp add: word_unat_eq_iff del: req_page.simps)
qed


text \<open>C13: As long as the calls name pages the bitmap covers, the free counter follows the number
  of clear bits: what the two differ by, in bytes, stays the same over any sequence of calls.\<close>

theorem calls_keep_free:
  assumes "pager_ok s" and "list_all (call_covered s) cs"
  shows "pb_free (fst (fold apply_call cs s)) - of_nat (card (clear_pages (fold apply_call cs s))) * 4096
    = pb_free (fst s) - of_nat (card (clear_pages s)) * 4096"
  using fold_call_slack [OF assms] by (simp add: slack_def)

theorem calls_keep_free_witness:
  "pb_free (fst (fold apply_call [Req_page, Lock_pages 16384 2, Free_pages 12288 1] (ex_pb, ex_mem)))
    = of_nat (card (clear_pages
        (fold apply_call [Req_page, Lock_pages 16384 2, Free_pages 12288 1] (ex_pb, ex_mem)))) * 4096"
proof -
  have "list_all (call_covered (ex_pb, ex_mem)) [Req_page, Lock_pages 16384 2, Free_pages 12288 1]"
    by (simp only: list.pred_inject call_covered.simps two_pages) (simp add: covered_def ex_bits)
  from calls_keep_free [OF ex_pager_ok this]
  show ?thesis by (simp add: ex_clear) (simp add: ex_pb_def)
qed

text \<open>A run of pages has its bits cleared by \<open>free_pages\<close> and \<open>unreserve_pages\<close> and set by
  \<open>lock_pages\<close> and \<open>reserve_pages\<close>; every other bit keeps its value, and so does every bit past
  the index the guard of \<open>set_bitmap\<close> lets through.\<close>

lemma pages_bits:
  "page_bit (free_pages a n s) j = (if page_range a (unat n) j \<and> page_guard s j then False else page_bit s j) \<and>
   page_bit (unreserve_pages a n s) j = (if page_range a (unat n) j \<and> page_guard s j then False else page_bit s j) \<and>
   page_bit (lock_pages a n s) j = (if page_range a (unat n) j \<and> page_guard s j then True else page_bit s j) \<and>
   page_bit (reserve_pages a n s) j = (if page_range a (unat n) j \<and> page_guard s j then True else page_bit s j)"
  unfolding pages_defs by (intro conjI fp.loop_bit up.loop_bit lp.loop_bit rp.loop_bit)

text \<open>Locking or reserving a second time a run of pages that the guard lets through changes
  nothing, counters included; the same for freeing and unreserving.\<close>

lemma pages_idem:
  assumes "\<forall>j. page_range a (unat n) j \<longrightarrow> page_guard s j"
  shows "lock_pages a n (lock_pages a n s) = lock_pages a n s \<and>
    reserve_pages a n (lock_pages a n s) = lock_pages a n s \<and>
    reserve_pages a n (reserve_pages a n s) = reserve_pages a n s \<and>
    lock_pages a n (reserve_pages a n s) = reserve_pages a n s \<and>
    free_pages a n (free_pages a n s) = free_pages a n s \<and>
    unreserve_pages a n (free_pages a n s) = free_pages a n s"
proof (intro conjI)
  note hit = fp.loop_hit lp.loop_hit up.loop_hit rp.loop_hit
  note inv = fp.loop_guard lp.loop_guard up.loop_guard rp.loop_guard
    fp.loop_bit lp.loop_bit up.loop_bit rp.loop_bit
  show "lock_pages a n (lock_pages a n s) = lock_pages a n s"
    "reserve_pages a n (lock_pages a n s) = lock_pages a n s"
    "reserve_pages a n (reserve_pages a n s) = reserve_pages a n s"
    "lock_pages a n (reserve_pages a n s) = reserve_pages a n s"
    "free_pages a n (free_pages a n s) = free_pages a n s"
    "unreserve_pages a n (free_pages a n s) = free_pages a n s"
    unfolding pages_defs by (rule hit, use assms in \<open>simp add: inv\<close>)+
qed

text \<open>Freeing a page that was just locked, and unreserving a page that was just reserved,
  restores the allocator and its memory, when the page was clear and in range.\<close>

lemma page_undo:
  assumes "page_guard s (a div 4096)" and "\<not> page_bit s (a div 4096)"
  shows "free_page a (lock_page a s) = s \<and> unreserve_page a (reserve_page a s) = s"
proof -
  obtain pb m where s: "s = (pb, m)" by (cases s)
  let ?i = "a div 4096"
  from assms have b: "\<not> bitmap_bit m (pb_bitmap pb) ?i" and g: "?i \<le> bm_size (pb_bitmap pb) * 8"
    by (simp_all add: s page_bit_def page_guard_def)
  from b have "get_bitmap m (pb_bitmap pb) ?i = 0" by (simp add: get_bitmap_0_iff)
  moreover have "get_bitmap (snd (set_bitmap m (pb_bitmap pb) ?i 1)) (pb_bitmap pb) ?i \<noteq> 0"
    using g by (simp add: get_bitmap_iff bitmap_bit_set)
  ultimately show ?thesis by (simp add: s set_bitmap_undo [OF b])
qed

text \<open>For a page past the bitmap nothing is marked, but the counters move each time:
  \<open>lock_page\<close> and \<open>reserve_page\<close> take 4096 bytes from the free counter on every call.\<close>

lemma lock_page_past_end:
  assumes "\<not> page_guard (pb, m) (a div 4096)"
  shows "lock_page a (pb, m) = (pb\<lparr>pb_free := pb_free pb - 4096, pb_used := pb_used pb + 4096\<rparr>, m) \<and>
    reserve_page a (pb, m) = (pb\<lparr>pb_free := pb_free pb - 4096, pb_reserved := pb_reserved pb + 4096\<rparr>, m) \<and>
    free_page a (pb, m) = (pb, m) \<and> unreserve_page a (pb, m) = (pb, m)"
  using assms by (simp add: page_guard_def get_bitmap_def set_bitmap_def not_le)

text \<open>\<open>set_bitmap\<close> reports and does what its guard says: for an index up to \<open>size * 8\<close> it
  sets or clears that bit, keeps every other bit and every other byte, and returns true;
  past it, it returns false and changes nothing. Since the guard admits \<open>size * 8\<close> itself,
  the byte it may change includes the one after the buffer.\<close>

lemma set_bitmap_effect:
  assumes "set_bitmap m bm i v = (r, m')"
  shows "if i \<le> bm_size bm * 8
    then r = 1 \<and> get_bitmap m' bm i = of_bool (v \<noteq> 0) \<and>
      (\<forall>j. j \<noteq> i \<longrightarrow> get_bitmap m' bm j = get_bitmap m bm j) \<and>
      (\<forall>b. b \<noteq> bm_buffer bm + i div 8 \<longrightarrow> m' b = m b)
    else r = 0 \<and> m' = m"
proof -
  have r: "r = fst (set_bitmap m bm i v)" and m': "m' = snd (set_bitmap m bm i v)"
    using assms by simp_all
  have g: "get_bitmap m' bm j = of_bool (j \<le> bm_size bm * 8 \<and> bitmap_bit m' bm j)" for j
    using get_bitmap_iff [of m' bm j] get_bitmap_01 [of m' bm j] by auto
  have same: "j \<noteq> i \<Longrightarrow> bitmap_bit m' bm j = bitmap_bit m bm j" for j
    by (simp add: m' bitmap_bit_set)
  have g0: "get_bitmap m bm j = of_bool (j \<le> bm_size bm * 8 \<and> bitmap_bit m bm j)" for j
    using get_bitmap_iff [of m bm j] get_bitmap_01 [of m bm j] by auto
  show ?thesis
  proof (cases "i \<le> bm_size bm * 8")
    case True
    then have "bitmap_bit m' bm i = (v \<noteq> 0)" by (simp add: m' bitmap_bit_set)
    with True show ?thesis
      by (simp add: r set_bitmap_status g g0 same) (simp add: m' set_bitmap_frame)
  next
    case False
    then show ?thesis by (auto simp: r m' set_bitmap_def simp flip: not_less)
  qed
qed

lemma set_bitmap_effect_witness:
  "snd (set_bitmap (\<lambda>_. 0) \<lparr>bm_buffer = 64, bm_size = 2\<rparr> 16 1) 66 = 1 \<and>
   get_bitmap (snd (set_bitmap (\<lambda>_. 0) \<lparr>bm_buffer = 64, bm_size = 2\<rparr> 16 1)) \<lparr>bm_buffer = 64, bm_size = 2\<rparr> 16 = 1"
proof -
  obtain r m' where s: "set_bitmap (\<lambda>_. 0) \<lparr>bm_buffer = 64, bm_size = 2\<rparr> 16 1 = (r, m')"
    by (metis surj_pair)
  have "m' 66 = 1" using s by (auto simp: set_bitmap_def bit_mask_def Let_def)
  with set_bitmap_effect [OF s] s show ?thesis by simp
qed

end
