(* ===== verification/Ctype.thy ===== *)
theory Ctype
  imports Prelude
begin

text \<open>
  \<open>sys/ctype.c\<close> and the two macros of \<open>sys/ctype.h\<close>. A C \<open>int\<close> argument is an \<open>int\<close>; a
  condition returned as an \<open>int\<close> is 1 or 0.
\<close>

definition isalnum :: "int \<Rightarrow> int" where
  "isalnum c = of_bool ((48 \<le> c \<and> c \<le> 57) \<or> (65 \<le> c \<and> c \<le> 90) \<or> (97 \<le> c \<and> c \<le> 122))"

definition isalpha :: "int \<Rightarrow> int" where
  "isalpha c = of_bool ((65 \<le> c \<and> c \<le> 90) \<or> (97 \<le> c \<and> c \<le> 122))"

definition isascii :: "int \<Rightarrow> int" where
  "isascii c = of_bool (0 \<le> c \<and> c \<le> 127)"

definition isblank :: "int \<Rightarrow> int" where
  "isblank c = of_bool (c = 9 \<or> c = 32)"

definition iscntrl :: "int \<Rightarrow> int" where
  "iscntrl c = of_bool ((0 \<le> c \<and> c \<le> 31) \<or> c = 127)"

definition isdigit :: "int \<Rightarrow> int" where
  "isdigit c = of_bool (48 \<le> c \<and> c \<le> 57)"

definition isgraph :: "int \<Rightarrow> int" where
  "isgraph c = of_bool (33 \<le> c \<and> c \<le> 126)"

definition islower :: "int \<Rightarrow> int" where
  "islower c = of_bool (97 \<le> c \<and> c \<le> 122)"

definition isprint :: "int \<Rightarrow> int" where
  "isprint c = of_bool (32 \<le> c \<and> c \<le> 126)"

definition ispunct :: "int \<Rightarrow> int" where
  "ispunct c = of_bool ((33 \<le> c \<and> c \<le> 47) \<or> (58 \<le> c \<and> c \<le> 64) \<or>
     (91 \<le> c \<and> c \<le> 96) \<or> (123 \<le> c \<and> c \<le> 126))"

definition isspace :: "int \<Rightarrow> int" where
  "isspace c = of_bool (c = 9 \<or> c = 10 \<or> c = 11 \<or> c = 12 \<or> c = 13 \<or> c = 32)"

definition isupper :: "int \<Rightarrow> int" where
  "isupper c = of_bool (65 \<le> c \<and> c \<le> 90)"

definition isxdigit :: "int \<Rightarrow> int" where
  "isxdigit c = of_bool ((48 \<le> c \<and> c \<le> 57) \<or> (65 \<le> c \<and> c \<le> 70) \<or> (97 \<le> c \<and> c \<le> 102))"

definition toascii :: "int \<Rightarrow> int" where
  "toascii c = c AND 127"

definition toupper_macro :: "int \<Rightarrow> int" where
  "toupper_macro c = c - 32"

definition tolower_macro :: "int \<Rightarrow> int" where
  "tolower_macro c = c + 32"

definition toupper :: "int \<Rightarrow> int" where
  "toupper c = (if islower c \<noteq> 0 then toupper_macro c else 0)"

definition tolower :: "int \<Rightarrow> int" where
  "tolower c = (if isupper c \<noteq> 0 then tolower_macro c else 0)"

lemmas ctype_defs = isalnum_def isalpha_def isascii_def isblank_def iscntrl_def isdigit_def
  isgraph_def islower_def isprint_def ispunct_def isspace_def isupper_def isxdigit_def
  toupper_def tolower_def toupper_macro_def tolower_macro_def

lemma toascii_range: "0 \<le> toascii c \<and> toascii c \<le> 127"
  by (simp add: toascii_def)

lemma isalnum_split: "isalnum c = isalpha c + isdigit c"
  by (auto simp: ctype_defs)

lemma isgraph_split: "isgraph c = isalnum c + ispunct c"
  by (auto simp: ctype_defs of_bool_def)

lemma isprint_split: "isprint c = isgraph c + of_bool (c = 32)"
  by (auto simp: ctype_defs of_bool_def)

lemma isascii_split: "isascii c = iscntrl c + isprint c"
  by (auto simp: ctype_defs of_bool_def)

text \<open>The two case conversions undo each other on letters and give 0 on everything else.\<close>

lemma tolower_toupper: "islower c = 1 \<Longrightarrow> tolower (toupper c) = c"
  by (auto simp: ctype_defs of_bool_def split: if_splits)

lemma toupper_not_lower: "islower c = 0 \<Longrightarrow> toupper c = 0"
  by (simp add: toupper_def)

text \<open>The classes partition the characters: ASCII is control and printing characters, printing
  is the space and the graphic ones, graphic is alphanumeric and punctuation, and alphanumeric
  is letters of either case and digits. \<open>tolower\<close> undoes \<open>toupper\<close> on lower-case letters, and
  both give 0 on a character they do not convert.\<close>

lemma ctype_classes:
  "isascii c = iscntrl c + isprint c \<and> isprint c = isgraph c + of_bool (c = 32) \<and>
   isgraph c = isalnum c + ispunct c \<and> isalnum c = isalpha c + isdigit c \<and>
   isalpha c = isupper c + islower c \<and>
   tolower (toupper c) = (if islower c = 1 then c else 0) \<and>
   toupper (tolower c) = (if isupper c = 1 then c else 0) \<and>
   toupper c = (if islower c = 1 then c - 32 else 0) \<and> tolower c = (if isupper c = 1 then c + 32 else 0)"
proof (intro conjI)
  show "isalpha c = isupper c + islower c" by (auto simp: ctype_defs of_bool_def)
  show "tolower (toupper c) = (if islower c = 1 then c else 0)"
    "toupper (tolower c) = (if isupper c = 1 then c else 0)"
    by (auto simp: ctype_defs of_bool_def)
  show "toupper c = (if islower c = 1 then c - 32 else 0)" "tolower c = (if isupper c = 1 then c + 32 else 0)"
    by (auto simp: ctype_defs of_bool_def)
qed (rule isascii_split isprint_split isgraph_split isalnum_split)+

end
