(* ===== verification/Font.thy ===== *)
theory Font
  imports Ctype
begin

text \<open>
  \<open>boot/kernel/font.c\<close>: the glyphs \<open>ascii32\<close> to \<open>ascii126\<close>, one definition per static array, a row
  of 8 pixels per byte, and \<open>char_to_bitmap\<close>, whose switch is the list \<open>glyphs\<close> in the order
  of its cases. A glyph is returned by its contents; \<open>None\<close> is the \<open>NULL\<close> of the default.
\<close>

section \<open>Glyphs\<close>

type_synonym charbitmap = "u8 list"

abbreviation FONT_WIDTH :: u32 where "FONT_WIDTH \<equiv> 8"
abbreviation FONT_HEIGHT :: u32 where "FONT_HEIGHT \<equiv> 18"

definition ascii32 :: charbitmap where
  "ascii32 =
    [0b00000000, 0b00000000, 0b00000000, 0b00000000, 0b00000000, 0b00000000,
     0b00000000, 0b00000000, 0b00000000, 0b00000000, 0b00000000, 0b00000000,
     0b00000000, 0b00000000, 0b00000000, 0b00000000, 0b00000000, 0b00000000]"

definition ascii33 :: charbitmap where
  "ascii33 =
    [0b00000000, 0b00000000, 0b00000000, 0b00000000, 0b00001000, 0b00001000,
     0b00001000, 0b00001000, 0b00001000, 0b00001000, 0b00001000, 0b00000000,
     0b00001000, 0b00001000, 0b00000000, 0b00000000, 0b00000000, 0b00000000]"

definition ascii34 :: charbitmap where
  "ascii34 =
    [0b00000000, 0b00000000, 0b00100100, 0b00100100, 0b00100100, 0b00100100,
     0b00000000, 0b00000000, 0b00000000, 0b00000000, 0b00000000, 0b00000000,
     0b00000000, 0b00000000, 0b00000000, 0b00000000, 0b00000000, 0b00000000]"

definition ascii35 :: charbitmap where
  "ascii35 =
    [0b00000000, 0b00000000, 0b00000000, 0b00000000, 0b00100100, 0b00100100,
     0b00100100, 0b01111110, 0b00100100, 0b00100100, 0b01111110, 0b00100100,
     0b00100100, 0b00100100, 0b00000000, 0b00000000, 0b00000000, 0b00000000]"

definition ascii36 :: charbitmap where
  "ascii36 =
    [0b00000000, 0b00000000, 0b00001000, 0b00001000, 0b00011100, 0b00101010,
     0b00101000, 0b00101000, 0b00011100, 0b00001010, 0b00001010, 0b00001010,
     0b00101010, 0b00011100, 0b00001000, 0b00001000, 0b00000000, 0b00000000]"

definition ascii37 :: charbitmap where
  "ascii37 =
    [0b00000000, 0b00000000, 0b00000000, 0b00000000, 0b00100010, 0b01010100,
     0b00100100, 0b00001000, 0b00001000, 0b00010000, 0b00010000, 0b00100100,
     0b00101010, 0b01000100, 0b00000000, 0b00000000, 0b00000000, 0b00000000]"

definition ascii38 :: charbitmap where
  "ascii38 =
    [0b00000000, 0b00000000, 0b00000000, 0b00000000, 0b00011000, 0b00100100,
     0b00100100, 0b00100100, 0b00011000, 0b00110000, 0b01001000, 0b01001010,
     0b01000100, 0b00111010, 0b00000000, 0b00000000, 0b00000000, 0b00000000]"

definition ascii39 :: charbitmap where
  "ascii39 =
    [0b00000000, 0b00000000, 0b00001000, 0b00001000, 0b00001000, 0b00001000,
     0b00000000, 0b00000000, 0b00000000, 0b00000000, 0b00000000, 0b00000000,
     0b00000000, 0b00000000, 0b00000000, 0b00000000, 0b00000000, 0b00000000]"

definition ascii40 :: charbitmap where
  "ascii40 =
    [0b00000000, 0b00000000, 0b00000000, 0b00000000, 0b00001000, 0b00010000,
     0b00010000, 0b00100000, 0b00100000, 0b00100000, 0b00100000, 0b00010000,
     0b00010000, 0b00001000, 0b00000000, 0b00000000, 0b00000000, 0b00000000]"

definition ascii41 :: charbitmap where
  "ascii41 =
    [0b00000000, 0b00000000, 0b00000000, 0b00000000, 0b00010000, 0b00001000,
     0b00001000, 0b00000100, 0b00000100, 0b00000100, 0b00000100, 0b00001000,
     0b00001000, 0b00010000, 0b00000000, 0b00000000, 0b00000000, 0b00000000]"

definition ascii42 :: charbitmap where
  "ascii42 =
    [0b00000000, 0b00000000, 0b00000000, 0b00000000, 0b00000000, 0b00000000,
     0b00000000, 0b00000000, 0b00001000, 0b00101010, 0b00011100, 0b00101010,
     0b00001000, 0b00000000, 0b00000000, 0b00000000, 0b00000000, 0b00000000]"

definition ascii43 :: charbitmap where
  "ascii43 =
    [0b00000000, 0b00000000, 0b00000000, 0b00000000, 0b00000000, 0b00000000,
     0b00000000, 0b00000000, 0b00001000, 0b00001000, 0b00111110, 0b00001000,
     0b00001000, 0b00000000, 0b00000000, 0b00000000, 0b00000000, 0b00000000]"

definition ascii44 :: charbitmap where
  "ascii44 =
    [0b00000000, 0b00000000, 0b00000000, 0b00000000, 0b00000000, 0b00000000,
     0b00000000, 0b00000000, 0b00000000, 0b00000000, 0b00000000, 0b00000000,
     0b00001000, 0b00001000, 0b00001000, 0b00010000, 0b00000000, 0b00000000]"

definition ascii45 :: charbitmap where
  "ascii45 =
    [0b00000000, 0b00000000, 0b00000000, 0b00000000, 0b00000000, 0b00000000,
     0b00000000, 0b00000000, 0b00000000, 0b00000000, 0b01111110, 0b00000000,
     0b00000000, 0b00000000, 0b00000000, 0b00000000, 0b00000000, 0b00000000]"

definition ascii46 :: charbitmap where
  "ascii46 =
    [0b00000000, 0b00000000, 0b00000000, 0b00000000, 0b00000000, 0b00000000,
     0b00000000, 0b00000000, 0b00000000, 0b00000000, 0b00000000, 0b00000000,
     0b00001000, 0b00001000, 0b00000000, 0b00000000, 0b00000000, 0b00000000]"

definition ascii47 :: charbitmap where
  "ascii47 =
    [0b00000000, 0b00000000, 0b00000000, 0b00000000, 0b00000010, 0b00000100,
     0b00000100, 0b00001000, 0b00001000, 0b00010000, 0b00010000, 0b00100000,
     0b00100000, 0b01000000, 0b00000000, 0b00000000, 0b00000000, 0b00000000]"

definition ascii48 :: charbitmap where
  "ascii48 =
    [0b00000000, 0b00000000, 0b00000000, 0b00000000, 0b00111100, 0b01000010,
     0b01000010, 0b01000110, 0b01001010, 0b01010010, 0b01100010, 0b01000010,
     0b01000010, 0b00111100, 0b00000000, 0b00000000, 0b00000000, 0b00000000]"

definition ascii49 :: charbitmap where
  "ascii49 =
    [0b00000000, 0b00000000, 0b00000000, 0b00000000, 0b00001000, 0b00011000,
     0b00101000, 0b00001000, 0b00001000, 0b00001000, 0b00001000, 0b00001000,
     0b00001000, 0b00111110, 0b00000000, 0b00000000, 0b00000000, 0b00000000]"

definition ascii50 :: charbitmap where
  "ascii50 =
    [0b00000000, 0b00000000, 0b00000000, 0b00000000, 0b00111100, 0b01000010,
     0b00000010, 0b00000010, 0b00000100, 0b00001000, 0b00010000, 0b00100000,
     0b01000000, 0b01111110, 0b00000000, 0b00000000, 0b00000000, 0b00000000]"

definition ascii51 :: charbitmap where
  "ascii51 =
    [0b00000000, 0b00000000, 0b00000000, 0b00000000, 0b00111100, 0b01000010,
     0b00000010, 0b00000010, 0b00111100, 0b00000010, 0b00000010, 0b00000010,
     0b01000010, 0b00111100, 0b00000000, 0b00000000, 0b00000000, 0b00000000]"

definition ascii52 :: charbitmap where
  "ascii52 =
    [0b00000000, 0b00000000, 0b00000000, 0b00000000, 0b00000100, 0b00001100,
     0b00010100, 0b00100100, 0b01000100, 0b01111110, 0b00000100, 0b00000100,
     0b00000100, 0b00000100, 0b00000000, 0b00000000, 0b00000000, 0b00000000]"

definition ascii53 :: charbitmap where
  "ascii53 =
    [0b00000000, 0b00000000, 0b00000000, 0b00000000, 0b01111110, 0b01000000,
     0b01000000, 0b01000000, 0b01111100, 0b00000010, 0b00000010, 0b00000010,
     0b01000010, 0b00111100, 0b00000000, 0b00000000, 0b00000000, 0b00000000]"

definition ascii54 :: charbitmap where
  "ascii54 =
    [0b00000000, 0b00000000, 0b00000000, 0b00000000, 0b00111100, 0b01000010,
     0b01000000, 0b01000000, 0b01111100, 0b01000010, 0b01000010, 0b01000010,
     0b01000010, 0b00111100, 0b00000000, 0b00000000, 0b00000000, 0b00000000]"

definition ascii55 :: charbitmap where
  "ascii55 =
    [0b00000000, 0b00000000, 0b00000000, 0b00000000, 0b01111110, 0b00000010,
     0b00000100, 0b00000100, 0b00001000, 0b00001000, 0b00001000, 0b00010000,
     0b00010000, 0b00010000, 0b00000000, 0b00000000, 0b00000000, 0b00000000]"

definition ascii56 :: charbitmap where
  "ascii56 =
    [0b00000000, 0b00000000, 0b00000000, 0b00000000, 0b00111100, 0b01000010,
     0b01000010, 0b01000010, 0b00111100, 0b01000010, 0b01000010, 0b01000010,
     0b01000010, 0b00111100, 0b00000000, 0b00000000, 0b00000000, 0b00000000]"

definition ascii57 :: charbitmap where
  "ascii57 =
    [0b00000000, 0b00000000, 0b00000000, 0b00000000, 0b00111100, 0b01000010,
     0b01000010, 0b01000010, 0b00111110, 0b00000010, 0b00000010, 0b00000010,
     0b01000010, 0b00111100, 0b00000000, 0b00000000, 0b00000000, 0b00000000]"

definition ascii58 :: charbitmap where
  "ascii58 =
    [0b00000000, 0b00000000, 0b00000000, 0b00000000, 0b00000000, 0b00000000,
     0b00001000, 0b00001000, 0b00000000, 0b00000000, 0b00001000, 0b00001000,
     0b00000000, 0b00000000, 0b00000000, 0b00000000, 0b00000000, 0b00000000]"

definition ascii59 :: charbitmap where
  "ascii59 =
    [0b00000000, 0b00000000, 0b00000000, 0b00000000, 0b00000000, 0b00000000,
     0b00001000, 0b00001000, 0b00000000, 0b00000000, 0b00001000, 0b00001000,
     0b00001000, 0b00010000, 0b00000000, 0b00000000, 0b00000000, 0b00000000]"

definition ascii60 :: charbitmap where
  "ascii60 =
    [0b00000000, 0b00000000, 0b00000000, 0b00000000, 0b00000000, 0b00000000,
     0b00000000, 0b00000000, 0b00000110, 0b00011000, 0b01100000, 0b00011000,
     0b00000110, 0b00000000, 0b00000000, 0b00000000, 0b00000000, 0b00000000]"

definition ascii61 :: charbitmap where
  "ascii61 =
    [0b00000000, 0b00000000, 0b00000000, 0b00000000, 0b00000000, 0b00000000,
     0b00000000, 0b00000000, 0b01111110, 0b00000000, 0b00000000, 0b00000000,
     0b01111110, 0b00000000, 0b00000000, 0b00000000, 0b00000000, 0b00000000]"

definition ascii62 :: charbitmap where
  "ascii62 =
    [0b00000000, 0b00000000, 0b00000000, 0b00000000, 0b00000000, 0b00000000,
     0b00000000, 0b00000000, 0b01100000, 0b00011000, 0b00000110, 0b00011000,
     0b01100000, 0b00000000, 0b00000000, 0b00000000, 0b00000000, 0b00000000]"

definition ascii63 :: charbitmap where
  "ascii63 =
    [0b00000000, 0b00000000, 0b00000000, 0b00000000, 0b00111100, 0b01000010,
     0b00000010, 0b00000010, 0b00000100, 0b00001000, 0b00001000, 0b00000000,
     0b00001000, 0b00001000, 0b00000000, 0b00000000, 0b00000000, 0b00000000]"

definition ascii64 :: charbitmap where
  "ascii64 =
    [0b00000000, 0b00000000, 0b00000000, 0b00000000, 0b00011100, 0b00100010,
     0b01000010, 0b01001110, 0b01010010, 0b01010010, 0b01010010, 0b01001110,
     0b00100000, 0b00011110, 0b00000000, 0b00000000, 0b00000000, 0b00000000]"

definition ascii65 :: charbitmap where
  "ascii65 =
    [0b00000000, 0b00000000, 0b00000000, 0b00000000, 0b00011000, 0b00011000,
     0b00100100, 0b00100100, 0b00100100, 0b01000010, 0b01111110, 0b01000010,
     0b01000010, 0b01000010, 0b00000000, 0b00000000, 0b00000000, 0b00000000]"

definition ascii66 :: charbitmap where
  "ascii66 =
    [0b00000000, 0b00000000, 0b00000000, 0b00000000, 0b01111100, 0b01000010,
     0b01000010, 0b01000010, 0b01111100, 0b01000010, 0b01000010, 0b01000010,
     0b01000010, 0b01111100, 0b00000000, 0b00000000, 0b00000000, 0b00000000]"

definition ascii67 :: charbitmap where
  "ascii67 =
    [0b00000000, 0b00000000, 0b00000000, 0b00000000, 0b00111100, 0b01000010,
     0b01000000, 0b01000000, 0b01000000, 0b01000000, 0b01000000, 0b01000000,
     0b01000010, 0b00111100, 0b00000000, 0b00000000, 0b00000000, 0b00000000]"

definition ascii68 :: charbitmap where
  "ascii68 =
    [0b00000000, 0b00000000, 0b00000000, 0b00000000, 0b01111100, 0b01000010,
     0b01000010, 0b01000010, 0b01000010, 0b01000010, 0b01000010, 0b01000010,
     0b01000010, 0b01111100, 0b00000000, 0b00000000, 0b00000000, 0b00000000]"

definition ascii69 :: charbitmap where
  "ascii69 =
    [0b00000000, 0b00000000, 0b00000000, 0b00000000, 0b01111110, 0b01000000,
     0b01000000, 0b01000000, 0b01111110, 0b01000000, 0b01000000, 0b01000000,
     0b01000000, 0b01111110, 0b00000000, 0b00000000, 0b00000000, 0b00000000]"

definition ascii70 :: charbitmap where
  "ascii70 =
    [0b00000000, 0b00000000, 0b00000000, 0b00000000, 0b01111110, 0b01000000,
     0b01000000, 0b01000000, 0b01111110, 0b01000000, 0b01000000, 0b01000000,
     0b01000000, 0b01000000, 0b00000000, 0b00000000, 0b00000000, 0b00000000]"

definition ascii71 :: charbitmap where
  "ascii71 =
    [0b00000000, 0b00000000, 0b00000000, 0b00000000, 0b00111100, 0b01000010,
     0b01000000, 0b01000000, 0b01000000, 0b01001110, 0b01000010, 0b01000010,
     0b01000010, 0b00111100, 0b00000000, 0b00000000, 0b00000000, 0b00000000]"

definition ascii72 :: charbitmap where
  "ascii72 =
    [0b00000000, 0b00000000, 0b00000000, 0b00000000, 0b01000010, 0b01000010,
     0b01000010, 0b01000010, 0b01111110, 0b01000010, 0b01000010, 0b01000010,
     0b01000010, 0b01000010, 0b00000000, 0b00000000, 0b00000000, 0b00000000]"

definition ascii73 :: charbitmap where
  "ascii73 =
    [0b00000000, 0b00000000, 0b00000000, 0b00000000, 0b00111110, 0b00001000,
     0b00001000, 0b00001000, 0b00001000, 0b00001000, 0b00001000, 0b00001000,
     0b00001000, 0b00111110, 0b00000000, 0b00000000, 0b00000000, 0b00000000]"

definition ascii74 :: charbitmap where
  "ascii74 =
    [0b00000000, 0b00000000, 0b00000000, 0b00000000, 0b00111110, 0b00001000,
     0b00001000, 0b00001000, 0b00001000, 0b00001000, 0b00001000, 0b00001000,
     0b01001000, 0b00110000, 0b00000000, 0b00000000, 0b00000000, 0b00000000]"

definition ascii75 :: charbitmap where
  "ascii75 =
    [0b00000000, 0b00000000, 0b00000000, 0b00000000, 0b01000010, 0b01000100,
     0b01001000, 0b01010000, 0b01100000, 0b01100000, 0b01010000, 0b01001000,
     0b01000100, 0b01000010, 0b00000000, 0b00000000, 0b00000000, 0b00000000]"

definition ascii76 :: charbitmap where
  "ascii76 =
    [0b00000000, 0b00000000, 0b00000000, 0b00000000, 0b01000000, 0b01000000,
     0b01000000, 0b01000000, 0b01000000, 0b01000000, 0b01000000, 0b01000000,
     0b01000000, 0b01111110, 0b00000000, 0b00000000, 0b00000000, 0b00000000]"

definition ascii77 :: charbitmap where
  "ascii77 =
    [0b00000000, 0b00000000, 0b00000000, 0b00000000, 0b01000010, 0b01100110,
     0b01100110, 0b01011010, 0b01011010, 0b01000010, 0b01000010, 0b01000010,
     0b01000010, 0b01000010, 0b00000000, 0b00000000, 0b00000000, 0b00000000]"

definition ascii78 :: charbitmap where
  "ascii78 =
    [0b00000000, 0b00000000, 0b00000000, 0b00000000, 0b01000010, 0b01100010,
     0b01100010, 0b01010010, 0b01010010, 0b01001010, 0b01001010, 0b01000110,
     0b01000110, 0b01000010, 0b00000000, 0b00000000, 0b00000000, 0b00000000]"

definition ascii79 :: charbitmap where
  "ascii79 =
    [0b00000000, 0b00000000, 0b00000000, 0b00000000, 0b00111100, 0b01000010,
     0b01000010, 0b01000010, 0b01000010, 0b01000010, 0b01000010, 0b01000010,
     0b01000010, 0b00111100, 0b00000000, 0b00000000, 0b00000000, 0b00000000]"

definition ascii80 :: charbitmap where
  "ascii80 =
    [0b00000000, 0b00000000, 0b00000000, 0b00000000, 0b01111100, 0b01000010,
     0b01000010, 0b01000010, 0b01111100, 0b01000000, 0b01000000, 0b01000000,
     0b01000000, 0b01000000, 0b00000000, 0b00000000, 0b00000000, 0b00000000]"

definition ascii81 :: charbitmap where
  "ascii81 =
    [0b00000000, 0b00000000, 0b00000000, 0b00000000, 0b00111100, 0b01000010,
     0b01000010, 0b01000010, 0b01000010, 0b01000010, 0b01000010, 0b01000010,
     0b01000010, 0b00111100, 0b00001000, 0b00000110, 0b00000000, 0b00000000]"

definition ascii82 :: charbitmap where
  "ascii82 =
    [0b00000000, 0b00000000, 0b00000000, 0b00000000, 0b01111100, 0b01000010,
     0b01000010, 0b01000010, 0b01111100, 0b01001000, 0b01000100, 0b01000100,
     0b01000010, 0b01000010, 0b00000000, 0b00000000, 0b00000000, 0b00000000]"

definition ascii83 :: charbitmap where
  "ascii83 =
    [0b00000000, 0b00000000, 0b00000000, 0b00000000, 0b00111100, 0b01000010,
     0b01000000, 0b01000000, 0b00111100, 0b00000010, 0b00000010, 0b00000010,
     0b01000010, 0b00111100, 0b00000000, 0b00000000, 0b00000000, 0b00000000]"

definition ascii84 :: charbitmap where
  "ascii84 =
    [0b00000000, 0b00000000, 0b00000000, 0b00000000, 0b01111111, 0b00001000,
     0b00001000, 0b00001000, 0b00001000, 0b00001000, 0b00001000, 0b00001000,
     0b00001000, 0b00001000, 0b00000000, 0b00000000, 0b00000000, 0b00000000]"

definition ascii85 :: charbitmap where
  "ascii85 =
    [0b00000000, 0b00000000, 0b00000000, 0b00000000, 0b01000010, 0b01000010,
     0b01000010, 0b01000010, 0b01000010, 0b01000010, 0b01000010, 0b01000010,
     0b01000010, 0b00111100, 0b00000000, 0b00000000, 0b00000000, 0b00000000]"

definition ascii86 :: charbitmap where
  "ascii86 =
    [0b00000000, 0b00000000, 0b00000000, 0b00000000, 0b01000010, 0b01000010,
     0b01000010, 0b01000010, 0b01000010, 0b00100100, 0b00100100, 0b00100100,
     0b00011000, 0b00011000, 0b00000000, 0b00000000, 0b00000000, 0b00000000]"

definition ascii87 :: charbitmap where
  "ascii87 =
    [0b00000000, 0b00000000, 0b00000000, 0b00000000, 0b01000010, 0b01000010,
     0b01000010, 0b01000010, 0b01000010, 0b01011010, 0b01011010, 0b01100110,
     0b01100110, 0b01000010, 0b00000000, 0b00000000, 0b00000000, 0b00000000]"

definition ascii88 :: charbitmap where
  "ascii88 =
    [0b00000000, 0b00000000, 0b00000000, 0b00000000, 0b01000010, 0b01000010,
     0b00100100, 0b00100100, 0b00011000, 0b00011000, 0b00100100, 0b00100100,
     0b01000010, 0b01000010, 0b00000000, 0b00000000, 0b00000000, 0b00000000]"

definition ascii89 :: charbitmap where
  "ascii89 =
    [0b00000000, 0b00000000, 0b00000000, 0b00000000, 0b01000001, 0b01000001,
     0b00100010, 0b00100010, 0b00010100, 0b00001000, 0b00001000, 0b00001000,
     0b00001000, 0b00001000, 0b00000000, 0b00000000, 0b00000000, 0b00000000]"

definition ascii90 :: charbitmap where
  "ascii90 =
    [0b00000000, 0b00000000, 0b00000000, 0b00000000, 0b01111110, 0b00000010,
     0b00000010, 0b00000100, 0b00001000, 0b00010000, 0b00100000, 0b01000000,
     0b01000000, 0b01111110, 0b00000000, 0b00000000, 0b00000000, 0b00000000]"

definition ascii91 :: charbitmap where
  "ascii91 =
    [0b00000000, 0b00000000, 0b00000000, 0b00000000, 0b00111000, 0b00100000,
     0b00100000, 0b00100000, 0b00100000, 0b00100000, 0b00100000, 0b00100000,
     0b00100000, 0b00111000, 0b00000000, 0b00000000, 0b00000000, 0b00000000]"

definition ascii92 :: charbitmap where
  "ascii92 =
    [0b00000000, 0b00000000, 0b00000000, 0b00000000, 0b01000000, 0b00100000,
     0b00100000, 0b00010000, 0b00010000, 0b00001000, 0b00001000, 0b00000100,
     0b00000100, 0b00000010, 0b00000000, 0b00000000, 0b00000000, 0b00000000]"

definition ascii93 :: charbitmap where
  "ascii93 =
    [0b00000000, 0b00000000, 0b00000000, 0b00000000, 0b00011100, 0b00000100,
     0b00000100, 0b00000100, 0b00000100, 0b00000100, 0b00000100, 0b00000100,
     0b00000100, 0b00011100, 0b00000000, 0b00000000, 0b00000000, 0b00000000]"

definition ascii94 :: charbitmap where
  "ascii94 =
    [0b00000000, 0b00000000, 0b00000000, 0b00000000, 0b00011000, 0b00100100,
     0b01000010, 0b00000000, 0b00000000, 0b00000000, 0b00000000, 0b00000000,
     0b00000000, 0b00000000, 0b00000000, 0b00000000, 0b00000000, 0b00000000]"

definition ascii95 :: charbitmap where
  "ascii95 =
    [0b00000000, 0b00000000, 0b00000000, 0b00000000, 0b00000000, 0b00000000,
     0b00000000, 0b00000000, 0b00000000, 0b00000000, 0b00000000, 0b00000000,
     0b00000000, 0b00000000, 0b00000000, 0b01111110, 0b00000000, 0b00000000]"

definition ascii96 :: charbitmap where
  "ascii96 =
    [0b00000000, 0b00000000, 0b00100000, 0b00010000, 0b00001000, 0b00000000,
     0b00000000, 0b00000000, 0b00000000, 0b00000000, 0b00000000, 0b00000000,
     0b00000000, 0b00000000, 0b00000000, 0b00000000, 0b00000000, 0b00000000]"

definition ascii97 :: charbitmap where
  "ascii97 =
    [0b00000000, 0b00000000, 0b00000000, 0b00000000, 0b00000000, 0b00000000,
     0b00000000, 0b00111100, 0b01000010, 0b00000010, 0b00111110, 0b01000010,
     0b01000010, 0b00111110, 0b00000000, 0b00000000, 0b00000000, 0b00000000]"

definition ascii98 :: charbitmap where
  "ascii98 =
    [0b00000000, 0b00000000, 0b00000000, 0b00000000, 0b01000000, 0b01000000,
     0b01000000, 0b01111100, 0b01000010, 0b01000010, 0b01000010, 0b01000010,
     0b01000010, 0b01111100, 0b00000000, 0b00000000, 0b00000000, 0b00000000]"

definition ascii99 :: charbitmap where
  "ascii99 =
    [0b00000000, 0b00000000, 0b00000000, 0b00000000, 0b00000000, 0b00000000,
     0b00000000, 0b00111100, 0b01000010, 0b01000000, 0b01000000, 0b01000000,
     0b01000010, 0b00111100, 0b00000000, 0b00000000, 0b00000000, 0b00000000]"

definition ascii100 :: charbitmap where
  "ascii100 =
    [0b00000000, 0b00000000, 0b00000000, 0b00000000, 0b00000010, 0b00000010,
     0b00000010, 0b00111110, 0b01000010, 0b01000010, 0b01000010, 0b01000010,
     0b01000010, 0b00111110, 0b00000000, 0b00000000, 0b00000000, 0b00000000]"

definition ascii101 :: charbitmap where
  "ascii101 =
    [0b00000000, 0b00000000, 0b00000000, 0b00000000, 0b00000000, 0b00000000,
     0b00000000, 0b00111100, 0b01000010, 0b01000010, 0b01111110, 0b01000000,
     0b01000010, 0b00111100, 0b00000000, 0b00000000, 0b00000000, 0b00000000]"

definition ascii102 :: charbitmap where
  "ascii102 =
    [0b00000000, 0b00000000, 0b00000000, 0b00000000, 0b00001100, 0b00010000,
     0b00010000, 0b01111100, 0b00010000, 0b00010000, 0b00010000, 0b00010000,
     0b00010000, 0b00010000, 0b00000000, 0b00000000, 0b00000000, 0b00000000]"

definition ascii103 :: charbitmap where
  "ascii103 =
    [0b00000000, 0b00000000, 0b00000000, 0b00000000, 0b00000000, 0b00000000,
     0b00000000, 0b00111110, 0b01000010, 0b01000010, 0b01000010, 0b01000010,
     0b00111110, 0b00000010, 0b01000010, 0b00111100, 0b00000000, 0b00000000]"

definition ascii104 :: charbitmap where
  "ascii104 =
    [0b00000000, 0b00000000, 0b00000000, 0b00000000, 0b01000000, 0b01000000,
     0b01000000, 0b01111100, 0b01000010, 0b01000010, 0b01000010, 0b01000010,
     0b01000010, 0b01000010, 0b00000000, 0b00000000, 0b00000000, 0b00000000]"

definition ascii105 :: charbitmap where
  "ascii105 =
    [0b00000000, 0b00000000, 0b00000000, 0b00000000, 0b00001000, 0b00001000,
     0b00000000, 0b00111000, 0b00001000, 0b00001000, 0b00001000, 0b00001000,
     0b00001000, 0b00111110, 0b00000000, 0b00000000, 0b00000000, 0b00000000]"

definition ascii106 :: charbitmap where
  "ascii106 =
    [0b00000000, 0b00000000, 0b00000000, 0b00000000, 0b00001000, 0b00001000,
     0b00000000, 0b00111000, 0b00001000, 0b00001000, 0b00001000, 0b00001000,
     0b00001000, 0b00001000, 0b01001000, 0b00110000, 0b00000000, 0b00000000]"

definition ascii107 :: charbitmap where
  "ascii107 =
    [0b00000000, 0b00000000, 0b00000000, 0b00000000, 0b01000000, 0b01000000,
     0b01000000, 0b01000100, 0b01001000, 0b01010000, 0b01110000, 0b01001000,
     0b01000100, 0b01000010, 0b00000000, 0b00000000, 0b00000000, 0b00000000]"

definition ascii108 :: charbitmap where
  "ascii108 =
    [0b00000000, 0b00000000, 0b00000000, 0b00000000, 0b00111000, 0b00001000,
     0b00001000, 0b00001000, 0b00001000, 0b00001000, 0b00001000, 0b00001000,
     0b00001000, 0b00111110, 0b00000000, 0b00000000, 0b00000000, 0b00000000]"

definition ascii109 :: charbitmap where
  "ascii109 =
    [0b00000000, 0b00000000, 0b00000000, 0b00000000, 0b00000000, 0b00000000,
     0b00000000, 0b01110110, 0b01001001, 0b01001001, 0b01001001, 0b01001001,
     0b01001001, 0b01001001, 0b00000000, 0b00000000, 0b00000000, 0b00000000]"

definition ascii110 :: charbitmap where
  "ascii110 =
    [0b00000000, 0b00000000, 0b00000000, 0b00000000, 0b00000000, 0b00000000,
     0b00000000, 0b01111100, 0b01000010, 0b01000010, 0b01000010, 0b01000010,
     0b01000010, 0b01000010, 0b00000000, 0b00000000, 0b00000000, 0b00000000]"

definition ascii111 :: charbitmap where
  "ascii111 =
    [0b00000000, 0b00000000, 0b00000000, 0b00000000, 0b00000000, 0b00000000,
     0b00000000, 0b00111100, 0b01000010, 0b01000010, 0b01000010, 0b01000010,
     0b01000010, 0b00111100, 0b00000000, 0b00000000, 0b00000000, 0b00000000]"

definition ascii112 :: charbitmap where
  "ascii112 =
    [0b00000000, 0b00000000, 0b00000000, 0b00000000, 0b00000000, 0b00000000,
     0b00000000, 0b01111100, 0b01000010, 0b01000010, 0b01000010, 0b01000010,
     0b01111100, 0b01000000, 0b01000000, 0b01000000, 0b00000000, 0b00000000]"

definition ascii113 :: charbitmap where
  "ascii113 =
    [0b00000000, 0b00000000, 0b00000000, 0b00000000, 0b00000000, 0b00000000,
     0b00000000, 0b00111110, 0b01000010, 0b01000010, 0b01000010, 0b01000010,
     0b00111110, 0b00000010, 0b00000010, 0b00000010, 0b00000000, 0b00000000]"

definition ascii114 :: charbitmap where
  "ascii114 =
    [0b00000000, 0b00000000, 0b00000000, 0b00000000, 0b00000000, 0b00000000,
     0b00000000, 0b01111100, 0b01000010, 0b01000000, 0b01000000, 0b01000000,
     0b01000000, 0b01000000, 0b00000000, 0b00000000, 0b00000000, 0b00000000]"

definition ascii115 :: charbitmap where
  "ascii115 =
    [0b00000000, 0b00000000, 0b00000000, 0b00000000, 0b00000000, 0b00000000,
     0b00000000, 0b00111100, 0b01000010, 0b01000000, 0b00111100, 0b00000010,
     0b01000010, 0b00111100, 0b00000000, 0b00000000, 0b00000000, 0b00000000]"

definition ascii116 :: charbitmap where
  "ascii116 =
    [0b00000000, 0b00000000, 0b00000000, 0b00000000, 0b00010000, 0b00010000,
     0b00010000, 0b01111100, 0b00010000, 0b00010000, 0b00010000, 0b00010000,
     0b00010000, 0b00001100, 0b00000000, 0b00000000, 0b00000000, 0b00000000]"

definition ascii117 :: charbitmap where
  "ascii117 =
    [0b00000000, 0b00000000, 0b00000000, 0b00000000, 0b00000000, 0b00000000,
     0b00000000, 0b01000010, 0b01000010, 0b01000010, 0b01000010, 0b01000010,
     0b01000010, 0b00111110, 0b00000000, 0b00000000, 0b00000000, 0b00000000]"

definition ascii118 :: charbitmap where
  "ascii118 =
    [0b00000000, 0b00000000, 0b00000000, 0b00000000, 0b00000000, 0b00000000,
     0b00000000, 0b01000010, 0b01000010, 0b01000010, 0b00100100, 0b00100100,
     0b00011000, 0b00011000, 0b00000000, 0b00000000, 0b00000000, 0b00000000]"

definition ascii119 :: charbitmap where
  "ascii119 =
    [0b00000000, 0b00000000, 0b00000000, 0b00000000, 0b00000000, 0b00000000,
     0b00000000, 0b01001001, 0b01001001, 0b01001001, 0b01001001, 0b01001001,
     0b01001001, 0b00110110, 0b00000000, 0b00000000, 0b00000000, 0b00000000]"

definition ascii120 :: charbitmap where
  "ascii120 =
    [0b00000000, 0b00000000, 0b00000000, 0b00000000, 0b00000000, 0b00000000,
     0b00000000, 0b01000010, 0b00100100, 0b00011000, 0b00011000, 0b00100100,
     0b00100100, 0b01000010, 0b00000000, 0b00000000, 0b00000000, 0b00000000]"

definition ascii121 :: charbitmap where
  "ascii121 =
    [0b00000000, 0b00000000, 0b00000000, 0b00000000, 0b00000000, 0b00000000,
     0b00000000, 0b01000010, 0b01000010, 0b01000010, 0b01000010, 0b01000010,
     0b00111110, 0b00000010, 0b01000010, 0b00111100, 0b00000000, 0b00000000]"

definition ascii122 :: charbitmap where
  "ascii122 =
    [0b00000000, 0b00000000, 0b00000000, 0b00000000, 0b00000000, 0b00000000,
     0b00000000, 0b01111110, 0b00000010, 0b00000100, 0b00011000, 0b00100000,
     0b01000000, 0b01111110, 0b00000000, 0b00000000, 0b00000000, 0b00000000]"

definition ascii123 :: charbitmap where
  "ascii123 =
    [0b00000000, 0b00000000, 0b00000000, 0b00000000, 0b00011000, 0b00100000,
     0b00100000, 0b00100000, 0b01000000, 0b00100000, 0b00100000, 0b00100000,
     0b00100000, 0b00011000, 0b00000000, 0b00000000, 0b00000000, 0b00000000]"

definition ascii124 :: charbitmap where
  "ascii124 =
    [0b00000000, 0b00000000, 0b00000000, 0b00000000, 0b00001000, 0b00001000,
     0b00001000, 0b00001000, 0b00001000, 0b00001000, 0b00001000, 0b00001000,
     0b00001000, 0b00001000, 0b00000000, 0b00000000, 0b00000000, 0b00000000]"

definition ascii125 :: charbitmap where
  "ascii125 =
    [0b00000000, 0b00000000, 0b00000000, 0b00000000, 0b00011000, 0b00000100,
     0b00000100, 0b00000100, 0b00000010, 0b00000100, 0b00000100, 0b00000100,
     0b00000100, 0b00011000, 0b00000000, 0b00000000, 0b00000000, 0b00000000]"

definition ascii126 :: charbitmap where
  "ascii126 =
    [0b00000000, 0b00000000, 0b00000000, 0b00000000, 0b00000000, 0b00000000,
     0b00000000, 0b00000000, 0b00000000, 0b00110010, 0b01001100, 0b00000000,
     0b00000000, 0b00000000, 0b00000000, 0b00000000, 0b00000000, 0b00000000]"

section \<open>The switch\<close>

text \<open>The cases of the switch: a character code and the array it returns.\<close>

definition glyphs :: "(u8 \<times> charbitmap) list" where
  "glyphs =
    [(32, ascii32), (33, ascii33), (34, ascii34), (35, ascii35), (36, ascii36), (37, ascii37),
     (38, ascii38), (39, ascii39), (40, ascii40), (41, ascii41), (42, ascii42), (43, ascii43),
     (44, ascii44), (45, ascii45), (46, ascii46), (47, ascii47), (48, ascii48), (49, ascii49),
     (50, ascii50), (51, ascii51), (52, ascii52), (53, ascii53), (54, ascii54), (55, ascii55),
     (56, ascii56), (57, ascii57), (58, ascii58), (59, ascii59), (60, ascii60), (61, ascii61),
     (62, ascii62), (63, ascii63), (64, ascii64), (65, ascii65), (66, ascii66), (67, ascii67),
     (68, ascii68), (69, ascii69), (70, ascii70), (71, ascii71), (72, ascii72), (73, ascii73),
     (74, ascii74), (75, ascii75), (76, ascii76), (77, ascii77), (78, ascii78), (79, ascii79),
     (80, ascii80), (81, ascii81), (82, ascii82), (83, ascii83), (84, ascii84), (85, ascii85),
     (86, ascii86), (87, ascii87), (88, ascii88), (89, ascii89), (90, ascii90), (91, ascii91),
     (92, ascii92), (93, ascii93), (94, ascii94), (95, ascii95), (96, ascii96), (97, ascii97),
     (98, ascii98), (99, ascii99), (100, ascii100), (101, ascii101), (102, ascii102),
     (103, ascii103), (104, ascii104), (105, ascii105), (106, ascii106), (107, ascii107),
     (108, ascii108), (109, ascii109), (110, ascii110), (111, ascii111), (112, ascii112),
     (113, ascii113), (114, ascii114), (115, ascii115), (116, ascii116), (117, ascii117),
     (118, ascii118), (119, ascii119), (120, ascii120), (121, ascii121), (122, ascii122),
     (123, ascii123), (124, ascii124), (125, ascii125), (126, ascii126)]"

definition char_to_bitmap :: "u8 \<Rightarrow> charbitmap option" where
  "char_to_bitmap c = map_of glyphs c"
section \<open>The table\<close>

lemma glyph_codes: "map fst glyphs = map of_nat [32..<127]"
  by (simp add: glyphs_def upt_rec)

lemma glyph_rows: "list_all (\<lambda>g. length (snd g) = 18) glyphs"
  by code_simp

lemma glyphs_distinct: "distinct (map snd glyphs)"
  by code_simp

lemma glyph_blank: "list_all (\<lambda>g. list_all (\<lambda>r. r = 0) (snd g) \<longleftrightarrow> fst g = 32) glyphs"
  by code_simp

lemma printable_code: "c \<in> of_nat ` {32..<127} \<longleftrightarrow> isprint (sint (c :: u8)) \<noteq> 0"
proof
  assume "c \<in> of_nat ` {32..<127}"
  then obtain n :: nat where n: "c = of_nat n" "32 \<le> n" "n < 127" by auto
  then have "sint c = int n" by (simp add: signed_of_nat signed_take_bit_int_eq_self)
  with n show "isprint (sint c) \<noteq> 0" by (simp add: isprint_def)
next
  assume "isprint (sint c) \<noteq> 0"
  then have r: "32 \<le> sint c" "sint c \<le> 126" by (auto simp: isprint_def split: if_splits)
  have "of_int (sint c) = c" by simp
  with r have "c = of_nat (nat (sint c))" by simp
  with r show "c \<in> of_nat ` {32..<127}" by (intro image_eqI [of _ _ "nat (sint c)"]) auto
qed

lemma char_to_bitmap_None: "char_to_bitmap c = None \<longleftrightarrow> isprint (sint c) = 0"
proof -
  have "fst ` set glyphs = of_nat ` {32..<127}"
    using arg_cong [OF glyph_codes, of set] by (simp only: set_map set_upt)
  then show ?thesis
    using printable_code [of c] by (auto simp: char_to_bitmap_def map_of_eq_None_iff)
qed

lemma char_to_bitmap_in: "char_to_bitmap c = Some g \<Longrightarrow> (c, g) \<in> set glyphs"
  unfolding char_to_bitmap_def by (rule map_of_SomeD)

lemma char_to_bitmap_length: "char_to_bitmap c = Some g \<Longrightarrow> length g = 18"
  using glyph_rows char_to_bitmap_in by (fastforce simp: list_all_iff)

lemma char_to_bitmap_inj:
  assumes "char_to_bitmap c = Some g" and "char_to_bitmap d = Some g"
  shows "c = d"
proof -
  from glyphs_distinct have "inj_on snd (set glyphs)" by (simp add: distinct_map)
  from inj_onD [OF this _ assms [THEN char_to_bitmap_in]] show ?thesis by simp
qed

section \<open>Properties\<close>

text \<open>Exactly the printable characters have a glyph, and every glyph has the 18 rows that
  \<open>kputc\<close> reads.\<close>

lemma char_to_bitmap_total:
  "(char_to_bitmap c = None \<longleftrightarrow> isprint (sint c) = 0) \<and>
   (case char_to_bitmap c of None \<Rightarrow> True | Some g \<Rightarrow> length g = 18)"
  by (simp add: char_to_bitmap_None char_to_bitmap_length split: option.split)

text \<open>No two printable characters look the same, and only the space is blank.\<close>

lemma char_to_bitmap_distinct:
  "(char_to_bitmap c = char_to_bitmap d \<longleftrightarrow> c = d \<or> (isprint (sint c) = 0 \<and> isprint (sint d) = 0)) \<and>
   (case char_to_bitmap c of None \<Rightarrow> c \<noteq> 32 | Some g \<Rightarrow> list_all (\<lambda>r. r = 0) g = (c = 32))"
proof
  show "char_to_bitmap c = char_to_bitmap d \<longleftrightarrow> c = d \<or> (isprint (sint c) = 0 \<and> isprint (sint d) = 0)"
    unfolding char_to_bitmap_None [symmetric]
    by (cases "char_to_bitmap c"; cases "char_to_bitmap d") (auto dest: char_to_bitmap_inj)
  show "case char_to_bitmap c of None \<Rightarrow> c \<noteq> 32 | Some g \<Rightarrow> list_all (\<lambda>r. r = 0) g = (c = 32)"
  proof (cases "char_to_bitmap c")
    case None
    then have "c \<noteq> 32" by (auto simp: char_to_bitmap_None isprint_def)
    with None show ?thesis by simp
  next
    case (Some g)
    then show ?thesis using glyph_blank by (auto simp: list_all_iff dest!: char_to_bitmap_in)
  qed
qed

end
