(* ===== verification/Print.thy ===== *)
theory Print
  imports Font Bitmap
begin

text \<open>
  \<open>boot/kernel/print.c\<close>: the text console on the frame buffer and the number formatting.
  The state is the global \<open>graphics\<close> with the memory that holds the frame buffer. A string is
  the list of the bytes of its object, read until a zero byte; running off the end of the
  object is \<open>None\<close>. The static result buffers of \<open>itoa\<close>, \<open>hex\<close> and \<open>hexbyte\<close> are returned by
  their contents.
\<close>

section \<open>Numbers\<close>

text \<open>\<open>while (b - 1 > 0) { temp *= a; b--; }\<close>\<close>

function pow_loop :: "u64 \<Rightarrow> u64 \<Rightarrow> u64 \<Rightarrow> u64" where
  "pow_loop temp a b = (if b - 1 > 0 then pow_loop (temp * a) a (b - 1) else temp)"
  by pat_completeness auto

termination
proof (relation "measure (\<lambda>(temp, a, b). unat (b - 1))", goal_cases)
  case (2 temp a b)
  then show ?case
    using unat_diff_Suc [of "b - 1" 0] by (simp add: word_less_nat_alt unat_gt_0)
qed simp

declare pow_loop.simps [simp del]

definition pow :: "u64 \<Rightarrow> u64 \<Rightarrow> u64" where
  "pow a b = (if b = 0 then 1 else pow_loop a a b)"

text \<open>\<open>for (i = pow(10, 18); num < i; i /= 10) k++;\<close>\<close>

function itoa_k :: "u64 \<Rightarrow> u64 \<Rightarrow> nat \<Rightarrow> nat" where
  "itoa_k num i k = (if num < i then itoa_k num (i div 10) (Suc k) else k)"
  by pat_completeness auto

termination
proof (relation "measure (\<lambda>(num, i, k). unat i)", goal_cases)
  case (2 num i k)
  then show ?case
    by (simp add: word_less_nat_alt unat_div)
qed simp

declare itoa_k.simps [simp del]

definition itoa :: "u64 \<Rightarrow> u8 list" where
  "itoa num =
     (let temp = replicate 21 0;
          (temp, k) = (if num \<ge> pow 10 19 then (temp[0 := ucast (num div pow 10 19 + 48)], 0)
                       else (temp, 1));
          k = itoa_k num (pow 10 18) k
      in if k = 20 then temp[0 := 48]
         else fold (\<lambda>i temp. let j = pow 10 (of_nat (19 - i - k))
                             in temp[i := ucast (num mod (j * 10) div j + 48)]) [0..<20 - k] temp)"

definition hex_digits :: "u8 list" where
  "hex_digits = map of_char ''0123456789ABCDEF'' @ [0]"

definition hex :: "u64 \<Rightarrow> u8 list" where
  "hex num = fold (\<lambda>i temp. let byte = (ucast (drop_bit (i * 4) (num AND push_bit (i * 4) 15)) :: u8)
                            in temp[15 - i := hex_digits ! unat byte]) [0..<16] (replicate 17 0)"

definition hexbyte :: "u8 \<Rightarrow> u8 list" where
  "hexbyte num = fold (\<lambda>i temp. let byte = (ucast (drop_bit (i * 4) ((ucast num :: u64) AND push_bit (i * 4) 15)) :: u8)
                                in temp[1 - i := hex_digits ! unat byte]) [0..<2] (replicate 3 0)"

section \<open>The console\<close>

record GRAPHICS =
  framebuffer_base :: u64
  framebuffer_size :: u64
  g_width :: u32
  g_height :: u32
  pixels_per_scanline :: u32
  g_x :: u32
  g_y :: u32

type_synonym console = "GRAPHICS \<times> mem"

text \<open>
  The address of pixel (\<open>j\<close>, \<open>i\<close>) of the cell at the cursor: all of the offset is computed
  in 32 bits and only then added to the 64-bit base.
\<close>

definition pixel_addr :: "GRAPHICS \<Rightarrow> nat \<Rightarrow> nat \<Rightarrow> u64" where
  "pixel_addr g i j = framebuffer_base g
     + ucast (pixels_per_scanline g * (g_y g * FONT_HEIGHT + of_nat i) * 4)
     + ucast ((g_x g * FONT_WIDTH + of_nat j) * 4)"

text \<open>The static glyph array as an object of its own, at address 0 of a separate memory.\<close>

definition glyph_bit :: "charbitmap \<Rightarrow> nat \<Rightarrow> nat \<Rightarrow> bool" where
  "glyph_bit glyph i j \<longleftrightarrow>
     get_bitmap (\<lambda>a. if unat a < length glyph then glyph ! unat a else 0)
       \<lparr>bm_buffer = 0, bm_size = ucast FONT_HEIGHT\<rparr> (of_nat (i * 8 + (8 - j - 1))) \<noteq> 0"

definition draw_glyph :: "GRAPHICS \<Rightarrow> charbitmap \<Rightarrow> mem \<Rightarrow> mem" where
  "draw_glyph g glyph =
     fold (\<lambda>(i, j) m. if glyph_bit glyph i j then store32 m (pixel_addr g i j) 0xaaaaaaaa else m)
       (List.product [0..<unat FONT_HEIGHT] [0..<unat FONT_WIDTH])"

definition advance :: "GRAPHICS \<Rightarrow> GRAPHICS" where
  "advance g =
     (let g = g\<lparr>g_x := g_x g + 1\<rparr>
      in if g_x g \<ge> pixels_per_scanline g div FONT_WIDTH
         then g\<lparr>g_x := g_x g - pixels_per_scanline g div FONT_WIDTH, g_y := g_y g + 1\<rparr>
         else g)"

function kputc :: "u8 \<Rightarrow> console \<Rightarrow> console" where
  "kputc ch (g, m) =
     (if ch = 10 then (g\<lparr>g_y := g_y g + 1, g_x := 0\<rparr>, m)
      else if ch = 13 then (g\<lparr>g_x := 0\<rparr>, m)
      else if ch = 9 then kputc 32 (kputc 32 (kputc 32 (kputc 32 (g, m))))
      else case char_to_bitmap ch of
          None \<Rightarrow> (g, m)
        | Some glyph \<Rightarrow> (advance g, draw_glyph g glyph m))"
  by pat_completeness auto

termination
  by (relation "measure (\<lambda>(ch, s). if ch = 9 then 1 else 0)") auto

declare kputc.simps [simp del]

fun kputs :: "u8 list \<Rightarrow> console \<Rightarrow> console option" where
  "kputs [] s = None"
| "kputs (c # str) s = (if c = 0 then Some s else kputs str (kputc c s))"

text \<open>The variable arguments: the 64-bit slot of an integer, or a string.\<close>

datatype va_arg = Va_int u64 | Va_str "u8 list"

definition va_int :: "u64 \<Rightarrow> u64" where
  "va_int slot = scast (ucast slot :: u32)"

fun kprintf :: "u8 list \<Rightarrow> va_arg list \<Rightarrow> console \<Rightarrow> console option" where
  "kprintf [] ap s = None"
| "kprintf (c # str) ap s =
     (if c = 0 then Some s
      else if c = 37 then
        (case str of
           [] \<Rightarrow> None
         | d # rest \<Rightarrow>
             if d = 100 then
               (case ap of Va_int v # ap' \<Rightarrow> Option.bind (kputs (itoa (va_int v)) s) (kprintf rest ap') | _ \<Rightarrow> None)
             else if d = 115 then
               (case ap of Va_str t # ap' \<Rightarrow> Option.bind (kputs t s) (kprintf rest ap') | _ \<Rightarrow> None)
             else if d = 120 then
               (case ap of Va_int v # ap' \<Rightarrow> Option.bind (kputs (hex (va_int v)) s) (kprintf rest ap') | _ \<Rightarrow> None)
             else kprintf str ap s)
      else kprintf str ap (kputc c s))"

definition clear_line :: "u32 \<Rightarrow> console \<Rightarrow> console" where
  "clear_line line s =
     (let g = (fst s)\<lparr>g_x := 0\<rparr>
      in (g, fold (\<lambda>i m. store32 m (framebuffer_base g + ucast (g_y g * pixels_per_scanline g) + of_nat i) 0)
               [0..<unat (g_width g)] (snd s)))"

definition clear_screen :: "u32 \<Rightarrow> console \<Rightarrow> console" where
  "clear_screen color s =
     (let g = (fst s)\<lparr>g_x := 0, g_y := 0\<rparr>
      in (g, fold (\<lambda>(i, j) m. store32 m
                 (framebuffer_base g + of_nat i * ucast (pixels_per_scanline g) + of_nat j) color)
               (List.product [0..<unat (g_height g)] [0..<unat (g_width g)]) (snd s)))"

section \<open>Decimal digits\<close>

text \<open>The decimal numeral of a number, most significant digit first.\<close>

fun decimal :: "nat \<Rightarrow> u8 list" where
  "decimal n = (if n < 10 then [48 + of_nat n] else decimal (n div 10) @ [48 + of_nat (n mod 10)])"

declare decimal.simps [simp del]

definition digit_at :: "nat \<Rightarrow> nat \<Rightarrow> u8" where
  "digit_at n e = 48 + of_nat (n div 10 ^ e mod 10)"

lemma decimal_digits:
  "n < 10 ^ Suc d \<Longrightarrow> d = 0 \<or> 10 ^ d \<le> n \<Longrightarrow> decimal n = map (\<lambda>i. digit_at n (d - i)) [0..<Suc d]"
proof (induction d arbitrary: n)
  case 0
  then show ?case by (simp add: decimal.simps [of n] digit_at_def)
next
  case (Suc d)
  from Suc.prems have n: "10 ^ Suc d \<le> n" "n < 10 ^ Suc (Suc d)" by auto
  then have "10 \<le> n" by (metis dual_order.trans self_le_power zero_less_Suc one_le_numeral)
  have "n div 10 < 10 ^ Suc d" "10 ^ d \<le> n div 10"
    using n by (simp_all add: less_mult_imp_div_less less_eq_div_iff_mult_less_eq mult.commute)
  then have "decimal (n div 10) = map (\<lambda>i. digit_at (n div 10) (d - i)) [0..<Suc d]"
    by (intro Suc.IH) auto
  also have "\<dots> = map (\<lambda>i. digit_at n (Suc d - i)) [0..<Suc d]"
    by (auto simp: digit_at_def div_mult2_eq Suc_diff_le)
  finally show ?case
    using \<open>10 \<le> n\<close> by (simp add: decimal.simps [of n] digit_at_def)
qed

lemma pow_loop: "b \<noteq> 0 \<Longrightarrow> pow_loop temp a b = temp * a ^ (unat b - 1)"
proof (induction temp a b rule: pow_loop.induct)
  case (1 temp a b)
  have u: "unat b = Suc (unat (b - 1))" using unat_diff_Suc [of b 0] 1(2) by simp
  show ?case
  proof (cases "b - 1 = 0")
    case True
    then have "b = 1" by simp
    then show ?thesis by (simp add: pow_loop.simps [of temp a 1])
  next
    case False
    then obtain k where k: "unat (b - 1) = Suc k" by (metis not0_implies_Suc unsigned_eq_0_iff)
    from False have "b - 1 > 0" by (simp only: word_neq_0_conv)
    then have "pow_loop temp a b = pow_loop (temp * a) a (b - 1)" by (subst pow_loop.simps) simp
    also have "\<dots> = temp * a * a ^ k" using 1(1) [OF \<open>b - 1 > 0\<close> False] by (simp add: k)
    finally show ?thesis by (simp add: u k mult.assoc)
  qed
qed

lemma pow_power: "pow a b = a ^ unat b"
proof (cases "b = 0")
  case False
  then have "unat b = Suc (unat b - 1)" by (simp add: unat_gt_0)
  with False show ?thesis by (simp add: pow_def pow_loop) (metis power_Suc)
qed (simp add: pow_def)

lemma ten_power_less: "e \<le> 19 \<Longrightarrow> (10::nat) ^ e < 2 ^ 64"
  using power_increasing [of e 19 "10::nat"] by simp

lemma unat_ten_power: "e \<le> 19 \<Longrightarrow> unat ((10 :: u64) ^ e) = 10 ^ e"
  using unat_of_nat_small [of "10 ^ e", where ?'a = 64] ten_power_less by simp

lemma pow_ten: "e \<le> 19 \<Longrightarrow> pow 10 (of_nat e) = 10 ^ e"
  by (simp add: pow_power)

lemma ten_power_div: "Suc e \<le> 19 \<Longrightarrow> (10 :: u64) ^ Suc e div 10 = 10 ^ e"
proof -
  assume "Suc e \<le> 19"
  then have "unat ((10 :: u64) ^ Suc e div 10) = unat ((10 :: u64) ^ e)"
    unfolding unat_div by (subst (1 2) unat_ten_power) simp_all
  then show ?thesis by (simp only: word_unat_eq_iff)
qed

lemma itoa_k_digits:
  "e \<le> 19 \<Longrightarrow> d \<le> e \<Longrightarrow> unat num < 10 ^ Suc d \<Longrightarrow> 10 ^ d \<le> unat num \<Longrightarrow> itoa_k num (10 ^ e) k = k + (e - d)"
proof (induction e arbitrary: k)
  case 0
  then show ?case by (simp add: itoa_k.simps [of num 1] word_less_nat_alt)
next
  case (Suc e)
  have l: "num < 10 ^ Suc e \<longleftrightarrow> unat num < 10 ^ Suc e"
    unfolding word_less_nat_alt using Suc.prems by (subst unat_ten_power) simp_all
  show ?case
  proof (cases "d = Suc e")
    case True
    with Suc.prems l show ?thesis by (simp add: itoa_k.simps [of num "10 ^ Suc e"] del: power_Suc)
  next
    case False
    then have "d \<le> e" using Suc.prems by simp
    then have "(10::nat) ^ Suc d \<le> 10 ^ Suc e" by (intro power_increasing) simp_all
    with Suc.prems(3) have "unat num < 10 ^ Suc e" by (rule less_le_trans)
    with l have "num < 10 ^ Suc e" by blast
    then have "itoa_k num (10 ^ Suc e) k = itoa_k num (10 ^ e) (Suc k)"
      using ten_power_div [of e] Suc.prems by (subst itoa_k.simps) (simp del: power_Suc)
    also have "\<dots> = Suc k + (e - d)" using Suc.prems \<open>d \<le> e\<close> by (intro Suc.IH) simp_all
    finally show ?thesis using \<open>d \<le> e\<close> by simp
  qed
qed

lemma itoa_k_zero: "e \<le> 19 \<Longrightarrow> itoa_k 0 (10 ^ e) k = k + Suc e"
proof (induction e arbitrary: k)
  case 0
  have "itoa_k 0 0 (Suc k) = Suc k" by (subst itoa_k.simps) simp
  then show ?case by (subst itoa_k.simps) simp
next
  case (Suc e)
  have "(0::u64) < 10 ^ Suc e"
    unfolding word_less_nat_alt using Suc.prems by (subst unat_ten_power) simp_all
  then have "itoa_k 0 (10 ^ Suc e) k = itoa_k 0 (10 ^ e) (Suc k)"
    using ten_power_div [of e] Suc.prems by (subst itoa_k.simps) (simp del: power_Suc)
  with Suc show ?case by simp
qed

lemma fold_update:
  "n \<le> length t \<Longrightarrow> fold (\<lambda>i t. t[i := f i]) [0..<n] t = map f [0..<n] @ drop n t"
  by (induction n) (simp_all add: list_update_append Cons_nth_drop_Suc [symmetric] upd_conv_take_nth_drop)

lemma ucast_digit: "n < 10 \<Longrightarrow> (ucast (of_nat n + 48 :: u64) :: u8) = 48 + of_nat n"
  by (simp add: word_unat_eq_iff unsigned_ucast_eq unat_word_ariths take_bit_nat_eq_self)

lemma itoa_digit:
  assumes "e \<le> 18"
  shows "ucast (num mod (10 ^ e * 10) div 10 ^ e + 48 :: u64) = digit_at (unat num) e"
proof -
  have "unat ((10 :: u64) ^ e * 10) = 10 ^ e * 10"
    using unat_ten_power [of "Suc e"] assms by (simp add: mult.commute)
  then have "unat (num mod (10 ^ e * 10) div 10 ^ e) = unat num div 10 ^ e mod 10"
    using assms by (simp add: unat_div unat_mod unat_ten_power mod_mult2_eq)
  then have "num mod (10 ^ e * 10) div 10 ^ e = of_nat (unat num div 10 ^ e mod 10)"
    by (simp add: word_unat_eq_iff)
  then show ?thesis
    by (simp only: digit_at_def) (rule ucast_digit, simp)
qed

lemma pow_10_consts: "pow 10 19 = 10 ^ 19" "pow 10 18 = 10 ^ 18"
  by (simp_all add: pow_power)

lemma itoa_small:
  assumes d: "d \<le> 18" and n: "unat num < 10 ^ Suc d" "10 ^ d \<le> unat num"
  shows "itoa num = map (\<lambda>i. digit_at (unat num) (d - i)) [0..<Suc d] @ replicate (20 - d) 0"
proof -
  have "unat num < 10 ^ 19"
    using n(1) power_increasing [of "Suc d" 19 "10::nat"] d by linarith
  then have big: "\<not> 10 ^ 19 \<le> num" by (simp add: word_le_nat_alt)
  have k: "itoa_k num (10 ^ 18) (Suc 0) = 19 - d"
    using itoa_k_digits [of 18 d num 1] d n by simp
  have ne: "19 - d \<noteq> 20" by simp
  have step: "ucast (num mod (pow 10 (of_nat (19 - i - (19 - d))) * 10) div pow 10 (of_nat (19 - i - (19 - d))) + 48)
      = digit_at (unat num) (d - i)" if "i < Suc d" for i
  proof -
    have "19 - i - (19 - d) = d - i" using that d by simp
    then show ?thesis using d by (simp add: pow_ten itoa_digit)
  qed
  have "itoa num = fold (\<lambda>i temp. temp[i := ucast (num mod (pow 10 (of_nat (19 - i - (19 - d))) * 10)
      div pow 10 (of_nat (19 - i - (19 - d))) + 48)]) [0..<Suc d] (replicate 21 0)"
    using d big k ne by (simp add: itoa_def Let_def pow_10_consts Suc_diff_le del: upt_Suc)
  also have "\<dots> = map (\<lambda>i. ucast (num mod (pow 10 (of_nat (19 - i - (19 - d))) * 10)
      div pow 10 (of_nat (19 - i - (19 - d))) + 48)) [0..<Suc d] @ drop (Suc d) (replicate 21 0)"
    using d by (intro fold_update) simp
  also have "\<dots> = map (\<lambda>i. digit_at (unat num) (d - i)) [0..<Suc d] @ replicate (20 - d) 0"
    by (intro arg_cong2 [of _ _ _ _ "(@)"] map_cong refl step) auto
  finally show ?thesis .
qed

lemma itoa_zero: "itoa 0 = 48 # replicate 20 0"
proof -
  have k: "itoa_k 0 (10 ^ 18) (Suc 0) = 20" using itoa_k_zero [of 18 1] by simp
  have "itoa 0 = (replicate (Suc 20) 0)[0 := 48]"
    using k by (simp add: itoa_def Let_def pow_10_consts)
  then show ?thesis by (simp only: replicate_Suc list_update.simps nat.case)
qed

lemma itoa_big:
  assumes "10 ^ 19 \<le> unat num"
  shows "itoa num = 48 # map (\<lambda>i. digit_at (unat num) (19 - i)) [1..<20] @ [0]"
proof -
  have big: "10 ^ 19 \<le> num" using assms by (simp add: word_le_nat_alt)
  have "\<not> num < 10 ^ 18" using assms by (simp add: word_less_nat_alt)
  then have k: "itoa_k num (10 ^ 18) 0 = 0" by (subst itoa_k.simps) simp
  define f where "f i = (ucast (num mod (pow 10 (of_nat (19 - i)) * 10) div pow 10 (of_nat (19 - i)) + 48) :: u8)" for i
  have f0: "f 0 = 48"
  proof -
    have "unat (num mod 7766279631452241920) < 7766279631452241920"
      by (simp add: unat_mod)
    then have "unat (num mod 7766279631452241920) div 10000000000000000000 = 0" by simp
    then have "num mod 7766279631452241920 div 10000000000000000000 = 0"
      by (simp only: word_unat_eq_iff unat_div) simp
    moreover have "pow 10 19 = 10000000000000000000"
      "10000000000000000000 * 10 = (7766279631452241920 :: u64)"
      by (simp_all add: pow_10_consts)
    ultimately show ?thesis by (simp only: f_def diff_zero of_nat_numeral) simp
  qed
  have f: "f i = digit_at (unat num) (19 - i)" if "i \<in> set [1..<20]" for i
    using that unfolding f_def by (subst (1 2) pow_ten) (auto intro: itoa_digit)
  have "itoa num = fold (\<lambda>i temp. temp[i := f i]) [0..<20] ((replicate 21 0)[0 := ucast (num div 10 ^ 19 + 48)])"
    using big k by (simp add: itoa_def Let_def pow_10_consts f_def)
  also have "\<dots> = map f [0..<20] @ [0]"
    by (subst fold_update) (simp_all add: eval_nat_numeral)
  also have "[0..<20] = 0 # [1..<20]" by (simp add: upt_rec)
  also have "map f (0 # [1..<20]) = 48 # map (\<lambda>i. digit_at (unat num) (19 - i)) [1..<20]"
    using f0 f by (simp only: list.map cong: map_cong)
  finally show ?thesis by simp
qed

lemma digit_count:
  assumes "(n :: nat) < 10 ^ Suc e"
  obtains d where "d \<le> e" "n < 10 ^ Suc d" "d = 0 \<or> 10 ^ d \<le> n"
proof -
  define d where "d = (LEAST d. n < 10 ^ Suc d)"
  have "n < 10 ^ Suc d" unfolding d_def using assms by (rule LeastI)
  moreover have "d \<le> e" unfolding d_def using assms by (rule Least_le)
  moreover have "d = 0 \<or> 10 ^ d \<le> n"
  proof (cases d)
    case (Suc d')
    then have "\<not> n < 10 ^ Suc d'"

      using not_less_Least [of d' "\<lambda>d. n < 10 ^ Suc d"] by (simp add: d_def)
    with Suc show ?thesis by simp
  qed simp
  ultimately show ?thesis using that by blast
qed

lemma itoa_decimal:
  assumes "num < 10 ^ 19"
  shows "itoa num = decimal (unat num) @ replicate (21 - length (decimal (unat num))) 0"
proof (cases "num = 0")
  case True
  then show ?thesis by (simp add: itoa_zero decimal.simps [of 0] eval_nat_numeral)
next
  case False
  have "unat num < 10 ^ Suc 18" using assms by (simp add: word_less_nat_alt)
  then obtain d where d: "d \<le> 18" "unat num < 10 ^ Suc d" "d = 0 \<or> 10 ^ d \<le> unat num"
    by (rule digit_count)
  from False d have "10 ^ d \<le> unat num" by (auto simp: Suc_le_eq unat_gt_0)
  with itoa_small [OF d(1,2)] decimal_digits [OF d(2,3)] d(1) show ?thesis by simp
qed

lemma itoa_decimal_big:
  assumes "10 ^ 19 \<le> num"
  shows "itoa num = 48 # tl (decimal (unat num)) @ [0]"
proof -
  have n: "10 ^ 19 \<le> unat num" using assms by (simp add: word_le_nat_alt)
  have "unat num < 10 ^ Suc 19" by (rule less_trans [OF unat_less_64]) simp
  then have "decimal (unat num) = map (\<lambda>i. digit_at (unat num) (19 - i)) [0..<Suc 19]"
    using n by (intro decimal_digits) auto
  also have "[0..<Suc 19] = 0 # [1..<20]" by (simp add: upt_rec)
  finally show ?thesis by (simp add: itoa_big [OF n])
qed

section \<open>Hexadecimal digits\<close>

text \<open>The value of a hexadecimal numeral up to its zero byte.\<close>

definition hexval :: "u8 \<Rightarrow> nat" where
  "hexval c = (if 65 \<le> c then unat c - 55 else unat c - 48)"

definition read_hex :: "u8 list \<Rightarrow> nat" where
  "read_hex str = foldl (\<lambda>a c. a * 16 + hexval c) 0 (takeWhile (\<lambda>c. c \<noteq> 0) str)"

lemma fold_update_rev:
  fixes f :: "nat \<Rightarrow> 'a::zero"
  shows "n \<le> Suc k \<Longrightarrow> fold (\<lambda>i t. t[k - i := f i]) [0..<n] (replicate (Suc k) 0 @ r) =
     replicate (Suc k - n) 0 @ rev (map f [0..<n]) @ r"
proof (induction n)
  case (Suc n)
  then have "Suc k - n = Suc (k - n)" by simp
  then have "replicate (Suc k - n) (0 :: 'a) = replicate (k - n) 0 @ [0]"
    by (simp add: replicate_append_same)
  then have e: "(replicate (Suc k - n) 0)[k - n := f n] = replicate (k - n) 0 @ [f n]"
    by (simp add: list_update_append)
  have "k - n < Suc k - n" using Suc.prems by simp
  with e Suc show ?case by (simp add: list_update_append del: replicate_Suc)
qed simp

lemma foldl_digits:
  fixes n :: nat
  shows "foldl (\<lambda>a d. a * 16 + d) a (rev (map (\<lambda>i. n div 16 ^ i mod 16) [0..<k])) = a * 16 ^ k + n mod 16 ^ k"
proof (induction k arbitrary: a)
  case (Suc k)
  have "n mod (16 ^ k * 16) = 16 ^ k * (n div 16 ^ k mod 16) + n mod 16 ^ k" by (rule mod_mult2_eq)
  with Suc show ?case by (simp add: algebra_simps)
qed simp

lemma hex_digits_nth: "d < 16 \<Longrightarrow> hexval (hex_digits ! d) = d \<and> hex_digits ! d \<noteq> 0"
proof -
  have "\<forall>d \<in> set [0..<16]. hexval (hex_digits ! d) = d \<and> hex_digits ! d \<noteq> 0" by code_simp
  moreover assume "d < 16"
  ultimately show ?thesis by simp
qed

lemma nibble: "drop_bit k (num AND push_bit k 15) = take_bit 4 (drop_bit k (num :: u64))"
proof (rule bit_word_eqI)
  fix n
  have "bit (15 :: u64) n \<longleftrightarrow> n < 64 \<and> n < 4"
    using bit_mask_iff [of 4 n, where ?'a = u64] by (auto simp: mask_numeral)
  then show "bit (drop_bit k (num AND push_bit k 15)) n = bit (take_bit 4 (drop_bit k num)) n"
    using bit_imp_le_length [of num "k + n"]
    by (auto simp: bit_drop_bit_eq bit_and_iff bit_push_bit_iff bit_take_bit_iff)
qed

lemma unat_nibble:
  "unat (ucast (drop_bit (i * 4) (num AND push_bit (i * 4) 15)) :: u8) = unat (num :: u64) div 16 ^ i mod 16"
proof -
  have "(2::nat) ^ (i * 4) = 16 ^ i" by (simp add: mult.commute [of i] power_mult)
  then have "take_bit 4 (drop_bit (i * 4) (unat num)) = unat num div 16 ^ i mod 16"
    by (simp add: take_bit_eq_mod drop_bit_eq_div)
  then show ?thesis
    unfolding nibble by (simp add: unsigned_ucast_eq unsigned_take_bit_eq unat_drop_bit_eq take_bit_take_bit)
qed

lemma read_hex_digits:
  assumes "\<And>i. i < k \<Longrightarrow> f i = hex_digits ! (n div 16 ^ i mod 16)"
  shows "read_hex (rev (map f [0..<k]) @ [0]) = n mod 16 ^ k"
proof -
  let ?g = "\<lambda>i. n div 16 ^ i mod 16"
  have "\<forall>c \<in> set (rev (map f [0..<k])). c \<noteq> 0"
    using assms hex_digits_nth by auto
  then have "takeWhile (\<lambda>c. c \<noteq> 0) (rev (map f [0..<k]) @ [0]) = rev (map f [0..<k])"
    by (subst takeWhile_append2) auto
  then have "read_hex (rev (map f [0..<k]) @ [0]) =
      foldl (\<lambda>a c. a * 16 + c) 0 (map hexval (rev (map f [0..<k])))"
    by (simp add: read_hex_def foldl_map)
  also have "map hexval (rev (map f [0..<k])) = rev (map ?g [0..<k])"
    using assms hex_digits_nth by (simp add: rev_map [symmetric])
  finally show ?thesis by (simp only: foldl_digits)
qed

lemma hex_eq: "hex num = rev (map (\<lambda>i. hex_digits ! unat (ucast (drop_bit (i * 4) (num AND push_bit (i * 4) 15)) :: u8)) [0..<16]) @ [0]"
  using fold_update_rev [of 16 15 _ "[0]"] by (simp add: hex_def Let_def eval_nat_numeral del: upt_Suc)

lemma hexbyte_eq: "hexbyte num = rev (map (\<lambda>i. hex_digits !
    unat (ucast (drop_bit (i * 4) ((ucast num :: u64) AND push_bit (i * 4) 15)) :: u8)) [0..<2]) @ [0]"
  using fold_update_rev [of 2 1 _ "[0]"] by (simp add: hexbyte_def Let_def eval_nat_numeral del: upt_Suc)

lemma read_hex_hex: "read_hex (hex num) = unat num"
proof -
  have "read_hex (hex num) = unat num mod 16 ^ 16"
    unfolding hex_eq by (rule read_hex_digits) (simp only: unat_nibble)
  then show ?thesis by simp
qed

lemma read_hex_hexbyte: "read_hex (hexbyte num) = unat num"
proof -
  have "read_hex (hexbyte num) = unat (ucast num :: u64) mod 16 ^ 2"
    unfolding hexbyte_eq by (rule read_hex_digits) (simp only: unat_nibble)
  also have "unat (ucast num :: u64) = unat num"
    using unsigned_less [of num, where ?'a = nat] by (simp add: unsigned_ucast_eq take_bit_nat_eq_self)
  finally show ?thesis
    using unsigned_less [of num, where ?'a = nat] by simp
qed

end
