(* ===== verification/Console.thy ===== *)
theory Console
  imports Print
begin

text \<open>
  What the console of \<open>boot/kernel/print.c\<close> does: the pixels a character lights, where the
  cursor goes, what \<open>kprintf\<close> prints for a format, and what \<open>clear_screen\<close> reaches.
\<close>

section \<open>Painting\<close>

definition uniform :: "u32 \<Rightarrow> u8 \<Rightarrow> bool" where
  "uniform v c \<longleftrightarrow> (\<forall>i<4. ucast (drop_bit (8 * i) v) = c)"

lemma paint_bytes:
  assumes "uniform v c"
  shows "fold (\<lambda>p m. if P p then store32 m (a p) v else m) ps m b =
    (if \<exists>p\<in>set ps. P p \<and> in_region (a p) 4 b then c else m b)"
proof (induction ps arbitrary: m)
  case (Cons p ps)
  have "store32 m (a p) v b = (if in_region (a p) 4 b then c else m b)"
    using assms by (simp add: store_le_apply in_region_def uniform_def)
  with Cons show ?case by auto
qed simp

lemma paint_load:
  assumes "uniform v c"
    and "\<And>p. p \<in> set ps \<Longrightarrow> p \<noteq> q \<Longrightarrow> apart (a p) 4 (a q) 4" and "q \<in> set ps"
  shows "load32 (fold (\<lambda>p m. if P p then store32 m (a p) v else m) ps m) (a q) =
    (if P q then v else load32 m (a q))"
proof (cases "P q")
  case True
  have "load32 (fold (\<lambda>p m. if P p then store32 m (a p) v else m) ps m) (a q) = load32 (store32 m (a q) v) (a q)"
    using assms(1,3) True
    by (intro load_le_cong) (auto simp: paint_bytes [OF assms(1)] store_le_apply uniform_def)
  with True show ?thesis by (simp add: mem_simps)
next
  case False
  have "load32 (fold (\<lambda>p m. if P p then store32 m (a p) v else m) ps m) (a q) = load32 m (a q)"
  proof (intro load_le_cong)
    fix i :: nat
    assume "i < 4"
    then have n: "\<not> (\<exists>p\<in>set ps. P p \<and> in_region (a p) 4 (a q + of_nat i))"
      using assms(2) False by (auto simp: apart_def)
    show "fold (\<lambda>p m. if P p then store32 m (a p) v else m) ps m (a q + of_nat i) = m (a q + of_nat i)"
      unfolding paint_bytes [OF assms(1)] if_not_P [OF n] ..
  qed
  with False show ?thesis by simp
qed

lemma paint_uniform: "uniform 0xaaaaaaaa 0xaa"
proof -
  have "\<forall>i\<in>set [0..<4]. (ucast (drop_bit (8 * i) (0xaaaaaaaa :: u32)) :: u8) = 0xaa" by code_simp
  then show ?thesis by (simp add: uniform_def)
qed

text \<open>The cell at the cursor lies in a row of the screen and its offset fits in 32 bits.\<close>

definition cell_ok :: "GRAPHICS \<Rightarrow> bool" where
  "cell_ok g \<longleftrightarrow> unat (g_x g) * 8 + 8 \<le> unat (pixels_per_scanline g) \<and>
     unat (pixels_per_scanline g) * (unat (g_y g) * 18 + 18) * 4 < 2 ^ 32"

definition pixel_index :: "GRAPHICS \<Rightarrow> nat \<Rightarrow> nat \<Rightarrow> nat" where
  "pixel_index g i j = unat (pixels_per_scanline g) * (unat (g_y g) * 18 + i) + (unat (g_x g) * 8 + j)"

lemma ucast_of_nat_unat: "(ucast (w :: 'a::len word) :: 'b::len word) = of_nat (unat w)"
  by (simp add: word_unat_eq_iff unsigned_ucast_eq unat_of_nat)

lemma pixel_index_bound:
  assumes "cell_ok g" "i < 18" "j < 8"
  shows "pixel_index g i j * 4 < 2 ^ 32"
    "unat (pixels_per_scanline g) * (unat (g_y g) * 18 + i) * 4 + (unat (g_x g) * 8 + j) * 4 < 2 ^ 32"
proof -
  let ?p = "unat (pixels_per_scanline g)" and ?y = "unat (g_y g) * 18" and ?x = "unat (g_x g) * 8"
  have "?p * (?y + i) + ?p \<le> ?p * (?y + 18)"
    using mult_le_mono2 [of "?y + i + 1" "?y + 18" ?p] assms(2) by (simp add: algebra_simps)
  moreover have "?x + j < ?p" using assms by (simp add: cell_ok_def)
  ultimately have "?p * (?y + i) + (?x + j) < ?p * (?y + 18)" by linarith
  then have "(?p * (?y + i) + (?x + j)) * 4 < ?p * (?y + 18) * 4" by (rule mult_strict_right_mono) simp
  also have "\<dots> < 2 ^ 32" using assms(1) by (simp only: cell_ok_def)
  finally have "(?p * (?y + i) + (?x + j)) * 4 < 2 ^ 32" .
  then show "pixel_index g i j * 4 < 2 ^ 32" "?p * (?y + i) * 4 + (?x + j) * 4 < 2 ^ 32"
    unfolding pixel_index_def by (simp_all only: add_mult_distrib)
qed

lemma pixel_addr_index:
  assumes "cell_ok g" "i < 18" "j < 8"
  shows "pixel_addr g i j = framebuffer_base g + of_nat (pixel_index g i j * 4)"
proof -
  let ?p = "unat (pixels_per_scanline g)" and ?y = "unat (g_y g) * 18" and ?x = "unat (g_x g) * 8"
  note b = pixel_index_bound(2) [OF assms]
  have "pixels_per_scanline g * (g_y g * FONT_HEIGHT + of_nat i) * 4 = of_nat (?p * (?y + i) * 4)"
    by simp
  then have u: "unat (pixels_per_scanline g * (g_y g * FONT_HEIGHT + of_nat i) * 4) = ?p * (?y + i) * 4"
    using b by (simp only: unat_of_nat_small) (rule unat_of_nat_small, simp)
  have "(g_x g * FONT_WIDTH + of_nat j) * 4 = of_nat ((?x + j) * 4)"
    by simp
  then have v: "unat ((g_x g * FONT_WIDTH + of_nat j) * 4) = (?x + j) * 4"
    using b by (simp only: unat_of_nat_small) (rule unat_of_nat_small, simp)
  have "pixel_addr g i j = framebuffer_base g + (of_nat (?p * (?y + i) * 4) + of_nat ((?x + j) * 4))"
    unfolding pixel_addr_def ucast_of_nat_unat u v by (simp only: add.assoc)
  also have "of_nat (?p * (?y + i) * 4) + of_nat ((?x + j) * 4) = (of_nat (pixel_index g i j * 4) :: u64)"
    by (simp add: pixel_index_def algebra_simps)
  finally show ?thesis .
qed

lemma pixel_index_inj:
  assumes "cell_ok g" "j < 8" "j' < 8" "pixel_index g i j = pixel_index g i' j'"
  shows "i = i' \<and> j = j'"
proof -
  let ?p = "unat (pixels_per_scanline g)" and ?y = "unat (g_y g) * 18" and ?x = "unat (g_x g) * 8"
  have l: "?x + j < ?p" "?x + j' < ?p" using assms(1-3) by (simp_all add: cell_ok_def)
  have "(?p * (?y + i) + (?x + j)) div ?p = (?p * (?y + i') + (?x + j')) div ?p"
    "(?p * (?y + i) + (?x + j)) mod ?p = (?p * (?y + i') + (?x + j')) mod ?p"
    using assms(4) by (simp_all only: pixel_index_def)
  with l show ?thesis by simp
qed

lemma pixel_apart:
  assumes "cell_ok g" "i < 18" "j < 8" "i' < 18" "j' < 8" "(i, j) \<noteq> (i', j')"
  shows "apart (pixel_addr g i j) 4 (pixel_addr g i' j') 4"
proof -
  have "pixel_index g i j \<noteq> pixel_index g i' j'"
    using pixel_index_inj assms by blast
  then have "pixel_index g i j * 4 + 4 \<le> pixel_index g i' j' * 4 \<or>
      pixel_index g i' j' * 4 + 4 \<le> pixel_index g i j * 4" by linarith
  moreover have "pixel_index g i j * 4 + 4 \<le> 2 ^ 64" "pixel_index g i' j' * 4 + 4 \<le> 2 ^ 64"
    using pixel_index_bound(1) [of g i j] pixel_index_bound(1) [of g i' j'] assms by simp_all
  ultimately show ?thesis
    unfolding pixel_addr_index [OF assms(1,2,3)] pixel_addr_index [OF assms(1,4,5)]
    by (rule apart_offset)
qed

section \<open>kputc\<close>

lemma glyph_bit_eq:
  assumes "length glyph = 18" "i < 18" "j < 8"
  shows "glyph_bit glyph i j \<longleftrightarrow> bit (glyph ! i) (7 - j)"
proof -
  define n k where "n = i * 8 + (8 - j - 1)" and "k = 7 - j"
  have k: "k < 8" "n = k + i * 8" using assms(3) by (simp_all add: n_def k_def)
  then have n: "n div 8 = i" "n mod 8 = k" "n < 144" using assms(2) by simp_all
  have u: "unat (of_nat n :: u64) = n" using n(3) by (intro unat_of_nat_64) simp
  have "(of_nat n :: u64) \<le> 144" using n(3) by (simp add: word_le_nat_alt u)
  moreover have "unat ((of_nat n :: u64) div 8) = i" "unat ((of_nat n :: u64) mod 8) = k"
    using n(1,2) by (simp_all add: unat_div unat_mod u)
  ultimately have "glyph_bit glyph i j \<longleftrightarrow> bit (glyph ! i) k"
    using assms(1,2) unfolding glyph_bit_def n_def [symmetric] by (simp add: get_bitmap_iff bitmap_bit_def)
  then show ?thesis by (simp only: k_def)
qed

lemma draw_pixel:
  assumes "cell_ok g" "length glyph = 18" "i < 18" "j < 8"
  shows "load32 (draw_glyph g glyph m) (pixel_addr g i j) =
    (if bit (glyph ! i) (7 - j) then 0xaaaaaaaa else load32 m (pixel_addr g i j))"
proof -
  have "load32 (fold (\<lambda>p m. if glyph_bit glyph (fst p) (snd p) then store32 m (pixel_addr g (fst p) (snd p)) 0xaaaaaaaa else m)
      (List.product [0..<18] [0..<8]) m) (pixel_addr g (fst (i, j)) (snd (i, j))) =
    (if glyph_bit glyph (fst (i, j)) (snd (i, j)) then 0xaaaaaaaa else load32 m (pixel_addr g (fst (i, j)) (snd (i, j))))"
    by (rule paint_load [OF paint_uniform]) (use assms in \<open>auto intro!: pixel_apart\<close>)
  then show ?thesis
    using assms by (simp add: draw_glyph_def case_prod_unfold glyph_bit_eq)
qed

lemma draw_frame:
  assumes "\<And>i j. i < 18 \<Longrightarrow> j < 8 \<Longrightarrow> \<not> in_region (pixel_addr g i j) 4 b"
  shows "draw_glyph g glyph m b = m b"
proof -
  have "fold (\<lambda>p m. if glyph_bit glyph (fst p) (snd p) then store32 m (pixel_addr g (fst p) (snd p)) 0xaaaaaaaa else m)
      (List.product [0..<18] [0..<8]) m b = m b"
    using assms by (subst paint_bytes [OF paint_uniform]) auto
  then show ?thesis by (simp add: draw_glyph_def case_prod_unfold)
qed

lemma kputc_glyph:
  assumes "char_to_bitmap c = Some glyph"
  shows "kputc c (g, m) = (advance g, draw_glyph g glyph m)"
proof -
  have "isprint (sint c) \<noteq> 0" using char_to_bitmap_None [of c] assms by simp
  then have "c \<noteq> 10" "c \<noteq> 13" "c \<noteq> 9" by (auto simp: isprint_def)
  then show ?thesis by (simp add: kputc.simps [of c] assms)
qed

section \<open>The cursor\<close>

definition screen_cols :: "GRAPHICS \<Rightarrow> nat" where
  "screen_cols g = unat (pixels_per_scanline g) div 8"

text \<open>The position of the cursor in reading order.\<close>

definition cursor :: "GRAPHICS \<Rightarrow> nat" where
  "cursor g = unat (g_y g) * screen_cols g + unat (g_x g)"

definition char_cols :: "u8 \<Rightarrow> nat" where
  "char_cols c = (if c = 9 then 4 else 1)"

definition cursor_ok :: "GRAPHICS \<Rightarrow> bool" where
  "cursor_ok g \<longleftrightarrow> unat (g_x g) < screen_cols g"

lemma screen_cols_advance [simp]: "screen_cols (advance g) = screen_cols g"
  by (simp add: advance_def screen_cols_def Let_def)

lemma advance_cursor:
  assumes "cursor_ok g" and "cursor g + 1 < 2 ^ 32"
  shows "cursor (advance g) = cursor g + 1 \<and> cursor_ok (advance g)"
proof -
  let ?c = "screen_cols g"
  have c: "unat (pixels_per_scanline g div FONT_WIDTH) = ?c" by (simp add: screen_cols_def unat_div)
  have "?c < 2 ^ 32" using unsigned_less [of "pixels_per_scanline g", where ?'a = nat]
    by (simp add: screen_cols_def)
  with assms(1) have x: "unat (g_x g + 1) = unat (g_x g) + 1"
    by (intro trans [OF unat_add_small]) (simp_all add: cursor_ok_def)
  show ?thesis
  proof (cases "unat (g_x g) + 1 = ?c")
    case True
    then have e: "g_x g + 1 = pixels_per_scanline g div FONT_WIDTH" by (simp add: word_unat_eq_iff c x)
    have "unat (g_y g) \<le> unat (g_y g) * ?c" using True by (cases ?c) simp_all
    then have "unat (g_y g) + 1 < 2 ^ 32" using assms(2) unfolding cursor_def by linarith
    then have y: "unat (g_y g + 1) = unat (g_y g) + 1" by (intro trans [OF unat_add_small]) simp_all
    have "cursor (advance g) = (unat (g_y g) + 1) * ?c"
      by (simp add: advance_def e Let_def cursor_def y screen_cols_def)
    moreover have "cursor_ok (advance g)"
      using True by (simp add: advance_def e Let_def cursor_ok_def screen_cols_def)
    ultimately show ?thesis using True by (simp add: cursor_def algebra_simps)
  next
    case False
    then have "unat (g_x g) + 1 < ?c" using assms(1) by (simp add: cursor_ok_def)
    then have "\<not> pixels_per_scanline g div FONT_WIDTH \<le> g_x g + 1" by (simp add: word_le_nat_alt c x)
    then have "advance g = g\<lparr>g_x := g_x g + 1\<rparr>" by (simp add: advance_def Let_def)
    with False assms(1) show ?thesis
      by (simp add: cursor_def cursor_ok_def screen_cols_def x)
  qed
qed

lemma kputc_cursor:
  assumes "c = 9 \<or> isprint (sint c) \<noteq> 0" and "cursor_ok g" and "cursor g + char_cols c < 2 ^ 32"
  shows "cursor (fst (kputc c (g, m))) = cursor g + char_cols c \<and> cursor_ok (fst (kputc c (g, m)))"
proof -
  have p: "\<exists>m'. kputc c' (g', m) = (advance g', m')" if "isprint (sint c') \<noteq> 0" for c' g' m
    using that char_to_bitmap_None [of c'] by (cases "char_to_bitmap c'") (simp_all add: kputc_glyph)
  show ?thesis
  proof (cases "c = 9")
    case True
    have "isprint (sint (32 :: u8)) \<noteq> 0" by (simp add: isprint_def)
    note sp = p [OF this]
    obtain m1 where 1: "kputc 32 (g, m) = (advance g, m1)" using sp by blast
    obtain m2 where 2: "kputc 32 (advance g, m1) = (advance (advance g), m2)" using sp by blast
    obtain m3 where 3: "kputc 32 (advance (advance g), m2) = (advance (advance (advance g)), m3)"
      using sp by blast
    obtain m4 where 4: "kputc 32 (advance (advance (advance g)), m3) = (advance (advance (advance (advance g))), m4)"
      using sp by blast
    have "kputc 9 (g, m) = kputc 32 (kputc 32 (kputc 32 (kputc 32 (g, m))))"
      by (simp add: kputc.simps [of 9])
    then have "kputc 9 (g, m) = (advance (advance (advance (advance g))), m4)"
      by (simp only: 1 2 3 4)
    then show ?thesis
      using assms(2,3) True advance_cursor [of g] advance_cursor [of "advance g"]
        advance_cursor [of "advance (advance g)"] advance_cursor [of "advance (advance (advance g))"]
      by (simp add: char_cols_def)
  next
    case False
    with assms p [of c g m] advance_cursor [of g] show ?thesis by (auto simp: char_cols_def)
  qed
qed

section \<open>Strings and formats\<close>

text \<open>The text of a string object: the bytes before the first zero.\<close>

definition c_text :: "u8 list \<Rightarrow> u8 list option" where
  "c_text str = (if 0 \<in> set str then Some (takeWhile (\<lambda>c. c \<noteq> 0) str) else None)"

lemma c_text_Cons: "c_text (c # str) = (if c = 0 then Some [] else map_option ((#) c) (c_text str))"
  by (auto simp: c_text_def)

lemma kputs_text: "kputs str s = map_option (\<lambda>out. fold kputc out s) (c_text str)"
  by (induction str s rule: kputs.induct) (auto simp: c_text_Cons option.map_comp o_def, simp add: c_text_def)

text \<open>What a format and its arguments stand for.\<close>

fun expand :: "u8 list \<Rightarrow> va_arg list \<Rightarrow> u8 list option" where
  "expand [] ap = None"
| "expand (c # str) ap =
     (if c = 0 then Some []
      else if c \<noteq> 37 then map_option ((#) c) (expand str ap)
      else case str of
          [] \<Rightarrow> None
        | d # rest \<Rightarrow>
            if d \<notin> {100, 115, 120} then expand str ap
            else case ap of
                [] \<Rightarrow> None
              | Va_int v # ap' \<Rightarrow>
                  if d = 115 then None
                  else Option.bind (c_text (if d = 100 then itoa (va_int v) else hex (va_int v)))
                    (\<lambda>t. map_option ((@) t) (expand rest ap'))
              | Va_str u # ap' \<Rightarrow>
                  if d = 115 then Option.bind (c_text u) (\<lambda>t. map_option ((@) t) (expand rest ap')) else None)"

lemma kprintf_expand: "kprintf str ap s = map_option (\<lambda>out. fold kputc out s) (expand str ap)"
proof (induction str ap s rule: kprintf.induct)
  case (1 ap s)
  then show ?case by simp
next
  case (2 c str ap s)
  show ?case
  proof (cases "c = 0 \<or> c \<noteq> 37")
    case True
    with 2 show ?thesis by (auto simp: option.map_comp o_def)
  next
    case False
    then have c: "c = 37" by simp
    show ?thesis
    proof (cases str)
      case Nil
      with c show ?thesis by simp
    next
      case (Cons d rest)
      show ?thesis
      proof (cases "d \<in> {100, 115, 120}")
        case False
        with 2 c Cons show ?thesis by simp
      next
        case True
        with 2 c Cons show ?thesis
          by (cases ap; cases "hd ap")
             (auto simp: kputs_text option.map_comp o_def split: option.split Option.bind_splits)
      qed
    qed
  qed
qed

section \<open>clear_screen\<close>

lemma in_region_run:
  assumes "0 < w" and "w + 3 \<le> 2 ^ 64"
  shows "(\<exists>j<w. in_region (a + of_nat j) 4 b) \<longleftrightarrow> in_region a (w + 3) b"
proof -
  define D where "D = unat (b - a)"
  have D: "b - a = of_nat D" "D < 2 ^ 64" by (simp_all add: D_def)
  have near: "unat (b - (a + of_nat j)) = D - j" if "j \<le> D" for j
  proof -
    have "b - (a + of_nat j) = of_nat D - of_nat j" using D(1) by (simp add: algebra_simps)
    also have "\<dots> = of_nat (D - j)" using that by (simp add: of_nat_diff)
    finally have "unat (b - (a + of_nat j)) = unat (of_nat (D - j) :: u64)" by (rule arg_cong)
    also have "\<dots> = D - j" using D(2) by (intro unat_of_nat_64) linarith
    finally show ?thesis .
  qed
  show ?thesis
  proof
    assume "\<exists>j<w. in_region (a + of_nat j) 4 b"
    then obtain j where j: "j < w" "unat (b - (a + of_nat j)) < 4" by (auto simp: in_region_def)
    have "D < w + 3"
    proof (cases "j \<le> D")
      case True
      with j near show ?thesis by simp
    next
      case False
      with j show ?thesis by simp
    qed
    then show "in_region a (w + 3) b" by (simp add: in_region_def D_def)
  next
    assume "in_region a (w + 3) b"
    then have "D < w + 3" by (simp add: in_region_def D_def)
    then have "min D (w - 1) \<le> D" "D - min D (w - 1) < 4" "min D (w - 1) < w"
      using assms(1) by (auto simp: min_def)
    with near show "\<exists>j<w. in_region (a + of_nat j) 4 b" by (auto simp: in_region_def)
  qed
qed

lemma clear_screen_bytes:
  assumes "uniform color c" and "clear_screen color (g, m) = (g', m')" and "0 < g_width g"
  shows "m' b = (if \<exists>i<unat (g_height g). in_region (framebuffer_base g + of_nat i * ucast (pixels_per_scanline g))
      (unat (g_width g) + 3) b then c else m b)"
proof -
  let ?w = "unat (g_width g)" and ?h = "unat (g_height g)"
  let ?a = "\<lambda>p. framebuffer_base g + of_nat (fst p) * ucast (pixels_per_scanline g) + of_nat (snd p)"
  have w: "0 < ?w" using assms(3) by (simp add: unat_gt_0 word_less_nat_alt)
  have "m' = fold (\<lambda>p m. store32 m (?a p) color) (List.product [0..<?h] [0..<?w]) m"
    using assms(2) by (auto simp: clear_screen_def Let_def case_prod_unfold)
  then have "m' b = (if \<exists>p\<in>set (List.product [0..<?h] [0..<?w]). in_region (?a p) 4 b then c else m b)"
    using paint_bytes [OF assms(1), of "\<lambda>_. True" ?a] by simp
  also have "(\<exists>p\<in>set (List.product [0..<?h] [0..<?w]). in_region (?a p) 4 b) \<longleftrightarrow>
      (\<exists>i<?h. \<exists>j<?w. in_region (framebuffer_base g + of_nat i * ucast (pixels_per_scanline g) + of_nat j) 4 b)"
    by fastforce
  also have "\<dots> \<longleftrightarrow> (\<exists>i<?h. in_region (framebuffer_base g + of_nat i * ucast (pixels_per_scanline g)) (?w + 3) b)"
    using in_region_run [OF w] unsigned_less [of "g_width g", where ?'a = nat] by simp
  finally show ?thesis .
qed

section \<open>Properties\<close>

lemma kputs_text_cursor:
  assumes "list_all (\<lambda>c. c = 9 \<or> isprint (sint c) \<noteq> 0) str" and "cursor_ok g"
    and "cursor g + sum_list (map char_cols str) < 2 ^ 32"
  shows "cursor (fst (fold kputc str (g, m))) = cursor g + sum_list (map char_cols str) \<and>
    cursor_ok (fst (fold kputc str (g, m)))"
  using assms
proof (induction str arbitrary: g m)
  case Nil
  then show ?case by simp
next
  case (Cons c str)
  obtain g' m' where k: "kputc c (g, m) = (g', m')" by (metis surj_pair)
  have "cursor g' = cursor g + char_cols c \<and> cursor_ok g'"
    using kputc_cursor [of c g m] Cons.prems by (simp add: k)
  with Cons.IH [of g' m'] Cons.prems show ?case by (simp add: k)
qed

text \<open>\<open>itoa\<close> writes the decimal numeral of its argument, zero-terminated, for every number
  below \<open>10 ^ 19\<close>. From \<open>10 ^ 19\<close> on the first of the twenty digits is 0 instead of 1: the modulus
  \<open>j * 10\<close> of that digit does not fit in 64 bits.\<close>

lemma itoa_numeral:
  "itoa num = (if num < 10 ^ 19 then decimal (unat num) @ replicate (21 - length (decimal (unat num))) 0
     else 48 # tl (decimal (unat num)) @ [0])"
  using itoa_decimal [of num] itoa_decimal_big [of num] by (simp only: not_less split: if_split) blast

text \<open>C33: The numerals that \<open>hex\<close> and \<open>hexbyte\<close> write read back as the number.\<close>

theorem hex_round_trip:
  "read_hex (hex num) = unat num \<and> read_hex (hexbyte byte) = unat byte"
  by (simp only: read_hex_hex read_hex_hexbyte simp_thms)

text \<open>C32: For a printable character in a cell of the screen, \<open>kputc\<close> writes the colour at
  exactly the pixels whose bit is set in the glyph, leftmost pixel in the highest bit; the
  other pixels of the cell and every byte outside it keep their value.\<close>

theorem kputc_draws:
  assumes "char_to_bitmap c = Some glyph" and "cell_ok g" and "kputc c (g, m) = (g', m')"
  shows "(\<forall>i<18. \<forall>j<8. load32 m' (pixel_addr g i j) =
      (if bit (glyph ! i) (7 - j) then 0xaaaaaaaa else load32 m (pixel_addr g i j))) \<and>
    (\<forall>b. (\<forall>i<18. \<forall>j<8. \<not> in_region (pixel_addr g i j) 4 b) \<longrightarrow> m' b = m b)"
proof -
  have m': "m' = draw_glyph g glyph m" using kputc_glyph [OF assms(1)] assms(3) by simp
  show ?thesis
    unfolding m' using draw_pixel [OF assms(2) char_to_bitmap_length [OF assms(1)]] draw_frame by blast
qed

definition ex_graphics :: GRAPHICS where
  "ex_graphics = \<lparr>framebuffer_base = 65536, framebuffer_size = 4096, g_width = 16, g_height = 36,
     pixels_per_scanline = 16, g_x = 1, g_y = 1\<rparr>"

theorem kputc_draws_witness:
  "load32 (snd (kputc 45 (ex_graphics, \<lambda>_. 0))) (pixel_addr ex_graphics 10 7) = 0 \<and>
   load32 (snd (kputc 45 (ex_graphics, \<lambda>_. 0))) (pixel_addr ex_graphics 10 4) = 0xaaaaaaaa"
proof -
  obtain g' m' where k: "kputc 45 (ex_graphics, \<lambda>_. 0) = (g', m')" by (metis surj_pair)
  have c: "char_to_bitmap 45 = Some ascii45" by code_simp
  have ok: "cell_ok ex_graphics" by (simp add: cell_ok_def ex_graphics_def)
  have "\<not> bit (ascii45 ! 10) (7 - 7)" "bit (ascii45 ! 10) (7 - 4)" by code_simp+
  moreover have "load32 (\<lambda>_. 0) a = 0" for a by (rule bit_word_eqI) (simp add: bit_load_le)
  ultimately show ?thesis using kputc_draws [OF c ok k] by (simp add: k)
qed

text \<open>Printing a text of printable characters and tabs moves the cursor forward, in reading
  order, by one column per character and four per tab, and leaves it in a column of the screen.\<close>

lemma kputs_cursor:
  assumes "list_all (\<lambda>c. c = 9 \<or> isprint (sint c) \<noteq> 0) str" and "cursor_ok g"
    and "cursor g + sum_list (map char_cols str) < 2 ^ 32"
  shows "\<exists>g' m'. kputs (str @ [0]) (g, m) = Some (g', m') \<and>
    cursor g' = cursor g + sum_list (map char_cols str) \<and> cursor_ok g'"
proof -
  have "0 \<notin> set str" using assms(1) by (auto simp: list_all_iff isprint_def)
  then have "takeWhile (\<lambda>c. c \<noteq> 0) (str @ [0]) = str" by (subst takeWhile_append2) auto
  then have "kputs (str @ [0]) (g, m) = Some (fold kputc str (g, m))"
    by (simp add: kputs_text c_text_def)
  with kputs_text_cursor [OF assms] show ?thesis by (metis prod.collapse)
qed

lemma kputs_cursor_witness:
  "\<exists>g' m'. kputs ([79, 9, 75] @ [0]) (ex_graphics, \<lambda>_. 0) = Some (g', m') \<and> cursor g' = 9"
proof -
  have "\<exists>g' m'. kputs ([79, 9, 75] @ [0]) (ex_graphics, \<lambda>_. 0) = Some (g', m') \<and>
      cursor g' = cursor ex_graphics + sum_list (map char_cols [79, 9, 75]) \<and> cursor_ok g'"
    by (rule kputs_cursor)
      (simp_all add: isprint_def cursor_ok_def cursor_def screen_cols_def char_cols_def ex_graphics_def)
  moreover have "cursor ex_graphics + sum_list (map char_cols [79, 9, 75]) = 9"
    by (simp add: cursor_def screen_cols_def char_cols_def ex_graphics_def)
  ultimately show ?thesis by metis
qed




end
