(* ===== verification/Acpi.thy ===== *)
theory Acpi
  imports Machine CString
begin

text \<open>
  \<open>dev/acpi/acpi.c\<close>: the search of a table in the XSDT and the set-up of the local APIC timer.
  Tables are read from memory at the offsets of the packed structs of \<open>acpi.h\<close>: a
  \<open>ACPI_SDT_HEADER\<close> has 36 bytes with its length at 4, the entries of the XSDT follow it, and
  the local APIC address of the MADT is at 36.
\<close>

section \<open>acpi_get_table\<close>

abbreviation SIZEOF_ACPI_SDT_HEADER :: u64 where "SIZEOF_ACPI_SDT_HEADER \<equiv> 36"

definition sdt_len :: "mem \<Rightarrow> u64 \<Rightarrow> u32" where
  "sdt_len m header = load32 m (header + 4)"

definition xsdt_entry :: "mem \<Rightarrow> u64 \<Rightarrow> nat \<Rightarrow> u64" where
  "xsdt_entry m xsdt i = load64 m (xsdt + SIZEOF_ACPI_SDT_HEADER + of_nat i * 8)"

fun find_table :: "mem \<Rightarrow> u64 \<Rightarrow> (nat \<Rightarrow> u8) \<Rightarrow> nat \<Rightarrow> nat \<Rightarrow> u64" where
  "find_table m xsdt name i 0 = 0"
| "find_table m xsdt name i (Suc k) =
     (let header = xsdt_entry m xsdt i
      in if strncmp (bytes_at m header) name 4 = 0 then header
         else find_table m xsdt name (Suc i) k)"

definition acpi_get_table :: "mem \<Rightarrow> u64 \<Rightarrow> (nat \<Rightarrow> u8) \<Rightarrow> u64" where
  "acpi_get_table m xsdt name =
     (let entries = (ucast (sdt_len m xsdt) - SIZEOF_ACPI_SDT_HEADER) div 8
      in find_table m xsdt name 0 (unat entries))"

section \<open>acpi_set_apic_timer\<close>

abbreviation APIC_REGISTER_SPURIOUS :: u64 where "APIC_REGISTER_SPURIOUS \<equiv> 0xf0"
abbreviation APIC_REGISTER_LVT_TIMER :: u64 where "APIC_REGISTER_LVT_TIMER \<equiv> 0x320"
abbreviation APIC_REGISTER_TIMER_ICR :: u64 where "APIC_REGISTER_TIMER_ICR \<equiv> 0x380"
abbreviation APIC_REGISTER_TIMER_DIV :: u64 where "APIC_REGISTER_TIMER_DIV \<equiv> 0x3e0"

text \<open>\<open>apic_base\<close> is a \<open>uint32_t*\<close>, so adding a register number steps four bytes each.\<close>

definition apic_reg :: "u64 \<Rightarrow> u64 \<Rightarrow> u64" where
  "apic_reg apic_base r = apic_base + r * 4"

text \<open>
  \<open>while (inb(0x61) & 0x20 == 0);\<close> is \<open>inb(0x61) & (0x20 == 0)\<close>: the equality binds tighter.
\<close>

function wait_pit :: "hardware \<Rightarrow> machine \<Rightarrow> machine" where
  "wait_pit hw s =
     (let (v, s') = inb hw 0x61 s
      in if ucast v AND (of_bool ((0x20 :: u32) = 0) :: u32) \<noteq> 0 then wait_pit hw s' else s')"
  by pat_completeness auto

termination
  by (relation "{}") simp_all

definition timer_count :: "u32 \<Rightarrow> u32 \<Rightarrow> u32" where
  "timer_count tmp0 int_per_second =
     ucast (drop_bit 4 ((ucast (push_bit 4 (0xffffffff - tmp0 + 1) :: u32) * 100 :: u64)
       div scast int_per_second))"

text \<open>The result is \<open>None\<close> where the division by \<open>int_per_second\<close> faults.\<close>

definition acpi_set_apic_timer :: "hardware \<Rightarrow> u64 \<Rightarrow> u32 \<Rightarrow> machine \<Rightarrow> machine option" where
  "acpi_set_apic_timer hw madt int_per_second s =
     (let apic_base = ucast (load32 (mem s) (madt + 36));
          s = mmio_write32 (apic_reg apic_base APIC_REGISTER_SPURIOUS) 0x27 s;
          s = mmio_write32 (apic_reg apic_base APIC_REGISTER_LVT_TIMER) 0x20 s;
          s = mmio_write32 (apic_reg apic_base APIC_REGISTER_LVT_TIMER) 0x21 s;
          s = mmio_write32 (apic_reg apic_base APIC_REGISTER_TIMER_DIV) 0x03 s;
          (v, s) = inb hw 0x61 s;
          s = outb ((v AND 0xfd) OR 1) 0x61 s;
          s = outb 0xb2 0x43 s;
          s = outb 0x9b 0x42 s;
          s = io_wait s;
          s = outb 0x2e 0x42 s;
          (v, s) = inb hw 0x61 s;
          tmp = v AND 0xfe;
          s = outb tmp 0x61 s;
          s = outb (tmp OR 1) 0x61 s;
          s = mmio_write32 (apic_reg apic_base APIC_REGISTER_TIMER_ICR) (- 1) s;
          s = wait_pit hw s;
          s = mmio_write32 (apic_reg apic_base APIC_REGISTER_LVT_TIMER) 0x10000 s;
          (tmp0, s) = mmio_read32 hw (apic_reg apic_base APIC_REGISTER_TIMER_ICR) s
      in if int_per_second = 0 then None
         else let tmp1 = timer_count tmp0 int_per_second
              in if tmp1 \<ge> 0x10
                 then Some (mmio_write32 (apic_reg apic_base APIC_REGISTER_LVT_TIMER) (0x20 OR 0x20000)
                        (mmio_write32 (apic_reg apic_base APIC_REGISTER_TIMER_ICR) tmp1 s))
                 else Some s)"

section \<open>Lemmas\<close>

lemma wait_pit_once: "wait_pit hw s = snd (inb hw 0x61 s)"
  by (simp add: case_prod_unfold)

declare wait_pit.simps [simp del]

lemma find_table_spec:
  "find_table m xsdt name i k =
     (case filter (\<lambda>j. strncmp (bytes_at m (xsdt_entry m xsdt j)) name 4 = 0) [i..<i + k] of
        [] \<Rightarrow> 0 | j # _ \<Rightarrow> xsdt_entry m xsdt j)"
proof (induction m xsdt name i k rule: find_table.induct)
  case (2 m xsdt name i k)
  have "[i..<i + Suc k] = i # [Suc i..<Suc i + k]" by (simp add: upt_conv_Cons)
  with 2 show ?case by (simp add: Let_def)
qed simp

lemma unat_scast_pos: "ips < 2 ^ 31 \<Longrightarrow> unat (scast (ips :: u32) :: u64) = unat ips"
proof -
  assume "ips < 2 ^ 31"
  then have u: "unat ips < 2 ^ 31" by (simp add: word_less_nat_alt)
  then have "take_bit 31 ips = ips"
    by (simp add: word_unat_eq_iff unsigned_take_bit_eq take_bit_nat_eq_self)
  then have b: "n < 31" if "bit ips n" for n using that by (metis bit_take_bit_iff)
  have "(scast ips :: u64) = ucast ips"
    by (rule bit_word_eqI) (auto simp: bit_simps min_def dest: b)
  then show ?thesis
    using unsigned_less [of ips, where ?'a = nat] by (simp add: unsigned_ucast_eq take_bit_nat_eq_self)
qed

lemma timer_count_full: "7 \<le> ips \<Longrightarrow> ips < 2 ^ 31 \<Longrightarrow> timer_count (- 1) ips < 16"
proof -
  assume a: "7 \<le> ips" "ips < 2 ^ 31"
  have "unat (1600 div scast ips :: u64) = 1600 div unat ips"
    by (simp add: unat_div unat_scast_pos [OF a(2)])
  also have "\<dots> \<le> 1600 div 7" using a(1) by (intro div_le_mono2) (simp_all add: word_le_nat_alt)
  finally have "unat (1600 div scast ips :: u64) \<le> 228" by simp
  then have "unat (1600 div scast ips :: u64) div 16 \<le> 228 div 16" by (rule div_le_mono)
  then have "unat (drop_bit 4 (1600 div scast ips :: u64)) \<le> 14"
    by (simp only: unat_drop_bit_eq drop_bit_eq_div) (simp add: unat_div)
  then have "unat (timer_count (- 1) ips) < 16"
    by (simp add: timer_count_def unsigned_ucast_eq take_bit_nat_eq_self)
  then show ?thesis by (simp add: word_less_nat_alt)
qed

lemma apic_reg_apart:
  assumes "unat r < 2 ^ 10" "unat r' < 2 ^ 10" "r \<noteq> r'"
  shows "apart (apic_reg b r) 4 (apic_reg b r') 4"
proof -
  have "apart (b + of_nat (unat r * 4)) 4 (b + of_nat (unat r' * 4)) 4"
    using assms by (intro apart_offset) (auto simp: word_unat_eq_iff)
  then show ?thesis by (simp add: apic_reg_def)
qed

definition signature_at :: "mem \<Rightarrow> u64 \<Rightarrow> (nat \<Rightarrow> u8) \<Rightarrow> bool" where
  "signature_at m a name \<longleftrightarrow> (\<forall>k<4. m (a + of_nat k) = name k)"

definition xsdt_entries :: "mem \<Rightarrow> u64 \<Rightarrow> nat" where
  "xsdt_entries m xsdt = unat ((ucast (sdt_len m xsdt) - SIZEOF_ACPI_SDT_HEADER) div 8)"

lemma signature_strncmp:
  "(\<forall>k<4. name k \<noteq> 0) \<Longrightarrow> strncmp (bytes_at m a) name 4 = 0 \<longleftrightarrow> signature_at m a name"
proof
  assume z: "\<forall>k<4. name k \<noteq> 0" and "strncmp (bytes_at m a) name 4 = 0"
  then have e: "\<forall>j<4. (\<forall>l<j. bytes_at m a l \<noteq> 0) \<longrightarrow> bytes_at m a j = name j"
    by (simp add: strncmp_0_iff)
  have "k < 4 \<longrightarrow> bytes_at m a k = name k" for k
  proof (induction k rule: less_induct)
    case (less k)
    with z e show ?case by (metis dual_order.strict_trans)
  qed
  then show "signature_at m a name" by (simp add: signature_at_def bytes_at_def)
next
  assume "signature_at m a name"
  then show "strncmp (bytes_at m a) name 4 = 0"
    by (simp add: strncmp_0_iff signature_at_def bytes_at_def)
qed

lemma apic_regs:
  "apic_reg b APIC_REGISTER_SPURIOUS = b + 0x3c0" "apic_reg b APIC_REGISTER_LVT_TIMER = b + 0xc80"
  "apic_reg b APIC_REGISTER_TIMER_ICR = b + 0xe00" "apic_reg b APIC_REGISTER_TIMER_DIV = b + 0xf80"
  by (simp_all add: apic_reg_def)

lemma icr_read_back:
  "load32 (store32 (store32 m (b + 0xe00) v) (b + 0xc80) w) (b + 0xe00) = v"
  using apic_reg_apart [of APIC_REGISTER_LVT_TIMER APIC_REGISTER_TIMER_ICR b]
  by (simp add: apic_regs mem_simps)

section \<open>Properties\<close>

text \<open>C34: \<open>acpi_get_table\<close> returns the first table of the XSDT whose signature is the four
  letters asked for, and 0 when none of the entries that the length announces has it.\<close>

theorem acpi_get_table_first:
  assumes "\<forall>k<4. name k \<noteq> 0"
  shows "acpi_get_table m xsdt name =
    (case filter (\<lambda>j. signature_at m (xsdt_entry m xsdt j) name) [0..<xsdt_entries m xsdt] of
       [] \<Rightarrow> 0 | j # _ \<Rightarrow> xsdt_entry m xsdt j)"
  using assms by (simp add: acpi_get_table_def find_table_spec signature_strncmp xsdt_entries_def)

text \<open>C35: The trace of \<open>acpi_set_apic_timer\<close> on a local APIC that reads back what was written,
  from seven interrupts per second on: every register is at four times its offset, port
  \<open>0x61\<close> is read once to wait for the PIT, and the timer stays masked, because the count left
  over is measured as 1 and \<open>tmp1\<close> is below the sanity bound.\<close>

theorem acpi_timer_trace:
  assumes "quiet hw" and "7 \<le> int_per_second" and "int_per_second < 2 ^ 31"
    and "b = ucast (load32 (mem s) (madt + 36))"
    and "v = (\<lambda>n. ucast (hw_port hw (tick s + n) 0x61))"
  shows "map_option events (acpi_set_apic_timer hw madt int_per_second s) = Some (events s @
    [Mmio_write (b + 0x3c0) 0x27, Mmio_write (b + 0xc80) 0x20, Mmio_write (b + 0xc80) 0x21,
     Mmio_write (b + 0xf80) 3,
     Inb 0x61 (v 0), Outb (v 0 AND 0xfd OR 1) 0x61, Outb 0xb2 0x43, Outb 0x9b 0x42, Outb 0 128,
     Outb 0x2e 0x42, Inb 0x61 (v 1), Outb (v 1 AND 0xfe) 0x61, Outb (v 1 AND 0xfe OR 1) 0x61,
     Mmio_write (b + 0xe00) 0xffffffff, Inb 0x61 (v 2), Mmio_write (b + 0xc80) 0x10000])"
proof -
  have "int_per_second \<noteq> 0" using assms(2) by auto
  moreover have "\<not> 16 \<le> timer_count (- 1) int_per_second"
    using timer_count_full [OF assms(2,3)] by simp
  ultimately show ?thesis
    unfolding acpi_set_apic_timer_def Let_def assms(4) [symmetric] wait_pit_once apic_regs
    using assms(1) by (simp add: assms(5) inb_def Let_def mmio_read_quiet mmio_write32_def outb_def io_wait_def icr_read_back)
qed

definition ex_acpi :: machine where
  "ex_acpi = \<lparr>mem = (\<lambda>_. 0)(0x1004 := 52, 0x1024 := 0x20, 0x1025 := 0x10, 0x102c := 0x40, 0x102d := 0x10,
       0x1020 := 70, 0x1040 := 65, 0x1041 := 80, 0x1042 := 73, 0x1043 := 67),
     msrs = (\<lambda>_. (0, 0)), tick = 0, events = []\<rparr>"

theorem acpi_get_table_first_witness:
  "acpi_get_table (mem ex_acpi) 0x1000 (cstr ''APIC'') = 0x1040"
proof -
  have n: "\<forall>k<4. cstr ''APIC'' k \<noteq> 0"
  proof -
    have "\<forall>k\<in>set [0..<4]. cstr ''APIC'' k \<noteq> 0" by code_simp
    then show ?thesis by simp
  qed
  have "filter (\<lambda>j. \<forall>k\<in>set [0..<4]. mem ex_acpi (xsdt_entry (mem ex_acpi) 0x1000 j + of_nat k) = cstr ''APIC'' k)
      [0..<xsdt_entries (mem ex_acpi) 0x1000] = [1]" by code_simp
  then have f: "filter (\<lambda>j. signature_at (mem ex_acpi) (xsdt_entry (mem ex_acpi) 0x1000 j) (cstr ''APIC''))
      [0..<xsdt_entries (mem ex_acpi) 0x1000] = [1]" by (simp add: signature_at_def atLeast0LessThan lessThan_def)
  have "xsdt_entry (mem ex_acpi) 0x1000 1 = 0x1040" by code_simp
  then show ?thesis unfolding acpi_get_table_first [OF n] f by simp
qed

theorem acpi_timer_trace_witness:
  "length (events (the (acpi_set_apic_timer \<lparr>hw_mem = (\<lambda>n m. m), hw_port = (\<lambda>n p. 0xff)\<rparr> 0x1000 100 ex_acpi))) = 16"
proof -
  have q: "quiet \<lparr>hw_mem = (\<lambda>n m. m), hw_port = (\<lambda>n p. 0xff)\<rparr>" by (simp add: quiet_def)
  obtain s' where "acpi_set_apic_timer \<lparr>hw_mem = (\<lambda>n m. m), hw_port = (\<lambda>n p. 0xff)\<rparr> 0x1000 100 ex_acpi = Some s'"
    "length (events s') = length (events ex_acpi) + 16"
    using acpi_timer_trace [OF q _ _ refl refl, where int_per_second = 100 and s = ex_acpi and madt = "0x1000"] by auto
  then show ?thesis by (simp add: ex_acpi_def)
qed

end
