(* ===== verification/Pcie.thy ===== *)
theory Pcie
  imports Machine
begin

text \<open>
  \<open>dev/pci/pcie.c\<close>: packing data into the static 64-byte buffer, the table of configuration
  space addresses built from the MCFG, and the read of a function's header.
\<close>

section \<open>pcie_concat_split_data\<close>

text \<open>
  The buffer \<open>ret\<close> keeps its contents between calls. A write past its end, or a shift by 64
  bits or more, has no defined result in C: \<open>None\<close>. The pairs (\<open>size\<close>, \<open>arg\<close>) are the variable
  arguments.
\<close>

fun split_bytes :: "u64 \<Rightarrow> nat \<Rightarrow> nat \<Rightarrow> nat \<Rightarrow> u8 list \<Rightarrow> (nat \<times> u8 list) option" where
  "split_bytes arg j 0 ret_i ret = Some (ret_i, ret)"
| "split_bytes arg j (Suc k) ret_i ret =
     (if ret_i \<ge> 64 \<or> j \<ge> 8 then None
      else split_bytes arg (Suc j) k (Suc ret_i) (ret[ret_i := ucast (drop_bit (j * 8) arg AND 0xff)]))"

fun split_args :: "(u64 \<times> u64) list \<Rightarrow> nat \<Rightarrow> u8 list \<Rightarrow> (nat \<times> u8 list) option" where
  "split_args [] ret_i ret = Some (ret_i, ret)"
| "split_args ((sz, arg) # ap) ret_i ret =
     (case split_bytes arg 0 (unat sz) ret_i ret of
        None \<Rightarrow> None
      | Some (ret_i, ret) \<Rightarrow> split_args ap ret_i ret)"

definition pcie_concat_split_data :: "(u64 \<times> u64) list \<Rightarrow> u8 list \<Rightarrow> u8 list option" where
  "pcie_concat_split_data ap ret = map_option snd (split_args ap 0 ret)"

section \<open>pcie_get_config_space_addrs\<close>

text \<open>
  An entry of the MCFG has 16 bytes from offset 44 on: the base address at 0, the first and
  the last bus at 10 and 11. The index is an 8-bit variable.
\<close>

definition mcfg_entry :: "u64 \<Rightarrow> nat \<Rightarrow> u64" where
  "mcfg_entry mcfg i = mcfg + 44 + of_nat i * 16"

definition mcfg_base :: "mem \<Rightarrow> u64 \<Rightarrow> u64" where "mcfg_base m e = load64 m e"
definition mcfg_start :: "mem \<Rightarrow> u64 \<Rightarrow> u8" where "mcfg_start m e = m (e + 10)"
definition mcfg_end :: "mem \<Rightarrow> u64 \<Rightarrow> u8" where "mcfg_end m e = m (e + 11)"

definition put_addr :: "u64 \<Rightarrow> u8 \<times> u64 list \<Rightarrow> u8 \<times> u64 list" where
  "put_addr a s = (fst s + 1, (snd s)[unat (fst s) := a])"

definition put_function :: "u64 \<Rightarrow> nat \<Rightarrow> nat \<Rightarrow> nat \<Rightarrow> u8 \<times> u64 list \<Rightarrow> u8 \<times> u64 list" where
  "put_function base j k l =
     put_addr (base + push_bit 20 (of_nat j) + push_bit 15 (of_nat k) + push_bit 12 (of_nat l))"

definition put_bus :: "u64 \<Rightarrow> nat \<Rightarrow> u8 \<times> u64 list \<Rightarrow> u8 \<times> u64 list" where
  "put_bus base j = fold (\<lambda>k. fold (\<lambda>l. put_function base j k l) [0..<8]) [0..<32]"

definition put_segment :: "mem \<Rightarrow> u64 \<Rightarrow> u8 \<times> u64 list \<Rightarrow> u8 \<times> u64 list" where
  "put_segment m e = fold (put_bus (mcfg_base m e)) [unat (mcfg_start m e)..<unat (mcfg_end m e)]"

definition mcfg_entries :: "mem \<Rightarrow> u64 \<Rightarrow> nat" where
  "mcfg_entries m mcfg = unat ((ucast (load32 m (mcfg + 4)) - 36 - 8) div 16 :: u64)"

definition pcie_get_config_space_addrs :: "mem \<Rightarrow> u64 \<Rightarrow> u64 list" where
  "pcie_get_config_space_addrs m mcfg =
     snd (fold (\<lambda>i. put_segment m (mcfg_entry mcfg i)) [0..<mcfg_entries m mcfg] (0, replicate 0xfff 0))"

section \<open>pcie_read_config_space_header\<close>

record PCIE_CONFIGURATION_SPACE_HEADER =
  vendor_id :: u16
  device_id :: u16
  command :: u16
  status :: u16
  rev_id :: u8
  prog_if :: u8
  pci_subclass :: u8
  base_class :: u8
  cache_line_size :: u8
  latency_timer :: u8
  header_type :: u8
  bist :: u8
  type_specific0 :: "u8 list"
  capabilities_ptr :: u8
  type_specific1 :: "u8 list"
  interrupt_line :: u8
  interrupt_pin :: u8
  type_specific2 :: "u8 list"

text \<open>The struct at address \<open>a\<close>, field by field in its packed layout.\<close>

definition load_header :: "mem \<Rightarrow> u64 \<Rightarrow> PCIE_CONFIGURATION_SPACE_HEADER" where
  "load_header m a = \<lparr>vendor_id = load16 m a, device_id = load16 m (a + 2),
     command = load16 m (a + 4), status = load16 m (a + 6),
     rev_id = m (a + 8), prog_if = m (a + 9), pci_subclass = m (a + 10), base_class = m (a + 11),
     cache_line_size = m (a + 12), latency_timer = m (a + 13), header_type = m (a + 14), bist = m (a + 15),
     type_specific0 = map (\<lambda>i. m (a + 16 + of_nat i)) [0..<36], capabilities_ptr = m (a + 52),
     type_specific1 = map (\<lambda>i. m (a + 53 + of_nat i)) [0..<7],
     interrupt_line = m (a + 60), interrupt_pin = m (a + 61),
     type_specific2 = map (\<lambda>i. m (a + 62 + of_nat i)) [0..<2]\<rparr>"

text \<open>The local \<open>ret\<close> as an object of its own, at address 0 of a separate memory that is zero.\<close>

primrec read_words :: "hardware \<Rightarrow> u64 \<Rightarrow> nat \<Rightarrow> mem \<times> machine \<Rightarrow> mem \<times> machine" where
  "read_words hw addr 0 rs = rs"
| "read_words hw addr (Suc i) rs =
     (let (ret, s) = read_words hw addr i rs;
          (v, s) = mmio_read32 hw (addr + of_nat i * 4) s
      in (store32 ret (of_nat i * 4) v, s))"

definition pcie_read_config_space_header ::
    "hardware \<Rightarrow> u64 \<Rightarrow> machine \<Rightarrow> PCIE_CONFIGURATION_SPACE_HEADER \<times> machine" where
  "pcie_read_config_space_header hw addr s =
     (let (ret, s) = read_words hw addr (64 div 4) (\<lambda>_. 0, s) in (load_header ret 0, s))"

section \<open>Packing\<close>

definition le_bytes :: "u64 \<Rightarrow> u64 \<Rightarrow> u8 list" where
  "le_bytes sz arg = map (\<lambda>j. ucast (drop_bit (j * 8) arg)) [0..<unat sz]"

lemma ucast_and_255: "(ucast (w AND 0xff :: u64) :: u8) = ucast w"
  by (rule bit_word_eqI) (simp add: bit_ucast_iff bit_defs bit_take_bit_iff)

lemma take_Suc_update: "i < length xs \<Longrightarrow> take (Suc i) (xs[i := x]) = take i xs @ [x]"
  by (simp add: take_Suc_conv_app_nth take_update_swap list_update_append min_def)

lemma split_bytes_ok:
  "j + k \<le> 8 \<Longrightarrow> ret_i + k \<le> 64 \<Longrightarrow> length ret = 64 \<Longrightarrow>
    split_bytes arg j k ret_i ret = Some (ret_i + k,
      take ret_i ret @ map (\<lambda>j. ucast (drop_bit (j * 8) arg)) [j..<j + k] @ drop (ret_i + k) ret)"
proof (induction arg j k ret_i ret rule: split_bytes.induct)
  case (1 arg j ret_i ret)
  then show ?case by simp
next
  case (2 arg j k ret_i ret)
  then have "[j..<j + Suc k] = j # [Suc j..<Suc j + k]" by (simp add: upt_conv_Cons)
  with 2 show ?case
    by (simp add: ucast_and_255 take_Suc_update del: upt_Suc)
qed

lemma split_args_ok:
  "list_all (\<lambda>(sz, arg). sz \<le> 8) ap \<Longrightarrow> ret_i + sum_list (map (unat \<circ> fst) ap) \<le> 64 \<Longrightarrow> length ret = 64 \<Longrightarrow>
    split_args ap ret_i ret = Some (ret_i + sum_list (map (unat \<circ> fst) ap),
      take ret_i ret @ concat (map (\<lambda>(sz, arg). le_bytes sz arg) ap)
      @ drop (ret_i + sum_list (map (unat \<circ> fst) ap)) ret)"
proof (induction ap ret_i ret rule: split_args.induct)
  case (1 ret_i ret)
  then show ?case by simp
next
  case (2 sz arg ap ret_i ret)
  let ?ret = "take ret_i ret @ le_bytes sz arg @ drop (ret_i + unat sz) ret"
  have "unat sz \<le> 8" using 2(2) by (simp add: word_le_nat_alt)
  then have b: "split_bytes arg 0 (unat sz) ret_i ret = Some (ret_i + unat sz, ?ret)"
    using split_bytes_ok [of 0 "unat sz" ret_i ret arg] 2(3,4) by (simp add: le_bytes_def)
  have l: "length ?ret = 64" using 2(3,4) by (simp add: le_bytes_def)
  have "take (ret_i + unat sz) ?ret = take ret_i ret @ le_bytes sz arg"
    using 2(3,4) by (simp add: le_bytes_def)
  moreover have "drop (ret_i + (unat sz + n)) ?ret = drop (ret_i + (unat sz + n)) ret" for n
    using 2(3,4) by (simp add: le_bytes_def add.commute add.left_commute)
  ultimately show ?case
    using 2(1) [OF b refl] 2(2,3) l by (simp add: b add.assoc)
qed

section \<open>Configuration space addresses\<close>

lemma fold_concat: "fold f (concat xss) s = fold (fold f) xss s"
  by (induction xss arbitrary: s) simp_all

lemma concat_blocks: "concat (map (\<lambda>k. map (\<lambda>l. h (8 * k + l)) [0..<8]) [0..<n]) = map h [0..<8 * n]"
proof (induction n)
  case (Suc n)
  have "[0..<8 * Suc n] = [0..<8 * n + 8]" by (simp add: add.commute)
  also have "\<dots> = [0..<8 * n] @ [8 * n..<8 * n + 8]" by (rule upt_add_eq_append) simp
  also have "[8 * n..<8 * n + 8] = map (\<lambda>l. 8 * n + l) [0..<8]" by (simp add: upt_rec)
  finally show ?case using Suc by (simp add: o_def)
qed simp

lemma fold_put_addr:
  "i + length as \<le> 256 \<Longrightarrow> length arr \<ge> 256 \<Longrightarrow>
    fold put_addr as (of_nat i, arr) = (of_nat (i + length as), take i arr @ as @ drop (i + length as) arr)"
proof (induction as arbitrary: i arr)
  case (Cons a as)
  then have i: "i < 256" by simp
  then have "unat (of_nat i :: u8) = i" by simp
  then have "fold put_addr (a # as) (of_nat i, arr) = fold put_addr as (of_nat (Suc i), arr[i := a])"
    by (simp add: put_addr_def add.commute)
  also have "\<dots> = (of_nat (Suc i + length as), take (Suc i) (arr[i := a]) @ as @ drop (Suc i + length as) (arr[i := a]))"
    using Cons.prems by (intro Cons.IH) simp_all
  finally show ?case
    using i Cons.prems by (simp add: take_Suc_update)
qed simp

lemma put_bus_eq:
  assumes "length arr \<ge> 256"
  shows "put_bus base j (0, arr) =
    (0, map (\<lambda>n. base + push_bit 20 (of_nat j) + push_bit 12 (of_nat n)) [0..<256] @ drop 256 arr)"
proof -
  let ?h = "\<lambda>n. base + push_bit 20 (of_nat j) + push_bit 12 (of_nat n) :: u64"
  have "put_function base j k l = put_addr (?h (8 * k + l))" for k l
    by (simp add: put_function_def push_bit_eq_mult algebra_simps)
  then have "put_bus base j s = fold put_addr (concat (map (\<lambda>k. map (\<lambda>l. ?h (8 * k + l)) [0..<8]) [0..<32])) s" for s
    by (simp add: put_bus_def fold_concat fold_map o_def del: upt_Suc)
  also have "concat (map (\<lambda>k. map (\<lambda>l. ?h (8 * k + l)) [0..<8]) [0..<32]) = map ?h [0..<256]"
    using concat_blocks [of ?h 32] by simp
  finally have "put_bus base j (of_nat 0, arr) = fold put_addr (map ?h [0..<256]) (of_nat 0, arr)" .
  also have "\<dots> = (of_nat (0 + 256), take 0 arr @ map ?h [0..<256] @ drop (0 + 256) arr)"
    using fold_put_addr [of 0 "map ?h [0..<256]" arr] assms by simp
  finally show ?thesis by simp
qed

definition bus_fill :: "u64 \<Rightarrow> u64 list \<Rightarrow> u64 list" where
  "bus_fill b arr = map (\<lambda>n. b + push_bit 12 (of_nat n)) [0..<256] @ drop 256 arr"

lemma length_bus_fill [simp]: "256 \<le> length arr \<Longrightarrow> length (bus_fill b arr) = length arr"
  by (simp add: bus_fill_def)

lemma bus_fill_twice: "256 \<le> length arr \<Longrightarrow> bus_fill b (bus_fill c arr) = bus_fill b arr"
  by (simp add: bus_fill_def)

lemma length_fold_fill [simp]: "256 \<le> length arr \<Longrightarrow> length (fold bus_fill bs arr) = length arr"
  by (induction bs arbitrary: arr) simp_all

lemma fold_bus_fill:
  "256 \<le> length arr \<Longrightarrow> fold bus_fill bs arr = (if bs = [] then arr else bus_fill (last bs) arr)"
  by (induction bs arbitrary: arr) (simp_all add: bus_fill_twice)

lemma fold_put_bus:
  "256 \<le> length arr \<Longrightarrow> fold (put_bus base) js (0, arr) =
     (0, fold bus_fill (map (\<lambda>j. base + push_bit 20 (of_nat j)) js) arr)"
  by (induction js arbitrary: arr) (simp_all add: put_bus_eq flip: bus_fill_def)

text \<open>The first address of every bus the MCFG names, the last bus of each segment left out.\<close>

definition segment_buses :: "mem \<Rightarrow> u64 \<Rightarrow> u64 list" where
  "segment_buses m e =
     map (\<lambda>j. mcfg_base m e + push_bit 20 (of_nat j)) [unat (mcfg_start m e)..<unat (mcfg_end m e)]"

definition mcfg_buses :: "mem \<Rightarrow> u64 \<Rightarrow> u64 list" where
  "mcfg_buses m mcfg = concat (map (\<lambda>i. segment_buses m (mcfg_entry mcfg i)) [0..<mcfg_entries m mcfg])"

lemma fold_segments:
  "256 \<le> length arr \<Longrightarrow> fold (\<lambda>i. put_segment m (mcfg_entry mcfg i)) is (0, arr) =
     (0, fold bus_fill (concat (map (\<lambda>i. segment_buses m (mcfg_entry mcfg i)) is)) arr)"
  by (induction "is" arbitrary: arr) (simp_all add: put_segment_def fold_put_bus segment_buses_def)

section \<open>The header\<close>

lemma load_byte:
  "k < n \<Longrightarrow> n < 2 ^ 60 \<Longrightarrow> LENGTH('a::len) = 8 * n \<Longrightarrow>
    ucast (drop_bit (8 * k) (load_le n m a :: 'a word)) = (m (a + of_nat k) :: u8)"
  by (rule bit_word_eqI) (auto simp: bit_ucast_iff bit_drop_bit_eq bit_load_le)

lemma read_words_quiet:
  assumes "quiet hw" and "n \<le> 16"
  shows "read_words hw addr n (ret, s) =
    (\<lambda>b. if unat b < 4 * n then mem s (addr + b) else ret b, s\<lparr>tick := tick s + n\<rparr>)"
  using assms(2)
proof (induction n)
  case (Suc n)
  have e: "(of_nat n * 4 :: u64) = of_nat (4 * n)" by simp
  have "store32 m (of_nat n * 4) (load32 (mem s) (addr + of_nat n * 4)) b =
      (if 4 * n \<le> unat b \<and> unat b < 4 * n + 4 then mem s (addr + b) else m b)" for m b
  proof -
    have r: "in_region (of_nat (4 * n)) 4 b \<longleftrightarrow> 4 * n \<le> unat b \<and> unat b < 4 * n + 4"
      using Suc.prems by (intro in_region_nat) simp_all
    have "ucast (drop_bit (8 * unat (b - of_nat (4 * n))) (load32 (mem s) (addr + of_nat (4 * n)))) = mem s (addr + b)"
      if "in_region (of_nat (4 * n)) 4 b"
      using that load_byte [of "unat (b - of_nat (4 * n))" 4 "mem s" "addr + of_nat (4 * n)", where ?'a = 32]
      by (simp add: in_region_def)
    then show ?thesis unfolding e using r by (simp add: store_le_apply)
  qed
  with Suc show ?case
    by (simp add: mmio_read_quiet assms(1)) (auto simp: fun_eq_iff)
qed simp

lemma load_header_shift:
  assumes "\<And>b. unat b < 64 \<Longrightarrow> m b = m' (a + b)"
  shows "load_header m 0 = load_header m' a"
proof -
  have w: "load16 m b = load16 m' (a + b)" if "unat b \<le> 62" for b
  proof (rule load_le_shift)
    fix i :: nat
    assume "i < 2"
    then have "unat (b + of_nat i) < 64" using that by (subst unat_add_small) simp_all
    then show "m (b + of_nat i) = m' (a + b + of_nat i)" using assms by (simp add: add.assoc)
  qed
  have r: "m (b + of_nat i) = m' (a + b + of_nat i)" if "unat b + i < 64" for b i
  proof -
    have "unat (b + of_nat i) < 64" using that by (subst unat_add_small) simp_all
    then show ?thesis using assms by (simp add: add.assoc)
  qed
  show ?thesis
    using w [of 0] w [of 2] w [of 4] w [of 6] r [of 16] r [of 53] r [of 62]
    by (simp add: load_header_def assms del: upt_conv_Cons)
qed

section \<open>Properties\<close>

text \<open>\<open>pcie_concat_split_data\<close> packs its arguments one after the other, each as the number of
  low bytes its size says, lowest first, and leaves the rest of the buffer as it was.\<close>

lemma pcie_concat_bytes:
  assumes "list_all (\<lambda>(sz, arg). sz \<le> 8) ap" and "sum_list (map (unat \<circ> fst) ap) \<le> 64" and "length ret = 64"
  shows "pcie_concat_split_data ap ret =
    Some (concat (map (\<lambda>(sz, arg). le_bytes sz arg) ap) @ drop (sum_list (map (unat \<circ> fst) ap)) ret)"
  using split_args_ok [of ap 0 ret] assms by (simp add: pcie_concat_split_data_def)

text \<open>C40: \<open>pcie_get_config_space_addrs\<close> returns the 256 functions of one bus only, the last bus
  of the MCFG, and zeros when no bus is named: the 8-bit index wraps to 0 after each bus. A
  segment whose first and last bus are the same adds no bus.\<close>

theorem config_space_addrs:
  "pcie_get_config_space_addrs m mcfg =
     (if mcfg_buses m mcfg = [] then replicate 4095 0
      else map (\<lambda>n. last (mcfg_buses m mcfg) + push_bit 12 (of_nat n)) [0..<256] @ replicate 3839 0)"
proof -
  have "pcie_get_config_space_addrs m mcfg = fold bus_fill (mcfg_buses m mcfg) (replicate 4095 0)"
    by (simp add: pcie_get_config_space_addrs_def fold_segments mcfg_buses_def)
  then show ?thesis by (simp add: fold_bus_fill bus_fill_def)
qed

text \<open>On a quiet device \<open>pcie_read_config_space_header\<close> returns the fields of the header in
  configuration space, at their offsets, with sixteen reads of the device and no write.\<close>

lemma config_space_header:
  assumes "quiet hw"
  shows "pcie_read_config_space_header hw addr s = (load_header (mem s) addr, s\<lparr>tick := tick s + 16\<rparr>)"
proof -
  have "load_header (\<lambda>b. if unat b < 4 * 16 then mem s (addr + b) else 0) 0 = load_header (mem s) addr"
    by (rule load_header_shift) simp
  then show ?thesis
    using read_words_quiet [OF assms, of 16 addr "\<lambda>_. 0" s] by (simp add: pcie_read_config_space_header_def)
qed

end
