(* ===== verification/Nvme.thy ===== *)
theory Nvme
  imports Page_Table Print
begin

text \<open>
  \<open>dev/nvme/nvme.c\<close>: the accesses to fields of controller registers, the two admin queue
  doorbells and the Identify command. The static driver variables are the record \<open>nvme\<close>; where
  the linker puts the queues and the buffer, the page-table root and the compiler's choice in
  \<open>vir_to_phys\<close> are the record \<open>nvme_env\<close>. Register and completion queue reads are device
  reads. The empty delay loops have no effect and are left out.
\<close>

section \<open>Fields of registers\<close>

abbreviation NVME_ADMIN_QUEUE_ENTRIES :: u32 where "NVME_ADMIN_QUEUE_ENTRIES \<equiv> 32"
abbreviation NVME_CAP_OFFSET :: u64 where "NVME_CAP_OFFSET \<equiv> 0"
abbreviation NVME_CC_OFFSET :: u64 where "NVME_CC_OFFSET \<equiv> 0x14"
abbreviation NVME_CSTS_OFFSET :: u64 where "NVME_CSTS_OFFSET \<equiv> 0x1c"
abbreviation NVME_AQA_OFFSET :: u64 where "NVME_AQA_OFFSET \<equiv> 0x24"
abbreviation NVME_ASQ_OFFSET :: u64 where "NVME_ASQ_OFFSET \<equiv> 0x28"
abbreviation NVME_ACQ_OFFSET :: u64 where "NVME_ACQ_OFFSET \<equiv> 0x30"

definition nvme_mmio_write_32 :: "hardware \<Rightarrow> u64 \<Rightarrow> u64 \<Rightarrow> nat \<Rightarrow> u32 \<Rightarrow> nat \<Rightarrow> machine \<Rightarrow> machine" where
  "nvme_mmio_write_32 hw addr offs1 offs2 value sz s =
     (let (tmp, s) = mmio_read32 hw (addr + offs1) s;
          tmp = (tmp AND NOT (push_bit offs2 (drop_bit (32 - sz) 0xFFFFFFFF))) OR push_bit offs2 value
      in mmio_write32 (addr + offs1) tmp s)"

definition nvme_mmio_read_32 :: "hardware \<Rightarrow> u64 \<Rightarrow> u64 \<Rightarrow> nat \<Rightarrow> nat \<Rightarrow> machine \<Rightarrow> u32 \<times> machine" where
  "nvme_mmio_read_32 hw addr offs1 offs2 sz s =
     (let (tmp, s) = mmio_read32 hw (addr + offs1) s
      in (drop_bit offs2 tmp AND drop_bit (32 - sz) 0xFFFFFFFF, s))"

definition nvme_mmio_write_64 :: "hardware \<Rightarrow> u64 \<Rightarrow> u64 \<Rightarrow> nat \<Rightarrow> u64 \<Rightarrow> nat \<Rightarrow> machine \<Rightarrow> machine" where
  "nvme_mmio_write_64 hw addr offs1 offs2 value sz s =
     (let (low, s) = mmio_read32 hw (addr + offs1) s;
          (high, s) = mmio_read32 hw (addr + offs1 + 4) s;
          tmp = push_bit 32 (ucast high) OR ucast low :: u64;
          tmp = (tmp AND NOT (push_bit offs2 (drop_bit (64 - sz) 0xFFFFFFFFFFFFFFFF))) OR push_bit offs2 value;
          low = ucast (tmp AND 0xFFFFFFFF);
          high = ucast (drop_bit 32 tmp);
          s = mmio_write32 (addr + offs1) low s
      in mmio_write32 (addr + offs1 + 4) high s)"

definition nvme_mmio_read_64 :: "hardware \<Rightarrow> u64 \<Rightarrow> u64 \<Rightarrow> nat \<Rightarrow> nat \<Rightarrow> machine \<Rightarrow> u64 \<times> machine" where
  "nvme_mmio_read_64 hw addr offs1 offs2 sz s =
     (let (low, s) = mmio_read32 hw (addr + offs1) s;
          (high, s) = mmio_read32 hw (addr + offs1 + 4) s;
          tmp = push_bit 32 (ucast high) OR ucast low :: u64
      in (drop_bit offs2 tmp AND drop_bit (64 - sz) 0xFFFFFFFFFFFFFFFF, s))"

section \<open>Doorbells\<close>

record nvme =
  asq_tail :: u32
  acq_head :: u32
  acq_phase :: u8
  exp_cid :: u16

definition nvme_init :: nvme where
  "nvme_init = \<lparr>asq_tail = 0, acq_head = 0, acq_phase = 1, exp_cid = 0x1000\<rparr>"

definition doorbell_addr :: "u64 \<Rightarrow> u32 \<Rightarrow> u32 \<Rightarrow> u8 \<Rightarrow> u64" where
  "doorbell_addr addr qid cq dstrd = addr + 0x1000 + ucast ((2 * qid + cq) * push_bit (unat dstrd) 4)"

definition nvme_ring_asq_doorbell :: "hardware \<Rightarrow> u64 \<Rightarrow> u32 \<Rightarrow> nvme \<times> machine \<Rightarrow> nvme \<times> machine" where
  "nvme_ring_asq_doorbell hw addr qid ns =
     (let (cap, s) = nvme_mmio_read_64 hw addr NVME_CAP_OFFSET 32 4 (snd ns);
          dstrd = ucast cap :: u8;
          sq_doorbell_addr = doorbell_addr addr qid 0 dstrd;
          new_tail = (asq_tail (fst ns) + 1) mod NVME_ADMIN_QUEUE_ENTRIES;
          s = log_event Mfence s;
          s = nvme_mmio_write_32 hw sq_doorbell_addr 0 0 new_tail 32 s
      in ((fst ns)\<lparr>asq_tail := new_tail\<rparr>, s))"

definition nvme_ring_acq_doorbell :: "hardware \<Rightarrow> u64 \<Rightarrow> u32 \<Rightarrow> nvme \<times> machine \<Rightarrow> nvme \<times> machine" where
  "nvme_ring_acq_doorbell hw addr qid ns =
     (let (cap, s) = nvme_mmio_read_64 hw addr NVME_CAP_OFFSET 32 4 (snd ns);
          dstrd = ucast cap :: u8;
          cq_doorbell_addr = doorbell_addr addr qid 1 dstrd;
          new_head = (acq_head (fst ns) + 1) mod NVME_ADMIN_QUEUE_ENTRIES;
          s = log_event Mfence s;
          s = nvme_mmio_write_32 hw cq_doorbell_addr 0 0 new_head 32 s
      in ((fst ns)\<lparr>acq_head := new_head\<rparr>, s))"

section \<open>The Identify command\<close>

record NVME_COMMAND_IDENTIFY =
  cmd_opc :: u8
  cmd_fuse :: "2 word"
  cmd_res :: "4 word"
  cmd_psdt :: "2 word"
  cmd_cid :: u16
  cmd_nsid :: u32
  cmd_cdw2 :: u32
  cmd_cdw3 :: u32
  cmd_mptr :: u64
  cmd_prp1 :: u64
  cmd_prp2 :: u64
  cmd_cns :: u8
  cmd_res10 :: u8
  cmd_cntid :: u16
  cmd_cnssid :: u16
  cmd_res11 :: u8
  cmd_csi :: u8
  cmd_cdw12 :: u32
  cmd_cdw13 :: u32
  cmd_cdw14 :: u32
  cmd_cdw15 :: u32

definition identify_zero :: NVME_COMMAND_IDENTIFY where
  "identify_zero = \<lparr>cmd_opc = 0, cmd_fuse = 0, cmd_res = 0, cmd_psdt = 0, cmd_cid = 0, cmd_nsid = 0,
     cmd_cdw2 = 0, cmd_cdw3 = 0, cmd_mptr = 0, cmd_prp1 = 0, cmd_prp2 = 0, cmd_cns = 0, cmd_res10 = 0,
     cmd_cntid = 0, cmd_cnssid = 0, cmd_res11 = 0, cmd_csi = 0, cmd_cdw12 = 0, cmd_cdw13 = 0,
     cmd_cdw14 = 0, cmd_cdw15 = 0\<rparr>"

definition cdw0_encode :: "NVME_COMMAND_IDENTIFY \<Rightarrow> u32" where
  "cdw0_encode c = field 0 (cmd_opc c) OR field 8 (cmd_fuse c) OR field 10 (cmd_res c)
     OR field 14 (cmd_psdt c) OR field 16 (cmd_cid c)"

definition store_identify :: "mem \<Rightarrow> u64 \<Rightarrow> NVME_COMMAND_IDENTIFY \<Rightarrow> mem" where
  "store_identify m a c =
     (let m = store32 m a (cdw0_encode c);
          m = store32 m (a + 4) (cmd_nsid c);
          m = store32 m (a + 8) (cmd_cdw2 c);
          m = store32 m (a + 12) (cmd_cdw3 c);
          m = store64 m (a + 16) (cmd_mptr c);
          m = store64 m (a + 24) (cmd_prp1 c);
          m = store64 m (a + 32) (cmd_prp2 c);
          m = store32 m (a + 40) (field 0 (cmd_cns c) OR field 8 (cmd_res10 c) OR field 16 (cmd_cntid c));
          m = store32 m (a + 44) (field 0 (cmd_cnssid c) OR field 16 (cmd_res11 c) OR field 24 (cmd_csi c));
          m = store32 m (a + 48) (cmd_cdw12 c);
          m = store32 m (a + 52) (cmd_cdw13 c);
          m = store32 m (a + 56) (cmd_cdw14 c)
      in store32 m (a + 60) (cmd_cdw15 c))"

text \<open>Dword 3 of a completion queue entry: the phase bit and the status code and type.\<close>

definition cqe_p :: "u32 \<Rightarrow> 1 word" where "cqe_p w = field_at 16 w"
definition cqe_sc :: "u32 \<Rightarrow> u8" where "cqe_sc w = field_at 17 w"
definition cqe_sct :: "u32 \<Rightarrow> 3 word" where "cqe_sct w = field_at 25 w"

text \<open>The console writes to the same memory.\<close>

definition kprintf_to :: "string \<Rightarrow> va_arg list \<Rightarrow> GRAPHICS \<times> machine \<Rightarrow> (GRAPHICS \<times> machine) option" where
  "kprintf_to str ap gs =
     map_option (\<lambda>(g, m). (g, (snd gs)\<lparr>mem := m\<rparr>))
       (kprintf (map of_char str @ [0]) ap (fst gs, mem (snd gs)))"

text \<open>
  The wait for the completion. It may run forever: then it has no result. The two reads for
  the message are those of \<open>cqe->cdw3.sc\<close> and \<open>cqe->cdw3.sct\<close>.
\<close>

partial_function (option) wait_cqe ::
    "hardware \<Rightarrow> u64 \<Rightarrow> u8 \<Rightarrow> int \<Rightarrow> GRAPHICS \<times> machine \<Rightarrow> (GRAPHICS \<times> machine) option" where
  "wait_cqe hw cqe phase timeout gs =
     (let (w, s) = mmio_read32 hw (cqe + 12) (snd gs)
      in if ucast (cqe_p w) = phase then Some (fst gs, s)
         else if timeout - 1 \<noteq> 0 then wait_cqe hw cqe phase (timeout - 1) (fst gs, s)
         else let (w1, s) = mmio_read32 hw (cqe + 12) s;
                  (w2, s) = mmio_read32 hw (cqe + 12) s
              in Option.bind (kprintf_to (''%d %d'' @ [CHR 0x0D]) [Va_int (ucast (cqe_sc w1)), Va_int (ucast (cqe_sct w2))] (fst gs, s))
                   (wait_cqe hw cqe phase 0xffffff))"

record nvme_env =
  asq_addr :: u64
  acq_addr :: u64
  identify_buf :: u64
  env_cr3 :: u64
  env_bitfield :: bitfield_type

definition identify_cmd :: "u16 \<Rightarrow> u64 \<Rightarrow> NVME_COMMAND_IDENTIFY" where
  "identify_cmd cid prp1 = identify_zero\<lparr>cmd_opc := 0x06, cmd_cid := cid, cmd_cns := 1, cmd_nsid := 0,
     cmd_cntid := 0, cmd_csi := 0, cmd_prp1 := prp1, cmd_prp2 := 0, cmd_cnssid := 0\<rparr>"

definition nvme_submit_identify :: "nvme_env \<Rightarrow> hardware \<Rightarrow> u64 \<Rightarrow> nvme \<times> machine \<Rightarrow> nvme \<times> machine" where
  "nvme_submit_identify env hw addr ns =
     (let (nv, s) = ns;
          cmd = identify_cmd (exp_cid nv) (vir_to_phys (env_bitfield env) (env_cr3 env) (mem s) (identify_buf env));
          s = s\<lparr>mem := store_identify (mem s) (asq_addr env + ucast (asq_tail nv) * 64) cmd\<rparr>;
          s = log_event Mfence s
      in nvme_ring_asq_doorbell hw addr 0 (nv, s))"

definition nvme_complete_identify :: "hardware \<Rightarrow> u64 \<Rightarrow> nvme \<times> machine \<Rightarrow> nvme \<times> machine" where
  "nvme_complete_identify hw addr ns =
     (let (nv, s) = nvme_ring_acq_doorbell hw addr 0 ns
      in (if acq_head nv = 0
          then nv\<lparr>acq_phase := of_bool (acq_phase nv = 0), exp_cid := exp_cid nv + 1\<rparr> else nv, s))"

definition nvme_command_identify ::
    "nvme_env \<Rightarrow> hardware \<Rightarrow> u64 \<Rightarrow> nvme \<times> GRAPHICS \<times> machine \<Rightarrow> (nvme \<times> GRAPHICS \<times> machine) option" where
  "nvme_command_identify env hw addr ngs =
     (let (nv, s) = nvme_submit_identify env hw addr (fst ngs, snd (snd ngs));
          cqe = acq_addr env + ucast (acq_head nv) * 16
      in map_option (\<lambda>(g, s). let (nv, s) = nvme_complete_identify hw addr (nv, s) in (nv, g, s))
           (wait_cqe hw cqe (acq_phase nv) 0xffffff (fst (snd ngs), s)))"

section \<open>A register and its fields\<close>

text \<open>
  The fields the code writes go through a read and a write of the whole register. The
  contract of such a register is that a read gives what was last written; \<open>update_field\<close> and
  \<open>read_field\<close> are the two accesses over it.
\<close>

definition put_field :: "nat \<Rightarrow> nat \<Rightarrow> 'a::len word \<Rightarrow> 'a word \<Rightarrow> 'a word" where
  "put_field off sz v w = (w AND NOT (push_bit off (drop_bit (LENGTH('a) - sz) (- 1)))) OR push_bit off v"

definition get_field :: "nat \<Rightarrow> nat \<Rightarrow> 'a::len word \<Rightarrow> 'a word" where
  "get_field off sz w = drop_bit off w AND drop_bit (LENGTH('a) - sz) (- 1)"

lemma bit_put_field:
  assumes "sz \<le> LENGTH('a)" and "n < LENGTH('a)"
  shows "bit (put_field off sz v w :: 'a::len word) n \<longleftrightarrow>
    (bit w n \<and> \<not> (off \<le> n \<and> n < off + sz)) \<or> (off \<le> n \<and> bit v (n - off))"
  using assms by (auto simp: put_field_def bit_or_iff bit_and_iff bit_not_iff bit_push_bit_iff bit_mask_iff)

lemma bit_get_field:
  assumes "sz \<le> LENGTH('a)"
  shows "bit (get_field off sz w :: 'a::len word) n \<longleftrightarrow> n < sz \<and> bit w (off + n)"
  using assms bit_imp_le_length [of w "off + n"] by (auto simp: get_field_def bit_and_iff bit_drop_bit_eq bit_mask_iff)

lemma take_bit_self_bit: "take_bit sz v = (v :: 'a::len word) \<Longrightarrow> bit v n \<Longrightarrow> n < sz"
  by (metis bit_take_bit_iff)

lemma get_put_field:
  assumes "off + sz \<le> LENGTH('a)" and "take_bit sz v = v"
  shows "get_field off sz (put_field off sz v w) = (v :: 'a::len word)"
proof (rule bit_word_eqI)
  fix n
  show "bit (get_field off sz (put_field off sz v w)) n = bit v n"
  proof (cases "n < sz")
    case True
    with assms(1) have "off + n < LENGTH('a)" by simp
    with True assms(1) show ?thesis by (simp add: bit_get_field bit_put_field)
  next
    case False
    with assms(1) take_bit_self_bit [OF assms(2)] show ?thesis by (auto simp: bit_get_field)
  qed
qed

lemma get_put_other:
  assumes "off + sz \<le> LENGTH('a)" and "off' + sz' \<le> LENGTH('a)" and "take_bit sz v = v"
    and "off + sz \<le> off' \<or> off' + sz' \<le> off"
  shows "get_field off' sz' (put_field off sz v w) = (get_field off' sz' w :: 'a::len word)"
  using assms by (intro bit_word_eqI) (auto simp: bit_get_field bit_put_field dest: take_bit_self_bit)

locale register =
  fixes rd :: "'s \<Rightarrow> 'a::len word \<times> 's" and wr :: "'a word \<Rightarrow> 's \<Rightarrow> 's"
  assumes rd_wr: "fst (rd (wr v s)) = v"
    and rd_rd: "fst (rd (snd (rd s))) = fst (rd s)"
begin

definition update_field :: "nat \<Rightarrow> nat \<Rightarrow> 'a word \<Rightarrow> 's \<Rightarrow> 's" where
  "update_field off sz v s = wr (put_field off sz v (fst (rd s))) (snd (rd s))"

definition read_field :: "nat \<Rightarrow> nat \<Rightarrow> 's \<Rightarrow> 'a word" where
  "read_field off sz s = get_field off sz (fst (rd s))"

lemma read_update: "off + sz \<le> LENGTH('a) \<Longrightarrow> take_bit sz v = v \<Longrightarrow> read_field off sz (update_field off sz v s) = v"
  by (simp add: read_field_def update_field_def rd_wr get_put_field)

lemma read_update_other:
  "off + sz \<le> LENGTH('a) \<Longrightarrow> off' + sz' \<le> LENGTH('a) \<Longrightarrow> take_bit sz v = v \<Longrightarrow>
     off + sz \<le> off' \<or> off' + sz' \<le> off \<Longrightarrow>
     read_field off' sz' (update_field off sz v s) = read_field off' sz' s"
  by (simp add: read_field_def update_field_def rd_wr get_put_other)

lemma update_update:
  "off + sz \<le> LENGTH('a) \<Longrightarrow> take_bit sz v = v \<Longrightarrow>
     read_field off sz (update_field off sz u (update_field off sz v s)) = read_field off sz (update_field off sz u s)"
  by (simp add: read_field_def update_field_def rd_wr)
     (rule bit_word_eqI, auto simp: bit_get_field bit_put_field dest: take_bit_self_bit)

end

section \<open>The register contract on quiet devices\<close>

definition quiet_hw :: "(nat \<Rightarrow> u16 \<Rightarrow> u32) \<Rightarrow> hardware" where
  "quiet_hw port = \<lparr>hw_mem = (\<lambda>n m. m), hw_port = port\<rparr>"

lemma quiet_hw [simp]: "quiet (quiet_hw port)"
  by (simp add: quiet_def quiet_hw_def)

lemma quiet_eq: "quiet hw \<Longrightarrow> hw = quiet_hw (hw_port hw)"
  by (cases hw) (simp add: quiet_def quiet_hw_def fun_eq_iff)

definition mmio_read64 :: "hardware \<Rightarrow> u64 \<Rightarrow> machine \<Rightarrow> u64 \<times> machine" where
  "mmio_read64 hw a s =
     (let (low, s) = mmio_read32 hw a s; (high, s) = mmio_read32 hw (a + 4) s
      in (push_bit 32 (ucast high) OR ucast low, s))"

definition mmio_write64 :: "u64 \<Rightarrow> u64 \<Rightarrow> machine \<Rightarrow> machine" where
  "mmio_write64 a v s = mmio_write32 (a + 4) (ucast (drop_bit 32 v)) (mmio_write32 a (ucast (v AND 0xFFFFFFFF)) s)"

lemma apart_4: "apart (a + 4) 4 a 4"
  using apart_offset [of 4 4 0 4 a] by simp

lemma mem_mmio [simp]: "mem (mmio_write32 a v s) = store32 (mem s) a v"
  by (simp add: mmio_write32_def)

interpretation r32: register "mmio_read32 (quiet_hw port) a" "mmio_write32 a" for port a
  by unfold_locales (simp_all add: mmio_read_quiet mem_simps)

interpretation r64: register "mmio_read64 (quiet_hw port) a" "mmio_write64 a" for port a
  by unfold_locales
    (simp_all add: mmio_read64_def mmio_write64_def mmio_read_quiet mem_simps apart_4 join_halves)

lemma all_ones: "(0xFFFFFFFF :: u32) = - 1" "(0xFFFFFFFFFFFFFFFF :: u64) = - 1"
  by simp_all

lemma nvme_32_fields:
  "nvme_mmio_write_32 (quiet_hw port) addr offs1 offs2 value sz = r32.update_field port (addr + offs1) offs2 sz value"
  "fst (nvme_mmio_read_32 (quiet_hw port) addr offs1 offs2 sz s) = r32.read_field port (addr + offs1) offs2 sz s"
  by (simp_all add: nvme_mmio_write_32_def nvme_mmio_read_32_def r32.update_field_def r32.read_field_def
      put_field_def get_field_def mmio_read_quiet fun_eq_iff all_ones)

lemma nvme_64_fields:
  "nvme_mmio_write_64 (quiet_hw port) addr offs1 offs2 value sz = r64.update_field port (addr + offs1) offs2 sz value"
  "fst (nvme_mmio_read_64 (quiet_hw port) addr offs1 offs2 sz s) = r64.read_field port (addr + offs1) offs2 sz s"
  by (simp_all add: nvme_mmio_write_64_def nvme_mmio_read_64_def r64.update_field_def r64.read_field_def
      put_field_def get_field_def mmio_read_quiet mmio_read64_def mmio_write64_def fun_eq_iff all_ones)

end
