(* ===== verification/Nvme_Props.thy ===== *)
theory Nvme_Props
  imports Nvme Console
begin

text \<open>
  The properties of the NVMe driver: fields of registers, doorbells, the layout of the Identify
  command, the queue state over any number of commands, and when a command returns.
\<close>

section \<open>Doorbells\<close>

lemma put_field_all: "put_field 0 LENGTH('a) v w = (v :: 'a::len word)"
  by (rule bit_word_eqI) (simp add: bit_put_field)

lemma write_32_all:
  "nvme_mmio_write_32 hw addr offs1 0 v 32 s =
     mmio_write32 (addr + offs1) v (snd (mmio_read32 hw (addr + offs1) s))"
  using put_field_all [of v "fst (mmio_read32 hw (addr + offs1) s)"]
  by (simp add: nvme_mmio_write_32_def put_field_def case_prod_unfold Let_def all_ones)

lemma events_read [simp]: "events (snd (mmio_read32 hw a s)) = events s"
  by (simp add: mmio_read32_def Let_def)

lemma events_read_64 [simp]: "events (snd (nvme_mmio_read_64 hw addr o1 o2 sz s)) = events s"
  by (simp add: nvme_mmio_read_64_def case_prod_unfold Let_def)

lemma events_write [simp]: "events (mmio_write32 a v s) = events s @ [Mmio_write a v]"
  by (simp add: mmio_write32_def)

definition read_dstrd :: "hardware \<Rightarrow> u64 \<Rightarrow> machine \<Rightarrow> u8" where
  "read_dstrd hw addr s = ucast (fst (nvme_mmio_read_64 hw addr NVME_CAP_OFFSET 32 4 s))"

lemma ring_asq:
  "fst (nvme_ring_asq_doorbell hw addr qid (nv, s)) = nv\<lparr>asq_tail := (asq_tail nv + 1) mod 32\<rparr>"
  "events (snd (nvme_ring_asq_doorbell hw addr qid (nv, s))) = events s @
     [Mfence, Mmio_write (doorbell_addr addr qid 0 (read_dstrd hw addr s)) ((asq_tail nv + 1) mod 32)]"
  by (simp_all add: nvme_ring_asq_doorbell_def case_prod_unfold Let_def write_32_all read_dstrd_def)

lemma ring_asq_mem:
  "mem (snd (nvme_ring_asq_doorbell (quiet_hw port) addr qid (nv, s))) =
     store32 (mem s) (doorbell_addr addr qid 0 (read_dstrd (quiet_hw port) addr s)) ((asq_tail nv + 1) mod 32)"
  by (simp add: nvme_ring_asq_doorbell_def case_prod_unfold Let_def write_32_all read_dstrd_def
      mmio_read_quiet nvme_mmio_read_64_def)

lemma ring_acq:
  "fst (nvme_ring_acq_doorbell hw addr qid (nv, s)) = nv\<lparr>acq_head := (acq_head nv + 1) mod 32\<rparr>"
  "events (snd (nvme_ring_acq_doorbell hw addr qid (nv, s))) = events s @
     [Mfence, Mmio_write (doorbell_addr addr qid 1 (read_dstrd hw addr s)) ((acq_head nv + 1) mod 32)]"
  by (simp_all add: nvme_ring_acq_doorbell_def case_prod_unfold Let_def write_32_all read_dstrd_def)

section \<open>The queue state\<close>

text \<open>The driver states after a number of Identify commands that returned.\<close>

inductive after_commands :: "nvme_env \<Rightarrow> hardware \<Rightarrow> u64 \<Rightarrow> nat \<Rightarrow> nvme \<Rightarrow> bool" for env hw addr where
  start: "after_commands env hw addr 0 nvme_init"
| command: "after_commands env hw addr k nv \<Longrightarrow>
    nvme_command_identify env hw addr (nv, g, s) = Some (nv', g', s') \<Longrightarrow>
    after_commands env hw addr (Suc k) nv'"

inductive_cases after_commands_SucE: "after_commands env hw addr (Suc k) nv"

definition next_state :: "nvme \<Rightarrow> nvme" where
  "next_state nv =
     (let nv = nv\<lparr>asq_tail := (asq_tail nv + 1) mod 32, acq_head := (acq_head nv + 1) mod 32\<rparr>
      in if acq_head nv = 0
         then nv\<lparr>acq_phase := of_bool (acq_phase nv = 0), exp_cid := exp_cid nv + 1\<rparr> else nv)"

lemma identify_next:
  assumes "nvme_command_identify env hw addr (nv, g, s) = Some (nv', g', s')"
  shows "nv' = next_state nv"
proof -
  obtain nv1 s1 where 1: "nvme_submit_identify env hw addr (nv, s) = (nv1, s1)" by (metis surj_pair)
  then have nv1: "nv1 = nv\<lparr>asq_tail := (asq_tail nv + 1) mod 32\<rparr>"
    using ring_asq(1) [of hw addr 0 nv] by (auto simp: nvme_submit_identify_def Let_def dest: arg_cong [of _ _ fst])
  from assms obtain g2 s2 where "nv' = fst (nvme_complete_identify hw addr (nv1, s2))"
    by (auto simp: nvme_command_identify_def 1 Let_def case_prod_unfold)
  then show ?thesis
    using ring_acq(1) [of hw addr 0 nv1 s2]
    by (simp add: nvme_complete_identify_def case_prod_unfold Let_def next_state_def nv1)
qed

definition state_at :: "nat \<Rightarrow> nvme" where
  "state_at k = \<lparr>asq_tail = of_nat (k mod 32), acq_head = of_nat (k mod 32),
     acq_phase = of_bool (even (k div 32)), exp_cid = 0x1000 + of_nat (k div 32)\<rparr>"

lemma next_state_at: "next_state (state_at k) = state_at (Suc k)"
proof -
  have m: "(of_nat (k mod 32) + 1) mod 32 = (of_nat (Suc k mod 32) :: u32)"
  proof -
    have "unat ((of_nat (k mod 32) + 1) mod 32 :: u32) = Suc (k mod 32) mod 32"
      by (simp add: unat_mod unat_word_ariths unat_of_nat take_bit_nat_eq_self) 
    then show ?thesis by (simp add: word_unat_eq_iff mod_Suc_eq)
  qed
  have z: "(of_nat (Suc k mod 32) :: u32) = 0 \<longleftrightarrow> Suc k mod 32 = 0"
    by (simp add: word_unat_eq_iff)
  show ?thesis
  proof (cases "Suc k mod 32 = 0")
    case True
    then have "Suc k div 32 = Suc (k div 32)" by (simp add: div_Suc)
    with True show ?thesis by (simp add: next_state_def state_at_def Let_def m z)
  next
    case False
    then have "Suc k div 32 = k div 32" by (simp add: div_Suc)
    with False show ?thesis by (simp add: next_state_def state_at_def Let_def m z)
  qed
qed

lemma after_commands_state: "after_commands env hw addr k nv \<Longrightarrow> nv = state_at k"
proof (induction k arbitrary: nv)
  case 0
  then show ?case
    by (cases rule: after_commands.cases) (simp_all add: nvme_init_def state_at_def)
next
  case (Suc k)
  from Suc.prems show ?case
    by (rule after_commands_SucE) (use Suc.IH identify_next next_state_at in metis)
qed

section \<open>Waiting\<close>

text \<open>The memory at the n-th read from a state on, when the driver only reads.\<close>

primrec read_mem :: "hardware \<Rightarrow> machine \<Rightarrow> nat \<Rightarrow> mem" where
  "read_mem hw s 0 = hw_mem hw (tick s) (mem s)"
| "read_mem hw s (Suc n) = hw_mem hw (tick s + Suc n) (read_mem hw s n)"

lemma read_mem_Suc:
  "read_mem hw s (Suc n) = read_mem hw (s\<lparr>mem := hw_mem hw (tick s) (mem s), tick := Suc (tick s)\<rparr>) n"
  by (induction n) simp_all

definition phase_at :: "mem \<Rightarrow> u64 \<Rightarrow> u8" where
  "phase_at m cqe = ucast (cqe_p (load32 m (cqe + 12)))"

lemma wait_cqe_step:
  "timeout \<noteq> 1 \<Longrightarrow> wait_cqe hw cqe phase timeout (g, s) =
     (let s' = s\<lparr>mem := hw_mem hw (tick s) (mem s), tick := Suc (tick s)\<rparr>
      in if phase_at (mem s') cqe = phase then Some (g, s') else wait_cqe hw cqe phase (timeout - 1) (g, s'))"
  by (subst wait_cqe.simps) (simp add: mmio_read32_def Let_def phase_at_def)

lemma wait_cqe_found:
  assumes "phase_at (read_mem hw s n) cqe = phase" and "\<And>i. i < n \<Longrightarrow> phase_at (read_mem hw s i) cqe \<noteq> phase"
    and "int n + 1 < timeout"
  shows "wait_cqe hw cqe phase timeout (g, s) = Some (g, s\<lparr>mem := read_mem hw s n, tick := tick s + Suc n\<rparr>)"
  using assms
proof (induction n arbitrary: s timeout)
  case 0
  then show ?case by (simp add: wait_cqe_step Let_def)
next
  case (Suc n)
  let ?s = "s\<lparr>mem := hw_mem hw (tick s) (mem s), tick := Suc (tick s)\<rparr>"
  have "phase_at (mem ?s) cqe \<noteq> phase" using Suc.prems(2) [of 0] by simp
  then have "wait_cqe hw cqe phase timeout (g, s) = wait_cqe hw cqe phase (timeout - 1) (g, ?s)"
    using Suc.prems(3) by (simp add: wait_cqe_step Let_def)
  also have "\<dots> = Some (g, ?s\<lparr>mem := read_mem hw ?s n, tick := tick ?s + Suc n\<rparr>)"
  proof (rule Suc.IH)
    show "phase_at (read_mem hw ?s n) cqe = phase" using Suc.prems(1) by (simp only: read_mem_Suc)
    show "phase_at (read_mem hw ?s i) cqe \<noteq> phase" if "i < n" for i
      using Suc.prems(2) [of "Suc i"] that by (simp add: read_mem_Suc del: read_mem.simps)
    show "int n + 1 < timeout - 1" using Suc.prems(3) by simp
  qed
  finally show ?case by (simp only: read_mem_Suc) simp
qed

lemma wait_cqe_Some:
  assumes "wait_cqe hw cqe phase timeout gs = Some r"
  shows "\<exists>n m. phase_at (hw_mem hw n m) cqe = phase"
proof (rule wait_cqe.raw_induct [where P = "\<lambda>hw cqe phase timeout gs r. \<exists>n m. phase_at (hw_mem hw n m) cqe = phase"])
  fix f hw cqe phase timeout gs r
  assume IH: "\<And>hw cqe phase timeout gs r. f hw cqe phase timeout gs = Some r \<Longrightarrow>
      \<exists>n m. phase_at (hw_mem hw n m) cqe = phase"
    and *: "(let (w, s) = mmio_read32 hw (cqe + 12) (snd gs)
      in if ucast (cqe_p w) = phase then Some (fst gs, s)
         else if timeout - 1 \<noteq> 0 then f hw cqe phase (timeout - 1) (fst gs, s)
         else let (w1, s) = mmio_read32 hw (cqe + 12) s;
                  (w2, s) = mmio_read32 hw (cqe + 12) s
              in Option.bind (kprintf_to (''%d %d'' @ [CHR 0x0D])
                     [Va_int (ucast (cqe_sc w1)), Va_int (ucast (cqe_sct w2))] (fst gs, s))
                   (f hw cqe phase 0xffffff)) = Some r"
  show "\<exists>n m. phase_at (hw_mem hw n m) cqe = phase"
  proof (cases "phase_at (hw_mem hw (tick (snd gs)) (mem (snd gs))) cqe = phase")
    case False
    with * obtain gs' t where "f hw cqe phase t gs' = Some r"
      by (auto simp: mmio_read32_def Let_def phase_at_def bind_eq_Some_conv simp del: append.simps split: if_splits)
    then show ?thesis by (rule IH)
  qed blast
qed (rule assms)

section \<open>The command in memory\<close>

lemma offset_diff:
  assumes "c \<le> d" and "d < 2 ^ 64"
  shows "unat ((a + of_nat d) - (a + of_nat c) :: u64) = d - c"
proof -
  have "(a + of_nat d) - (a + of_nat c) = (of_nat (d - c) :: u64)" using assms(1) by (simp add: of_nat_diff)
  moreover have "d - c < 2 ^ 64" using assms(2) by linarith
  ultimately show ?thesis by (simp only: unat_of_nat_64)
qed

lemma offset_region:
  assumes "d < 64" and "c + k \<le> 64"
  shows "in_region (a + of_nat c) k (a + of_nat d) \<longleftrightarrow> c \<le> d \<and> d < c + k"
proof -
  have "in_region (a + of_nat c) k (a + of_nat d) \<longleftrightarrow> in_region (of_nat c) k (of_nat d)"
    by (simp add: in_region_def)
  also have "\<dots> \<longleftrightarrow> c \<le> unat (of_nat d :: u64) \<and> unat (of_nat d :: u64) < c + k"
    using assms by (intro in_region_nat) simp_all
  finally show ?thesis using assms(1) by simp
qed

lemma store_offset:
  assumes "d < 64" and "c + k \<le> 64"
  shows "store_le k m (a + of_nat c) v (a + of_nat d) =
    (if c \<le> d \<and> d < c + k then ucast (drop_bit (8 * (d - c)) v) else m (a + of_nat d))"
  using assms offset_diff [of c d a] by (simp add: store_le_apply offset_region)

lemmas store_offsets =
  store_offset [where c = 0, simplified] store_offset [where c = "numeral n" for n, simplified]

lemma dword_bytes:
  "ucast (drop_bit (8 * i) (field 0 (6 :: u8) OR field 16 cid :: u32)) =
     (if i = 0 then 6 else if i = 2 then ucast cid else if i = 3 then ucast (drop_bit 8 (cid :: u16)) else (0 :: u8))"
proof (rule bit_word_eqI)
  fix n :: nat
  assume "n < LENGTH(8)"
  then have n: "n < 8" by simp
  have "bit (ucast (drop_bit (8 * i) (field 0 (6 :: u8) OR field 16 cid :: u32)) :: u8) n \<longleftrightarrow>
      8 * i + n < 32 \<and> ((8 * i + n < 8 \<and> bit (6 :: u8) (8 * i + n)) \<or> (16 \<le> 8 * i + n \<and> bit cid (8 * i + n - 16)))"
    using n bit_imp_le_length [of cid "8 * i + n - 16"]
    by (auto simp: bit_ucast_iff bit_drop_bit_eq bit_or_iff bit_field)
  moreover consider "i = 0" | "i = 1" | "i = 2" | "i = 3" | "4 \<le> i" by linarith
  ultimately show "bit (ucast (drop_bit (8 * i) (field 0 (6 :: u8) OR field 16 cid :: u32)) :: u8) n =
      bit (if i = 0 then 6 else if i = 2 then ucast cid else if i = 3 then ucast (drop_bit 8 cid) else (0 :: u8)) n"
    using n by cases (auto simp: bit_ucast_iff bit_drop_bit_eq)
qed

lemma one_byte: "ucast (drop_bit (8 * i) (1 :: u32)) = (if i = 0 then 1 else (0 :: u8))"
  by (cases i) (simp_all add: drop_bit_Suc)

lemma store_identify_other:
  assumes "\<not> in_region a 64 b"
  shows "store_identify m a c b = m b"
proof -
  define d where "d = unat (b - a)"
  have d: "b = a + of_nat d" "64 \<le> d" "d < 2 ^ 64" using assms by (simp_all add: d_def in_region_def)
  have o: "\<not> in_region (a + of_nat c) k b" if "c + k \<le> 64" for c k
  proof -
    have "in_region (a + of_nat c) k b \<longleftrightarrow> in_region (of_nat c) k (of_nat d)"
      by (simp add: in_region_def d(1))
    also have "\<dots> \<longleftrightarrow> c \<le> d \<and> d < c + k"
      using that d(3) by (subst in_region_nat) simp_all
    finally show ?thesis using that d(2) by simp
  qed
  have "\<not> in_region a 4 b" using o [of 0 4] by simp
  moreover have "\<not> in_region (a + numeral c) k b" if "numeral c + k \<le> 64" for c k
    using o [OF that] by simp
  ultimately show ?thesis by (simp add: store_identify_def Let_def store_le_other)
qed

lemma store_identify_at:
  assumes "d < 64"
  shows "store_identify m a (identify_cmd cid prp1) (a + of_nat d) =
    (if 24 \<le> d \<and> d < 32 then ucast (drop_bit (8 * (d - 24)) prp1)
     else if d = 0 then 6 else if d = 2 then ucast cid else if d = 3 then ucast (drop_bit 8 cid)
     else if d = 40 then 1 else 0)"
proof -
  have "store_identify m a (identify_cmd cid prp1) (a + of_nat d) =
      (if d < 4 then ucast (drop_bit (8 * d) (field 0 (6 :: u8) OR field 16 cid :: u32))
       else if 24 \<le> d \<and> d < 32 then ucast (drop_bit (8 * (d - 24)) prp1)
       else if 40 \<le> d \<and> d < 44 then ucast (drop_bit (8 * (d - 40)) (1 :: u32)) else 0)"
    using assms
    by (simp add: store_identify_def Let_def store_offsets identify_cmd_def identify_zero_def cdw0_encode_def field_def)
  then show ?thesis by (simp only: dword_bytes one_byte) auto
qed

text \<open>The 64 bytes of the Identify command in its queue slot: opcode 6 and the command id in
  dword 0, the physical address of the buffer in PRP 1, CNS 1 in dword 10, and zero elsewhere;
  no byte outside the slot changes.\<close>

lemma identify_bytes:
  "store_identify m a (identify_cmd cid prp1) b =
     (if \<not> in_region a 64 b then m b
      else if in_region (a + 24) 8 b then ucast (drop_bit (8 * unat (b - (a + 24))) prp1)
      else if b = a then 6
      else if b = a + 2 then ucast cid
      else if b = a + 3 then ucast (drop_bit 8 cid)
      else if b = a + 40 then 1 else 0)"
proof (cases "in_region a 64 b")
  case False
  then show ?thesis by (simp add: store_identify_other)
next
  case True
  define d where "d = unat (b - a)"
  have d: "b = a + of_nat d" "d < 64" using True by (simp_all add: d_def in_region_def)
  have r: "24 \<le> d \<and> d < 32 \<longleftrightarrow> in_region (a + 24) 8 b" using offset_region [of d 24 8 a] d by simp
  have p: "unat (b - (a + 24)) = d - 24" if "in_region (a + 24) 8 b"
  using that offset_region [of d 24 8 a] offset_diff [of 24 d a] d by simp
  have nq: "(of_nat d :: u64) = of_nat c \<longleftrightarrow> d = c" if "c < 64" for c
  proof
    assume "(of_nat d :: u64) = of_nat c"
    then have "unat (of_nat d :: u64) = unat (of_nat c :: u64)" by (rule arg_cong)
    with that d(2) show "d = c" by simp
  qed simp
  have q: "b = a \<longleftrightarrow> d = 0" "b = a + 2 \<longleftrightarrow> d = 2" "b = a + 3 \<longleftrightarrow> d = 3" "b = a + 40 \<longleftrightarrow> d = 40"
    using nq [of 0] nq [of 2] nq [of 3] nq [of 40] by (simp_all add: d(1))
  note e = store_identify_at [OF d(2), of m a cid prp1, folded d(1)]
  show ?thesis using True p by (simp only: e r q simp_thms if_True if_False cong: if_cong)
qed

section \<open>Properties\<close>

text \<open>C23: A field of a controller register reads back as the value written to it, when the
  value fits the field and the register keeps what is written, and a write changes no other
  field of the register. This holds for the 32-bit and the 64-bit accesses.\<close>

theorem nvme_field_write_read:
  assumes "quiet hw"
    and "off + sz \<le> 32" and "take_bit sz v = v" and "off' + sz' \<le> 32"
    and "off + sz \<le> off' \<or> off' + sz' \<le> off"
    and "pos + len \<le> 64" and "take_bit len w = w" and "pos' + len' \<le> 64"
    and "pos + len \<le> pos' \<or> pos' + len' \<le> pos"
  shows "fst (nvme_mmio_read_32 hw addr r off sz (nvme_mmio_write_32 hw addr r off v sz s)) = v \<and>
    fst (nvme_mmio_read_32 hw addr r off' sz' (nvme_mmio_write_32 hw addr r off v sz s)) =
      fst (nvme_mmio_read_32 hw addr r off' sz' s) \<and>
    fst (nvme_mmio_read_64 hw addr r pos len (nvme_mmio_write_64 hw addr r pos w len s)) = w \<and>
    fst (nvme_mmio_read_64 hw addr r pos' len' (nvme_mmio_write_64 hw addr r pos w len s)) =
      fst (nvme_mmio_read_64 hw addr r pos' len' s)"
proof -
  obtain port where hw: "hw = quiet_hw port" using quiet_eq [OF assms(1)] by blast
  show ?thesis
    unfolding hw nvme_32_fields nvme_64_fields
    using assms(2-) by (intro conjI r32.read_update r32.read_update_other r64.read_update r64.read_update_other)
      simp_all
qed

definition ex_nvme :: machine where
  "ex_nvme = \<lparr>mem = (\<lambda>_. 0xff), msrs = (\<lambda>_. (0, 0)), tick = 0, events = []\<rparr>"

theorem nvme_field_write_read_witness:
  "fst (nvme_mmio_read_32 (quiet_hw (\<lambda>_ _. 0)) 0x8000 0x24 16 12
     (nvme_mmio_write_32 (quiet_hw (\<lambda>_ _. 0)) 0x8000 0x24 16 31 12 ex_nvme)) = 31"
proof -
  have "take_bit 12 (31 :: u32) = 31" "take_bit 52 (5 :: u64) = 5" by code_simp+
  then show ?thesis
    using nvme_field_write_read [of "quiet_hw (\<lambda>_ _. 0)" 16 12 31 0 12 12 52 5 0 12] by simp
qed

text \<open>Ringing a doorbell advances the tail of the submission queue, or the head of the
  completion queue, by one modulo 32, and does so by a fence and one write of the new value to
  the doorbell register, with the stride the controller reports.\<close>

lemma doorbell_effect:
  "fst (nvme_ring_asq_doorbell hw addr qid (nv, s)) = nv\<lparr>asq_tail := (asq_tail nv + 1) mod 32\<rparr> \<and>
   events (snd (nvme_ring_asq_doorbell hw addr qid (nv, s))) = events s @
     [Mfence, Mmio_write (doorbell_addr addr qid 0 (read_dstrd hw addr s)) ((asq_tail nv + 1) mod 32)] \<and>
   fst (nvme_ring_acq_doorbell hw addr qid (nv, s)) = nv\<lparr>acq_head := (acq_head nv + 1) mod 32\<rparr> \<and>
   events (snd (nvme_ring_acq_doorbell hw addr qid (nv, s))) = events s @
     [Mfence, Mmio_write (doorbell_addr addr qid 1 (read_dstrd hw addr s)) ((acq_head nv + 1) mod 32)]"
  by (intro conjI ring_asq ring_acq)

text \<open>C27: After any number of Identify commands that returned, both queue indices are that
  number modulo 32, the expected phase has flipped once per round of the queue, and so has
  the command id: the 32 commands of a round share one id.\<close>

theorem identify_queue_state:
  assumes "after_commands env hw addr k nv"
  shows "asq_tail nv = of_nat (k mod 32) \<and> acq_head nv = asq_tail nv \<and>
    acq_phase nv = of_bool (even (k div 32)) \<and> exp_cid nv = 0x1000 + of_nat (k div 32)"
  using after_commands_state [OF assms] by (simp add: state_at_def)

lemma identify_returns:
  assumes "quiet hw" and "nvme_submit_identify env hw addr (nv, s) = (nv1, s1)"
    and "phase_at (mem s1) (acq_addr env + ucast (acq_head nv) * 16) = acq_phase nv"
  shows "\<exists>r. nvme_command_identify env hw addr (nv, g, s) = Some r"
proof -
  have "nv1 = nv\<lparr>asq_tail := (asq_tail nv + 1) mod 32\<rparr>"
    using ring_asq(1) [of hw addr 0 nv] assms(2)
    by (auto simp: nvme_submit_identify_def Let_def dest: arg_cong [of _ _ fst])
  moreover have "phase_at (read_mem hw s1 0) (acq_addr env + ucast (acq_head nv) * 16) = acq_phase nv"
    using assms(1,3) by (simp add: quiet_def)
  note wait_cqe_found [OF this, where timeout = "0xffffff" and g = g]
  ultimately show ?thesis by (simp add: nvme_command_identify_def assms(2) Let_def case_prod_unfold)
qed

definition ex_env :: nvme_env where
  "ex_env = \<lparr>asq_addr = 0x3000, acq_addr = 0x4000, identify_buf = 0x5000, env_cr3 = 0x6000,
     env_bitfield = Declared_type\<rparr>"

theorem identify_queue_state_witness:
  "\<exists>nv. after_commands ex_env (quiet_hw (\<lambda>_ _. 0)) 0x8000 1 nv \<and> asq_tail nv = 1 \<and> exp_cid nv = 0x1000"
proof -
  obtain nv1 s1 where s: "nvme_submit_identify ex_env (quiet_hw (\<lambda>_ _. 0)) 0x8000 (nvme_init, ex_nvme) = (nv1, s1)"
    by (metis surj_pair)
  have "mem s1 = mem (snd (nvme_submit_identify ex_env (quiet_hw (\<lambda>_ _. 0)) 0x8000 (nvme_init, ex_nvme)))"
    using s by simp
  also have "\<dots> = store32 (store_identify (mem ex_nvme) 0x3000 (identify_cmd 0x1000
      (vir_to_phys Declared_type 0x6000 (mem ex_nvme) 0x5000))) 0x9000 (1 mod 32)"
    by (simp only: nvme_submit_identify_def Let_def prod.case ring_asq_mem)
      (simp add: doorbell_addr_def nvme_init_def ex_env_def)
  finally have s1: "mem s1 = store32 (store_identify (mem ex_nvme) 0x3000 (identify_cmd 0x1000
      (vir_to_phys Declared_type 0x6000 (mem ex_nvme) 0x5000))) 0x9000 (1 mod 32)" .
  have "mem s1 (0x400c + of_nat i) = 0xff" if "i < 4" for i
  proof -
    from that have "i \<in> {0, 1, 2, 3}" by auto
    then have "\<not> in_region 0x9000 4 (0x400c + of_nat i :: u64)" "\<not> in_region 0x3000 64 (0x400c + of_nat i :: u64)"
      by (auto simp: in_region_def)
    then show ?thesis by (simp add: s1 store_le_other identify_bytes ex_nvme_def)
  qed
  then have "load32 (mem s1) 0x400c = load32 (\<lambda>_. 0xff) 0x400c" by (intro load_le_cong) simp
  then have "phase_at (mem s1) 0x4000 = phase_at (\<lambda>_. 0xff) 0x4000" by (simp add: phase_at_def)
  also have "\<dots> = 1" by code_simp
  finally have "phase_at (mem s1) (acq_addr ex_env + ucast (acq_head nvme_init) * 16) = acq_phase nvme_init"
    by (simp add: ex_env_def nvme_init_def)
  from identify_returns [OF quiet_hw s this, of ex_graphics] obtain nv g' s' where
    r: "nvme_command_identify ex_env (quiet_hw (\<lambda>_ _. 0)) 0x8000 (nvme_init, ex_graphics, ex_nvme) = Some (nv, g', s')"
    by (metis prod_cases3)
  have "after_commands ex_env (quiet_hw (\<lambda>_ _. 0)) 0x8000 (Suc 0) nv"
    by (rule after_commands.command [OF after_commands.start r])
  with identify_queue_state [OF this] show ?thesis by auto
qed



end
