(* ===== verification/Segments.thy ===== *)
theory Segments
  imports Machine
begin

text \<open>
  \<open>boot/kernel/gdt.c\<close>, \<open>gdt.h\<close>, \<open>load_gdt\<close>, the jump to user mode of \<open>kernel.h\<close> and
  \<open>syscall.c\<close>: the segment descriptors and the selectors that refer to them.
\<close>

section \<open>Descriptors\<close>

record SEGMENT_DESCRIPTOR =
  lim0 :: u16
  base0 :: u16
  base1 :: u8
  seg_a :: u8
  lim1 :: "4 word"
  flag :: "4 word"
  base2 :: u8

definition segment_encode :: "SEGMENT_DESCRIPTOR \<Rightarrow> u64" where
  "segment_encode d = field 0 (lim0 d) OR field 16 (base0 d) OR field 32 (base1 d) OR field 40 (seg_a d)
     OR field 48 (lim1 d) OR field 52 (flag d) OR field 56 (base2 d)"

definition segment_decode :: "u64 \<Rightarrow> SEGMENT_DESCRIPTOR" where
  "segment_decode w = \<lparr>lim0 = field_at 0 w, base0 = field_at 16 w, base1 = field_at 32 w,
     seg_a = field_at 40 w, lim1 = field_at 48 w, flag = field_at 52 w, base2 = field_at 56 w\<rparr>"

text \<open>The initialiser of \<open>gdt\<close>, in the order of the struct; its alignment makes it a page.\<close>

definition gdt :: "SEGMENT_DESCRIPTOR list" where
  "gdt =
    [\<lparr>lim0 = 0x0000, base0 = 0, base1 = 0, seg_a = 0x00, lim1 = 0b0000, flag = 0b0000, base2 = 0\<rparr>,
     \<lparr>lim0 = 0x0000, base0 = 0, base1 = 0, seg_a = 0x9a, lim1 = 0b0000, flag = 0b0010, base2 = 0\<rparr>,
     \<lparr>lim0 = 0x0000, base0 = 0, base1 = 0, seg_a = 0x92, lim1 = 0b0000, flag = 0b0000, base2 = 0\<rparr>,
     \<lparr>lim0 = 0x0000, base0 = 0, base1 = 0, seg_a = 0xfa, lim1 = 0b0000, flag = 0b0010, base2 = 0\<rparr>,
     \<lparr>lim0 = 0x0000, base0 = 0, base1 = 0, seg_a = 0xf2, lim1 = 0b0000, flag = 0b0000, base2 = 0\<rparr>]"

abbreviation SIZEOF_GDT :: nat where "SIZEOF_GDT \<equiv> 4096"

definition gdtr_size :: u16 where "gdtr_size = of_nat (SIZEOF_GDT - 1)"

text \<open>The bytes of the object \<open>gdt\<close>: the five descriptors, and zeros up to its aligned size.\<close>

definition gdt_entry :: "nat \<Rightarrow> u64" where
  "gdt_entry i = (if i < length gdt then segment_encode (gdt ! i) else 0)"

text \<open>\<open>load_gdt\<close> loads the table register and then the selectors 0x08 for code and 0x10 for data.\<close>

record selectors =
  sel_cs :: u16
  sel_data :: u16

definition load_gdt :: "u64 \<Rightarrow> selectors \<times> machine \<Rightarrow> selectors \<times> machine" where
  "load_gdt gdt_addr st = (\<lparr>sel_cs = 0x08, sel_data = 0x10\<rparr>, log_event (Lgdt gdtr_size gdt_addr) (snd st))"

section \<open>Entering user mode\<close>

text \<open>
  What \<open>enter_usr_mode\<close> pushes for \<open>iretq\<close>, last pushed first: the entry point, the code
  selector, the flags, the stack pointer as it is after the first push, the stack selector.
\<close>

definition enter_usr_frame :: "u64 \<Rightarrow> u64 \<Rightarrow> u64 list" where
  "enter_usr_frame entry usr_stack = [entry, 0x18, 0x202, usr_stack - 8, 0x20]"

text \<open>The value \<open>_start\<close> writes to \<open>IA32_STAR\<close>.\<close>

definition star_value :: "u64 \<Rightarrow> u64" where
  "star_value old = (old AND 0xffffffff) OR push_bit 32 0x08 OR push_bit 48 0x18"

text \<open>The kernel's set-up of the system call registers (\<open>IA32_EFER\<close>, \<open>LSTAR\<close>, \<open>STAR\<close>, \<open>FMASK\<close>).\<close>

definition set_syscall :: "u64 \<Rightarrow> machine \<Rightarrow> machine" where
  "set_syscall handler s =
     (let s = wrmsr 0xc0000080 (rdmsr 0xc0000080 s OR 1) s;
          s = wrmsr 0xc0000082 handler s;
          s = wrmsr 0xc0000081 (star_value (rdmsr 0xc0000081 s)) s
      in wrmsr 0xc0000084 (rdmsr 0xc0000084 s OR push_bit 9 1) s)"

text \<open>\<open>syscall_handler\<close>: it does nothing and returns, except that call 12 never returns.\<close>

definition syscall_handler :: "u64 \<Rightarrow> unit option" where
  "syscall_handler num = (if num = 0 then Some () else if num = 1 then Some ()
     else if num = 12 then None else Some ())"

section \<open>Selectors\<close>

text \<open>The index and the requested privilege level of a selector, and of a descriptor the
  privilege level, whether it is present, and whether it is 64-bit code.\<close>

definition sel_index :: "u16 \<Rightarrow> nat" where "sel_index s = unat (drop_bit 3 s)"
definition sel_rpl :: "u16 \<Rightarrow> nat" where "sel_rpl s = unat (take_bit 2 s)"
definition desc_dpl :: "u64 \<Rightarrow> nat" where "desc_dpl d = unat (take_bit 2 (drop_bit 45 d))"
definition desc_present :: "u64 \<Rightarrow> bool" where "desc_present d = bit d 47"
definition desc_code64 :: "u64 \<Rightarrow> bool" where "desc_code64 d \<longleftrightarrow> bit d 44 \<and> bit d 43 \<and> bit d 53"
definition desc_writable :: "u64 \<Rightarrow> bool" where "desc_writable d \<longleftrightarrow> bit d 44 \<and> \<not> bit d 43 \<and> bit d 41"

lemma segment_round_trip: "segment_decode (segment_encode d) = d"
  unfolding segment_decode_def segment_encode_def
  by (rule SEGMENT_DESCRIPTOR.equality; simp; rule bit_word_eqI)
     (auto simp: bit_or_iff bit_field bit_field_at)

lemma segment_encode_decode: "segment_encode (segment_decode w) = w"
  unfolding segment_encode_def segment_decode_def
  by (simp add: fields_join take_bit_word_eq_self flip: or.assoc numeral_2_eq_2)

text \<open>The selectors \<open>SYSRET\<close> loads from \<open>IA32_STAR\<close> in 64-bit mode.\<close>

definition sysret_cs :: "u64 \<Rightarrow> u16" where "sysret_cs star = (ucast (drop_bit 48 star) + 16) OR 3"
definition sysret_ss :: "u64 \<Rightarrow> u16" where "sysret_ss star = (ucast (drop_bit 48 star) + 8) OR 3"

lemma star_high: "drop_bit 48 (star_value old) = 0x18"
proof -
  have "drop_bit 48 (take_bit 32 old) = 0" by (rule bit_word_eqI) (auto simp: bit_drop_bit_eq bit_take_bit_iff)
  then show ?thesis by (simp add: star_value_def and_literal_mask drop_bit_or)
qed

lemma ucast_0x18: "(ucast (0x18 :: u64) :: u16) = 0x18"
  by simp

section \<open>Properties\<close>


text \<open>After the system call set-up, \<open>syscall\<close> is enabled with every other bit of \<open>IA32_EFER\<close>
  kept, \<open>LSTAR\<close> is the handler, \<open>STAR\<close> has the selector bases 0x08 and 0x18 over its old low
  half, \<open>FMASK\<close> masks the interrupt flag, and no other register changes.\<close>

lemma set_syscall_registers:
  "rdmsr 0xc0000080 (set_syscall h s) = rdmsr 0xc0000080 s OR 1 \<and>
   rdmsr 0xc0000082 (set_syscall h s) = h \<and>
   rdmsr 0xc0000081 (set_syscall h s) = (rdmsr 0xc0000081 s AND 0xffffffff) OR 0x0018000800000000 \<and>
   rdmsr 0xc0000084 (set_syscall h s) = rdmsr 0xc0000084 s OR 0x200 \<and>
   (r \<in> {0xc0000080, 0xc0000081, 0xc0000082, 0xc0000084} \<or> rdmsr r (set_syscall h s) = rdmsr r s)"
proof -
  have "r \<notin> {0xc0000080, 0xc0000081, 0xc0000082, 0xc0000084} \<Longrightarrow> rdmsr r (set_syscall h s) = rdmsr r s"
    by (simp add: set_syscall_def Let_def rdmsr_wrmsr_other)
  moreover have "rdmsr 0xc0000080 (set_syscall h s) = rdmsr 0xc0000080 s OR 1"
    "rdmsr 0xc0000082 (set_syscall h s) = h"
    "rdmsr 0xc0000081 (set_syscall h s) = (rdmsr 0xc0000081 s AND 0xffffffff) OR 0x0018000800000000"
    "rdmsr 0xc0000084 (set_syscall h s) = rdmsr 0xc0000084 s OR 0x200"
    by (simp_all add: set_syscall_def Let_def rdmsr_wrmsr rdmsr_wrmsr_other star_value_def or.assoc)
  ultimately show ?thesis by blast
qed

end
