(* ===== verification/Idt.thy ===== *)
theory Idt
  imports Page_Props Console
begin

text \<open>
  \<open>boot/kernel/idt.c\<close> and \<open>idt.h\<close>: the gate descriptors, \<open>set_idt\<close> with the initialisation of
  the two interrupt controllers, and the interrupt handlers. The addresses of the handlers are
  what the linker makes them, the record \<open>isrs\<close>.
\<close>

section \<open>Gates\<close>

record GATE_DESCRIPTOR =
  offs0 :: u16
  gate_seg :: u16
  ist :: "3 word"
  zero0 :: "5 word"
  gate_type :: "4 word"
  zero1 :: "1 word"
  dpl :: "2 word"
  gate_p :: "1 word"
  offs1 :: u16
  offs2 :: u32
  zero2 :: u32

definition gate_encode :: "GATE_DESCRIPTOR \<Rightarrow> 128 word" where
  "gate_encode g = field 0 (offs0 g) OR field 16 (gate_seg g) OR field 32 (ist g) OR field 35 (zero0 g)
     OR field 40 (gate_type g) OR field 44 (zero1 g) OR field 45 (dpl g) OR field 47 (gate_p g)
     OR field 48 (offs1 g) OR field 64 (offs2 g) OR field 96 (zero2 g)"

definition gate_decode :: "128 word \<Rightarrow> GATE_DESCRIPTOR" where
  "gate_decode w = \<lparr>offs0 = field_at 0 w, gate_seg = field_at 16 w, ist = field_at 32 w,
     zero0 = field_at 35 w, gate_type = field_at 40 w, zero1 = field_at 44 w, dpl = field_at 45 w,
     gate_p = field_at 47 w, offs1 = field_at 48 w, offs2 = field_at 64 w, zero2 = field_at 96 w\<rparr>"

record IDT =
  idt_ignore :: GATE_DESCRIPTOR
  idt_timer :: GATE_DESCRIPTOR
  idt_keyboard :: GATE_DESCRIPTOR
  idt_spurious_irq :: GATE_DESCRIPTOR
  idt_int_2b :: GATE_DESCRIPTOR
  idt_pf :: GATE_DESCRIPTOR
  idt_df :: GATE_DESCRIPTOR
  idt_gp :: GATE_DESCRIPTOR

abbreviation SIZEOF_IDT :: nat where "SIZEOF_IDT \<equiv> 4096"
abbreviation SIZEOF_GATE :: u64 where "SIZEOF_GATE \<equiv> 16"

record IDTR =
  idtr_size :: u16
  idtr_offs :: u64

record isrs =
  isr_timer :: u64
  isr_keyboard :: u64
  isr_spurious_irq :: u64
  isr_int_2b :: u64
  isr_pf :: u64
  isr_df :: u64
  isr_gp :: u64

text \<open>The ten assignments that \<open>set_idt\<close> makes for each gate; the last field is not assigned.\<close>

definition set_gate :: "u64 \<Rightarrow> 4 word \<Rightarrow> GATE_DESCRIPTOR \<Rightarrow> GATE_DESCRIPTOR" where
  "set_gate isr t g = g\<lparr>offs0 := ucast (isr AND 0xffff), gate_seg := 0x0008, ist := 0, zero0 := 0,
     gate_type := t, zero1 := 0, dpl := 0, gate_p := 1,
     offs1 := ucast (drop_bit 16 isr AND 0xffff), offs2 := ucast (drop_bit 32 isr AND 0xffffffff)\<rparr>"

definition store_gate :: "u64 \<Rightarrow> u64 \<Rightarrow> GATE_DESCRIPTOR \<Rightarrow> mem \<Rightarrow> mem" where
  "store_gate offs v g m = store_le 16 m (offs + v * SIZEOF_GATE) (gate_encode g)"

section \<open>The interrupt controllers\<close>

abbreviation PIC1_COM :: u16 where "PIC1_COM \<equiv> 0x20"
abbreviation PIC1_DATA :: u16 where "PIC1_DATA \<equiv> 0x21"
abbreviation PIC2_COM :: u16 where "PIC2_COM \<equiv> 0xa0"
abbreviation PIC2_DATA :: u16 where "PIC2_DATA \<equiv> 0xa1"
abbreviation ICW1_ICW4 :: u8 where "ICW1_ICW4 \<equiv> 0x01"
abbreviation ICW1_INIT :: u8 where "ICW1_INIT \<equiv> 0x10"
abbreviation ICW4_8086 :: u8 where "ICW4_8086 \<equiv> 0x01"

definition init_pics :: "machine \<Rightarrow> machine" where
  "init_pics = fold (\<lambda>(v, port) s. io_wait (outb v port s))
     [(ICW1_INIT OR ICW1_ICW4, PIC1_COM), (ICW1_INIT OR ICW1_ICW4, PIC2_COM),
      (0x20, PIC1_DATA), (0x28, PIC2_DATA), (0x04, PIC1_DATA), (0x02, PIC2_DATA),
      (ICW4_8086, PIC1_DATA), (ICW4_8086, PIC2_DATA), (0x00, PIC1_DATA), (0x00, PIC2_DATA)]"

section \<open>set_idt\<close>

definition set_gates :: "isrs \<Rightarrow> IDT \<Rightarrow> IDT" where
  "set_gates r idt =
     (let idt = idt\<lparr>idt_timer := set_gate (isr_timer r) 0b1110 (idt_timer idt)\<rparr>;
          idt = idt\<lparr>idt_keyboard := set_gate (isr_keyboard r) 0b1110 (idt_keyboard idt)\<rparr>;
          idt = idt\<lparr>idt_spurious_irq := set_gate (isr_spurious_irq r) 0b1110 (idt_spurious_irq idt)\<rparr>;
          idt = idt\<lparr>idt_int_2b := set_gate (isr_int_2b r) 0b1110 (idt_int_2b idt)\<rparr>;
          idt = idt\<lparr>idt_pf := set_gate (isr_pf r) 0b1111 (idt_pf idt)\<rparr>;
          idt = idt\<lparr>idt_df := set_gate (isr_df r) 0b1111 (idt_df idt)\<rparr>
      in idt\<lparr>idt_gp := set_gate (isr_gp r) 0b1111 (idt_gp idt)\<rparr>)"

definition store_gates :: "u64 \<Rightarrow> IDT \<Rightarrow> mem \<Rightarrow> mem" where
  "store_gates offs idt m =
     (let m = store_gate offs 0x20 (idt_timer idt) m;
          m = store_gate offs 0x21 (idt_keyboard idt) m;
          m = store_gate offs 0x27 (idt_spurious_irq idt) m;
          m = store_gate offs 0x2b (idt_int_2b idt) m;
          m = store_gate offs 0x0e (idt_pf idt) m;
          m = store_gate offs 0x08 (idt_df idt) m
      in store_gate offs 0x0d (idt_gp idt) m)"

definition set_idt ::
    "isrs \<Rightarrow> IDT \<times> PAGE_BITMAP \<times> machine \<Rightarrow> IDT \<times> IDTR \<times> PAGE_BITMAP \<times> machine" where
  "set_idt r st =
     (let (idt, pb, s) = st;
          idt = set_gates r idt;
          (offs, pb, m) = req_page (pb, mem s);
          idtr = \<lparr>idtr_size = of_nat (SIZEOF_IDT - 1), idtr_offs = offs\<rparr>;
          s = s\<lparr>mem := store_gates offs idt m\<rparr>;
          s = log_event (Lidt (idtr_size idtr) (idtr_offs idtr)) s;
          s = log_event Cli s;
          s = init_pics s
      in (idt, idtr, pb, log_event Sti s))"

section \<open>Handlers\<close>

text \<open>The four interrupt handlers acknowledge the interrupt and return.\<close>

definition irq_handler :: "machine \<Rightarrow> machine" where
  "irq_handler s = outb 0x20 0x20 s"

text \<open>
  The three exception handlers disable interrupts and halt; what follows the halt runs only
  if the processor is woken (\<open>woken\<close>), and then ends in an endless loop, so they never return.
  The result is the state they stay in.
\<close>

definition exception_handler :: "string \<Rightarrow> bool \<Rightarrow> GRAPHICS \<times> machine \<Rightarrow> (GRAPHICS \<times> machine) option" where
  "exception_handler name woken gs =
     (let s = outb 0x20 0x20 (snd gs);
          s = log_event Cli s;
          s = log_event Hlt s
      in if woken
         then let (g, m) = clear_screen 0xff444444 (fst gs, mem s)
              in map_option (\<lambda>(g, m). (g, s\<lparr>mem := m\<rparr>)) (kputs (map of_char name @ [10, 0]) (g, m))
         else Some (fst gs, s))"

section \<open>Reading the table back\<close>

lemma gate_round_trip: "gate_decode (gate_encode g) = g"
  unfolding gate_decode_def gate_encode_def
  by (rule GATE_DESCRIPTOR.equality; simp; rule bit_word_eqI)
     (auto simp: bit_or_iff bit_field bit_field_at)

definition load_gate :: "mem \<Rightarrow> u64 \<Rightarrow> u64 \<Rightarrow> GATE_DESCRIPTOR" where
  "load_gate m offs v = gate_decode (load_le 16 m (offs + v * SIZEOF_GATE))"

text \<open>The address a gate leads to, as the processor assembles it.\<close>

definition gate_target :: "GATE_DESCRIPTOR \<Rightarrow> u64" where
  "gate_target g = field 0 (offs0 g) OR field 16 (offs1 g) OR field 32 (offs2 g)"

lemma gate_target_set: "gate_target (set_gate isr t g) = isr"
proof (rule bit_word_eqI)
  fix n :: nat
  assume n: "n < LENGTH(64)"
  have "bit (gate_target (set_gate isr t g)) n \<longleftrightarrow>
      n < 16 \<and> bit isr n \<or> 16 \<le> n \<and> n < 32 \<and> bit isr (16 + (n - 16)) \<or> 32 \<le> n \<and> bit isr (32 + (n - 32))"
    using n by (auto simp: gate_target_def set_gate_def bit_defs bit_or_iff bit_ucast_iff
        bit_take_bit_iff bit_drop_bit_eq)
  then show "bit (gate_target (set_gate isr t g)) n = bit isr n" by (cases "n < 16"; cases "n < 32") simp_all
qed

lemma load_store_gate: "load_gate (store_gate offs v g m) offs v = g"
  by (simp add: load_gate_def store_gate_def mem_simps gate_round_trip)

lemma gate_apart:
  assumes "v < 256" "w < 256" "v \<noteq> w"
  shows "apart (offs + v * SIZEOF_GATE) 16 (offs + w * SIZEOF_GATE) 16"
proof -
  have "unat v \<noteq> unat w" using assms(3) by (simp add: word_unat_eq_iff)
  then have "apart (offs + of_nat (unat v * 16)) 16 (offs + of_nat (unat w * 16)) 16"
    using assms(1,2) by (intro apart_offset) (auto simp: word_less_nat_alt)
  then show ?thesis by simp
qed

lemma load_gate_other:
  "v < 256 \<Longrightarrow> w < 256 \<Longrightarrow> v \<noteq> w \<Longrightarrow> load_gate (store_gate offs v g m) offs w = load_gate m offs w"
  using gate_apart [of v w offs]
  by (simp add: load_gate_def store_gate_def load_store_apart)

definition idt_vectors :: "isrs \<Rightarrow> (u64 \<times> u64 \<times> 4 word) list" where
  "idt_vectors r = [(0x20, isr_timer r, 0b1110), (0x21, isr_keyboard r, 0b1110),
     (0x27, isr_spurious_irq r, 0b1110), (0x2b, isr_int_2b r, 0b1110), (0x0e, isr_pf r, 0b1111),
     (0x08, isr_df r, 0b1111), (0x0d, isr_gp r, 0b1111)]"

definition gate_for :: "u64 \<Rightarrow> 4 word \<Rightarrow> GATE_DESCRIPTOR \<Rightarrow> bool" where
  "gate_for isr t g \<longleftrightarrow> gate_target g = isr \<and> gate_type g = t \<and> gate_p g = 1 \<and> gate_seg g = 8 \<and>
     dpl g = 0 \<and> ist g = 0"

lemma gate_for_set: "gate_for isr t (set_gate isr t g)"
  by (simp add: gate_for_def gate_target_set) (simp add: set_gate_def)

lemma store_gates_load:
  assumes "(v, isr, t) \<in> set (idt_vectors r)"
  shows "gate_for isr t (load_gate (store_gates offs (set_gates r idt) m) offs v)"
  using assms
  by (auto simp: idt_vectors_def store_gates_def Let_def load_store_gate load_gate_other set_gates_def gate_for_set)

lemma store_gates_other:
  assumes "\<And>v isr t. (v, isr, t) \<in> set (idt_vectors r) \<Longrightarrow> \<not> in_region (offs + v * 16) 16 b"
  shows "store_gates offs idt m b = m b"
proof -
  have "store_gate offs v g m b = m b" if "(v, isr, t) \<in> set (idt_vectors r)" for v isr t g m
    using assms [OF that] by (simp add: store_gate_def store_le_other)
  then have "store_gate offs v g m b = m b" if "v \<in> {0x20, 0x21, 0x27, 0x2b, 0x0e, 0x08, 0x0d}" for v g m
    using that by (auto simp: idt_vectors_def)
  then show ?thesis by (simp add: store_gates_def Let_def)
qed

lemma pic_trace:
  "events (init_pics s) = events s @ concat (map (\<lambda>(v, port). [Outb v port, Outb 0 128])
     [(0x11, 0x20), (0x11, 0xa0), (0x20, 0x21), (0x28, 0xa1), (0x04, 0x21), (0x02, 0xa1),
      (0x01, 0x21), (0x01, 0xa1), (0, 0x21), (0, 0xa1)])"
  by (simp add: init_pics_def outb_def io_wait_def)

lemma mem_init_pics: "mem (init_pics s) = mem s"
  by (simp add: init_pics_def)

section \<open>Properties\<close>

text \<open>C28: \<open>set_idt\<close> leaves, in the page it requests, a present gate of ring 0 for each of the
  seven handlers, whose parts assemble to the address of the handler; it writes no other byte
  of that page, which is not cleared, or elsewhere. It then loads a limit of 4095 and that
  page, programs both controllers and masks none of their lines, and enables interrupts last.\<close>

theorem set_idt_table:
  assumes "set_idt r (idt, pb, s) = (idt', idtr, pb', s')"
    and "req_page (pb, mem s) = (offs, pb1, m1)"
  shows "(\<forall>(v, isr, t) \<in> set (idt_vectors r). gate_for isr t (load_gate (mem s') offs v)) \<and>
    (\<forall>b. (\<forall>(v, isr, t) \<in> set (idt_vectors r). \<not> in_region (offs + v * 16) 16 b) \<longrightarrow> mem s' b = m1 b) \<and>
    pb' = pb1 \<and>
    events s' = events s @ [Lidt 4095 offs, Cli] @ concat (map (\<lambda>(v, port). [Outb v port, Outb 0 128])
      [(0x11, 0x20), (0x11, 0xa0), (0x20, 0x21), (0x28, 0xa1), (0x04, 0x21), (0x02, 0xa1),
       (0x01, 0x21), (0x01, 0xa1), (0, 0x21), (0, 0xa1)]) @ [Sti]"
proof -
  have m: "mem s' = store_gates offs (set_gates r idt) m1" and p: "pb' = pb1"
    and e: "events s' = events (init_pics (log_event Cli (log_event (Lidt 4095 offs)
        (s\<lparr>mem := store_gates offs (set_gates r idt) m1\<rparr>)))) @ [Sti]"
    using assms by (auto simp: set_idt_def Let_def mem_init_pics simp del: req_page.simps)
  have "gate_for isr t (load_gate (mem s') offs v)" if "(v, isr, t) \<in> set (idt_vectors r)" for v isr t
    unfolding m using that by (rule store_gates_load)
  moreover have "mem s' b = m1 b" if "\<forall>(v, isr, t) \<in> set (idt_vectors r). \<not> in_region (offs + v * 16) 16 b" for b
    unfolding m using that by (intro store_gates_other [of r]) auto
  moreover have "events s' = events s @ [Lidt 4095 offs, Cli] @ concat (map (\<lambda>(v, port). [Outb v port, Outb 0 128])
      [(0x11, 0x20), (0x11, 0xa0), (0x20, 0x21), (0x28, 0xa1), (0x04, 0x21), (0x02, 0xa1),
       (0x01, 0x21), (0x01, 0xa1), (0, 0x21), (0, 0xa1)]) @ [Sti]"
    unfolding e pic_trace by simp
  ultimately show ?thesis using p by blast
qed

definition ex_gate :: GATE_DESCRIPTOR where
  "ex_gate = gate_decode 0"

definition ex_idt :: IDT where
  "ex_idt = \<lparr>idt_ignore = ex_gate, idt_timer = ex_gate, idt_keyboard = ex_gate,
     idt_spurious_irq = ex_gate, idt_int_2b = ex_gate, idt_pf = ex_gate, idt_df = ex_gate, idt_gp = ex_gate\<rparr>"

definition ex_isrs :: isrs where
  "ex_isrs = \<lparr>isr_timer = 0x100000, isr_keyboard = 0x100100, isr_spurious_irq = 0x100200,
     isr_int_2b = 0x100300, isr_pf = 0xffff800000100400, isr_df = 0x100500, isr_gp = 0x100600\<rparr>"

theorem set_idt_table_witness:
  "\<exists>idt' idtr pb' s' offs. set_idt ex_isrs (ex_idt, ex_pb, ex_mach) = (idt', idtr, pb', s') \<and>
     gate_target (load_gate (mem s') offs 0x0e) = 0xffff800000100400"
proof -
  obtain idt' idtr pb' s' where s: "set_idt ex_isrs (ex_idt, ex_pb, ex_mach) = (idt', idtr, pb', s')"
    by (metis prod_cases4)
  obtain offs pb1 m1 where q: "req_page (ex_pb, mem ex_mach) = (offs, pb1, m1)" by (metis prod_cases3)
  have "(0x0e, 0xffff800000100400, 0b1111) \<in> set (idt_vectors ex_isrs)"
    by (simp add: idt_vectors_def ex_isrs_def)
  with set_idt_table [OF s q] have "gate_for 0xffff800000100400 0b1111 (load_gate (mem s') offs 0x0e)" by fast
  with s show ?thesis by (auto simp: gate_for_def)
qed

end
