(* ===== verification/Boot_Memory.thy ===== *)
theory Boot_Memory
  imports Page_Props
begin

text \<open>
  The part of \<open>_start\<close> in \<open>boot/kernel/kernel.c\<close> that turns the firmware memory map into the
  page bitmap: the scan for the total size and the largest free range, the bitmap in that
  range, and the reservation of everything that is not conventional memory.
\<close>

section \<open>The memory map\<close>

text \<open>A descriptor has its type at 0, its physical address at 8 and its page count at 24.\<close>

definition desc_addr :: "u64 \<Rightarrow> u64 \<Rightarrow> nat \<Rightarrow> u64" where
  "desc_addr mmap desc_size i = mmap + desc_size * of_nat i"

definition desc_type :: "mem \<Rightarrow> u64 \<Rightarrow> u32" where "desc_type m d = load32 m d"
definition desc_phys :: "mem \<Rightarrow> u64 \<Rightarrow> u64" where "desc_phys m d = load64 m (d + 8)"
definition desc_pages :: "mem \<Rightarrow> u64 \<Rightarrow> u64" where "desc_pages m d = load64 m (d + 24)"

section \<open>The scan\<close>

record scan =
  largest_desc :: u64
  largest_desc_size :: u64
  total_mem_size :: u64

definition scan_desc :: "mem \<Rightarrow> u64 \<Rightarrow> scan \<Rightarrow> scan" where
  "scan_desc m d sc =
     (let sc = sc\<lparr>total_mem_size := total_mem_size sc + desc_pages m d * PAGE_SIZE\<rparr>
      in if desc_type m d = 7
         then (if desc_pages m d * PAGE_SIZE > largest_desc_size sc
               then sc\<lparr>largest_desc := desc_phys m d, largest_desc_size := desc_pages m d * PAGE_SIZE\<rparr>
               else sc)
         else sc)"

definition scan_mmap :: "mem \<Rightarrow> u64 \<Rightarrow> u64 \<Rightarrow> nat \<Rightarrow> scan" where
  "scan_mmap m mmap desc_size n =
     fold (\<lambda>i. scan_desc m (desc_addr mmap desc_size i)) [0..<n]
       \<lparr>largest_desc = 0, largest_desc_size = 0, total_mem_size = 0\<rparr>"

section \<open>The bitmap\<close>

definition init_bitmap :: "scan \<Rightarrow> pager \<Rightarrow> pager" where
  "init_bitmap sc s =
     (let (pb, m) = s;
          pb = pb\<lparr>pb_free := total_mem_size sc\<rparr>;
          pb = pb\<lparr>pb_bitmap := \<lparr>bm_buffer = largest_desc sc,
                 bm_size = total_mem_size sc div PAGE_SIZE div 8 + 1\<rparr>\<rparr>;
          m = memset m (bm_buffer (pb_bitmap pb)) 0 (unat (bm_size (pb_bitmap pb)))
      in lock_pages (bm_buffer (pb_bitmap pb)) (bm_size (pb_bitmap pb) div PAGE_SIZE + 1) (pb, m))"

definition reserve_desc :: "u64 \<Rightarrow> pager \<Rightarrow> pager" where
  "reserve_desc d s =
     (if desc_type (snd s) d \<noteq> 7 then reserve_pages (desc_phys (snd s) d) (desc_pages (snd s) d) s else s)"

definition reserve_mmap :: "u64 \<Rightarrow> u64 \<Rightarrow> nat \<Rightarrow> pager \<Rightarrow> pager" where
  "reserve_mmap mmap desc_size n = fold (\<lambda>i. reserve_desc (desc_addr mmap desc_size i)) [0..<n]"

text \<open>Lines 36 to 70: \<open>None\<close> is the fault of the division by a zero descriptor size.\<close>

definition boot_bitmap :: "u64 \<Rightarrow> u64 \<Rightarrow> u64 \<Rightarrow> u64 \<Rightarrow> u64 \<Rightarrow> pager \<Rightarrow> (u64 \<times> pager) option" where
  "boot_bitmap mmap map_size desc_size kernel_start kernel_end s =
     (if desc_size = 0 then None
      else let mmap_entries = unat (map_size div desc_size);
               sc = scan_mmap (snd s) mmap desc_size mmap_entries;
               s = init_bitmap sc s;
               s = reserve_mmap mmap desc_size mmap_entries s;
               kernel_size = kernel_end - kernel_start;
               kernel_pages = kernel_size div PAGE_SIZE + 1;
               s = reserve_pages kernel_start kernel_pages s
           in Some (total_mem_size sc, s))"

section \<open>What the scan finds\<close>

definition desc_size_bytes :: "mem \<Rightarrow> u64 \<Rightarrow> u64" where
  "desc_size_bytes m d = desc_pages m d * PAGE_SIZE"

text \<open>\<open>i\<close> is the first of the largest conventional ranges among the first \<open>n\<close>.\<close>

definition first_largest :: "mem \<Rightarrow> (nat \<Rightarrow> u64) \<Rightarrow> nat \<Rightarrow> nat \<Rightarrow> bool" where
  "first_largest m d n i \<longleftrightarrow> i < n \<and> desc_type m (d i) = 7 \<and> 0 < desc_size_bytes m (d i) \<and>
     (\<forall>j<n. desc_type m (d j) = 7 \<longrightarrow> desc_size_bytes m (d j) \<le> desc_size_bytes m (d i) \<and>
        (desc_size_bytes m (d j) = desc_size_bytes m (d i) \<longrightarrow> i \<le> j))"

definition scan_ok :: "mem \<Rightarrow> (nat \<Rightarrow> u64) \<Rightarrow> nat \<Rightarrow> scan \<Rightarrow> bool" where
  "scan_ok m d n sc \<longleftrightarrow> total_mem_size sc = sum_list (map (\<lambda>i. desc_size_bytes m (d i)) [0..<n]) \<and>
     (if \<exists>j<n. desc_type m (d j) = 7 \<and> 0 < desc_size_bytes m (d j)
      then \<exists>i. first_largest m d n i \<and> largest_desc sc = desc_phys m (d i) \<and>
        largest_desc_size sc = desc_size_bytes m (d i)
      else largest_desc sc = 0 \<and> largest_desc_size sc = 0)"

lemma scan_ok_step:
  assumes "scan_ok m d n sc"
  shows "scan_ok m d (Suc n) (scan_desc m (d n) sc)"
proof -
  let ?z = "\<lambda>j. desc_size_bytes m (d j)" and ?c = "\<lambda>j. desc_type m (d j) = 7"
  let ?ex = "\<lambda>n. \<exists>j<n. ?c j \<and> 0 < ?z j"
  have tot: "total_mem_size (scan_desc m (d n) sc) = sum_list (map ?z [0..<Suc n])"
    using assms by (simp add: scan_ok_def scan_desc_def Let_def desc_size_bytes_def)
  have old: "?z j \<le> largest_desc_size sc" if "j < n" "?c j" for j
    using assms that by (auto simp: scan_ok_def first_largest_def not_less split: if_splits)
  show ?thesis
  proof (cases "?c n \<and> largest_desc_size sc < ?z n")
    case True
    then have pos: "0 < ?z n" by (meson le_less_trans word_zero_le)
    have "first_largest m d (Suc n) n"
      using True old pos by (force simp: first_largest_def less_Suc_eq)
    moreover have "largest_desc (scan_desc m (d n) sc) = desc_phys m (d n)"
      "largest_desc_size (scan_desc m (d n) sc) = ?z n"
      using True by (simp_all add: scan_desc_def Let_def desc_size_bytes_def)
    moreover have "?ex (Suc n)" using True pos by blast
    ultimately show ?thesis using tot by (auto simp: scan_ok_def)
  next
    case False
    then have same: "largest_desc (scan_desc m (d n) sc) = largest_desc sc"
      "largest_desc_size (scan_desc m (d n) sc) = largest_desc_size sc"
      by (auto simp: scan_desc_def Let_def desc_size_bytes_def)
    show ?thesis
    proof (cases "?ex n")
      case True
      then obtain i where i: "first_largest m d n i" "largest_desc sc = desc_phys m (d i)"
        "largest_desc_size sc = ?z i"
        using assms by (auto simp: scan_ok_def)
      with False have "first_largest m d (Suc n) i"
        by (auto simp: first_largest_def less_Suc_eq not_less)
      with True i tot same show ?thesis by (auto simp: scan_ok_def less_Suc_eq)
    next
      case none: False
      then have z: "largest_desc sc = 0 \<and> largest_desc_size sc = 0"
        using assms by (simp add: scan_ok_def)
      with False have "\<not> (?c n \<and> 0 < ?z n)" by simp
      with none have no: "\<not> ?ex (Suc n)" by (simp only: less_Suc_eq) blast
      show ?thesis unfolding scan_ok_def if_not_P [OF no] using z tot same by simp
    qed
  qed
qed

lemma scan_mmap_ok: "scan_ok m (desc_addr mmap desc_size) n (scan_mmap m mmap desc_size n)"
proof (induction n)
  case 0
  then show ?case by (simp add: scan_ok_def scan_mmap_def)
next
  case (Suc n)
  then show ?case using scan_ok_step by (simp add: scan_mmap_def)
qed

section \<open>What the bitmap holds\<close>

definition boot_bm :: "scan \<Rightarrow> BITMAP" where
  "boot_bm sc = \<lparr>bm_buffer = largest_desc sc, bm_size = total_mem_size sc div PAGE_SIZE div 8 + 1\<rparr>"

lemma boot_bm_size:
  assumes "total_mem_size sc < 2 ^ 50"
  shows "unat (bm_size (boot_bm sc)) = unat (total_mem_size sc) div 4096 div 8 + 1"
    and "unat (bm_size (boot_bm sc)) \<le> 2 ^ 36"
proof -
  have "unat (total_mem_size sc) < 2 ^ 50" using assms by (simp add: word_less_nat_alt)
  then have "unat (total_mem_size sc) div 4096 div 8 < 2 ^ 35" by (simp add: div_mult2_eq [symmetric] less_mult_imp_div_less)
  moreover have d: "unat (total_mem_size sc div PAGE_SIZE div 8) = unat (total_mem_size sc) div 4096 div 8"
    by (simp add: unat_div)
  ultimately show u: "unat (bm_size (boot_bm sc)) = unat (total_mem_size sc) div 4096 div 8 + 1"
    unfolding boot_bm_def BITMAP.simps by (subst unat_add_small) (simp_all add: d)
  show "unat (bm_size (boot_bm sc)) \<le> 2 ^ 36"
    unfolding u using \<open>unat (total_mem_size sc) div 4096 div 8 < 2 ^ 35\<close> by simp
qed

lemma memset_bitmap_bytes:
  assumes "unat (bm_size bm) \<le> 2 ^ 36" and "b \<notin> bitmap_bytes bm"
  shows "memset m (bm_buffer bm) c (unat (bm_size bm)) b = m b"
proof (rule memset_other)
  show "unat (bm_size bm) \<le> 2 ^ 64" using assms(1) by simp
  show "\<not> in_region (bm_buffer bm) (unat (bm_size bm)) b"
  proof
    assume "in_region (bm_buffer bm) (unat (bm_size bm)) b"
    then have l: "unat (b - bm_buffer bm) < unat (bm_size bm)" by (simp add: in_region_def)
    define x where "x = b - bm_buffer bm"
    let ?i = "x * 8"
    have l: "unat x < unat (bm_size bm)" using l by (simp only: x_def)
    have u: "unat ?i = unat x * 8" using l assms(1) by (simp add: unat_word_ariths)
    then have "?i div 8 = b - bm_buffer bm" unfolding x_def [symmetric] by (simp add: word_unat_eq_iff unat_div)
    moreover have "?i \<le> bm_size bm * 8"
    proof -
      have "unat (bm_size bm * 8) = unat (bm_size bm) * 8" using assms(1) by (simp add: unat_word_ariths)
      then show ?thesis using l u by (simp add: word_le_nat_alt)
    qed
    ultimately have "b \<in> bitmap_bytes bm" by (auto simp: bitmap_bytes_def intro!: exI [of _ ?i])
    with assms(2) show False by simp
  qed
qed

lemma init_bitmap:
  assumes "total_mem_size sc < 2 ^ 50" and "init_bitmap sc (pb, m) = (pb', m')"
  shows "pb_bitmap pb' = boot_bm sc"
    and "pb_total pb' = total_mem_size sc + pb_reserved pb + pb_used pb"
    and "\<And>b. b \<notin> bitmap_bytes (boot_bm sc) \<Longrightarrow> m' b = m b"
    and "unat j \<le> unat (total_mem_size sc) div 4096 \<Longrightarrow> page_bit (pb', m') j \<longleftrightarrow>
      page_range (largest_desc sc) (unat (bm_size (boot_bm sc) div PAGE_SIZE + 1)) j"
proof -
  let ?bm = "boot_bm sc"
  let ?pb = "pb\<lparr>pb_free := total_mem_size sc, pb_bitmap := ?bm\<rparr>"
    and ?m = "memset m (bm_buffer ?bm) 0 (unat (bm_size ?bm))" and ?n = "unat (bm_size ?bm div PAGE_SIZE + 1)"
  note size = boot_bm_size [OF assms(1)]
  have p: "(pb', m') = pages_loop lock_page (bm_buffer ?bm) ?n (?pb, ?m)"
    using assms(2) by (simp add: init_bitmap_def Let_def lock_pages_def boot_bm_def)
  note R = lp.loop_bitmap [of "bm_buffer ?bm" ?n "(?pb, ?m)"] lp.loop_total [of "bm_buffer ?bm" ?n "(?pb, ?m)"]
    lp.loop_bit [of "bm_buffer ?bm" ?n "(?pb, ?m)" j] lp.loop_frame [of _ "(?pb, ?m)" "bm_buffer ?bm" ?n]
  show "pb_bitmap pb' = ?bm" "pb_total pb' = total_mem_size sc + pb_reserved pb + pb_used pb"
    using R(1,2) unfolding p [symmetric] by (simp_all add: pb_total_def)
  show "m' b = m b" if "b \<notin> bitmap_bytes ?bm" for b
    using R(4) [of b] that memset_bitmap_bytes [OF size(2) that] unfolding p [symmetric] by simp
  assume j: "unat j \<le> unat (total_mem_size sc) div 4096"
  have d: "unat (j div 8) < unat (bm_size ?bm)"
    using div_le_mono [OF j, of 8] by (simp add: size(1) unat_div)
  have "unat (bm_size ?bm * 8) = unat (bm_size ?bm) * 8" using size(2) by (simp add: unat_word_ariths)
  moreover have "unat j < unat (bm_size ?bm) * 8" using d by (simp add: unat_div div_less_iff_less_mult)
  ultimately have "page_guard (?pb, ?m) j" by (simp add: page_guard_def word_le_nat_alt)
  moreover have "?m (bm_buffer ?bm + j div 8) = 0"
    using d size(2) by (simp add: memset_apply in_region_def)
  then have "\<not> page_bit (?pb, ?m) j" by (simp add: page_bit_def bitmap_bit_def)
  ultimately show "page_bit (pb', m') j \<longleftrightarrow> page_range (largest_desc sc) ?n j"
    using R(3) unfolding p [symmetric] by (simp add: boot_bm_def)
qed

lemma reserve_mmap:
  assumes "\<And>i k. i < n \<Longrightarrow> k < 40 \<Longrightarrow> desc_addr mmap ds i + of_nat k \<notin> bitmap_bytes (pb_bitmap pb)"
    and "reserve_mmap mmap ds n (pb, m) = (pb', m')"
  shows "pb_bitmap pb' = pb_bitmap pb \<and> pb_total pb' = pb_total pb \<and>
    (\<forall>b. b \<notin> bitmap_bytes (pb_bitmap pb) \<longrightarrow> m' b = m b) \<and>
    (page_bit (pb', m') j \<longleftrightarrow> page_bit (pb, m) j \<or> page_guard (pb, m) j \<and>
      (\<exists>i<n. desc_type m (desc_addr mmap ds i) \<noteq> 7 \<and>
        page_range (desc_phys m (desc_addr mmap ds i)) (unat (desc_pages m (desc_addr mmap ds i))) j))"
  using assms
proof (induction n arbitrary: pb' m')
  case 0
  then show ?case by (simp add: reserve_mmap_def)
next
  case (Suc n)
  obtain pb1 m1 where 1: "reserve_mmap mmap ds n (pb, m) = (pb1, m1)" by (metis surj_pair)
  let ?d = "desc_addr mmap ds n"
  have IH: "pb_bitmap pb1 = pb_bitmap pb \<and> pb_total pb1 = pb_total pb \<and>
    (\<forall>b. b \<notin> bitmap_bytes (pb_bitmap pb) \<longrightarrow> m1 b = m b) \<and>
    (page_bit (pb1, m1) j \<longleftrightarrow> page_bit (pb, m) j \<or> page_guard (pb, m) j \<and>
      (\<exists>i<n. desc_type m (desc_addr mmap ds i) \<noteq> 7 \<and>
        page_range (desc_phys m (desc_addr mmap ds i)) (unat (desc_pages m (desc_addr mmap ds i))) j))"
    by (rule Suc.IH [OF _ 1]) (use Suc.prems(1) in auto)
  have same: "load_le k m1 (?d + of_nat c) = (load_le k m (?d + of_nat c) :: 'b::len word)" if "c + k \<le> 40" for k c
    using IH Suc.prems(1) [of n] that
    by (intro load_le_cong) (simp add: add.assoc flip: of_nat_add)
  then have d: "desc_type m1 ?d = desc_type m ?d" "desc_phys m1 ?d = desc_phys m ?d"
    "desc_pages m1 ?d = desc_pages m ?d"
    using same [of 0 4] same [of 8 8] same [of 24 8] by (simp_all add: desc_type_def desc_phys_def desc_pages_def)
  have r: "(pb', m') = reserve_desc ?d (pb1, m1)" using Suc.prems(2) 1 by (simp add: reserve_mmap_def)
  show ?case
  proof (cases "desc_type m ?d = 7")
    case True
    with r d have "pb' = pb1" "m' = m1" by (simp_all add: reserve_desc_def)
    with IH True show ?thesis by (auto simp: less_Suc_eq)
  next
    case False
    with r d have p: "(pb', m') = pages_loop reserve_page (desc_phys m ?d) (unat (desc_pages m ?d)) (pb1, m1)"
      by (simp add: reserve_desc_def reserve_pages_def)
    note R = rp.loop_bitmap [of "desc_phys m ?d" "unat (desc_pages m ?d)" "(pb1, m1)"]
      rp.loop_total [of "desc_phys m ?d" "unat (desc_pages m ?d)" "(pb1, m1)"]
      rp.loop_bit [of "desc_phys m ?d" "unat (desc_pages m ?d)" "(pb1, m1)" j]
      rp.loop_frame [of _ "(pb1, m1)" "desc_phys m ?d" "unat (desc_pages m ?d)"]
    have g: "page_guard (pb1, m1) j = page_guard (pb, m) j" using IH by (simp add: page_guard_def)
    show ?thesis
      using R IH False unfolding p [symmetric] g fst_conv snd_conv
      by (auto simp: less_Suc_eq)
  qed
qed

section \<open>Properties\<close>

text \<open>C30: The scan of the memory map adds up the sizes of all ranges, holes not counted, and
  picks the first of the largest conventional ranges; with no such range it picks address 0.\<close>

theorem scan_finds_largest: "scan_ok m (desc_addr mmap desc_size) n (scan_mmap m mmap desc_size n)"
  by (rule scan_mmap_ok)

text \<open>C11: After the boot code has set up the bitmap, a page below the total memory size is taken
  exactly if it is one of the pages of the bitmap itself, of a range that is not conventional
  memory, or of the kernel, and the three counters add up to the total. The map must not lie
  in the bitmap's bytes. Pages at or above the total, where the holes of the map push them,
  are not covered.\<close>

theorem boot_bitmap_pages:
  assumes "boot_bitmap mmap map_size ds ks ke (pb, m) = Some (tot, pb', m')"
    and "sc = scan_mmap m mmap ds n" and "n = unat (map_size div ds)"
    and "tot < 2 ^ 50" and "unat j < unat tot div 4096"
    and "\<And>i k. i < n \<Longrightarrow> k < 40 \<Longrightarrow> desc_addr mmap ds i + of_nat k \<notin> bitmap_bytes (boot_bm sc)"
  shows "(page_bit (pb', m') j \<longleftrightarrow>
      page_range (largest_desc sc) (unat (bm_size (boot_bm sc) div 4096 + 1)) j \<or>
      (\<exists>i<n. desc_type m (desc_addr mmap ds i) \<noteq> 7 \<and>
        page_range (desc_phys m (desc_addr mmap ds i)) (unat (desc_pages m (desc_addr mmap ds i))) j) \<or>
      page_range ks (unat ((ke - ks) div 4096 + 1)) j) \<and>
    tot = total_mem_size sc \<and> pb_total pb' = tot + pb_reserved pb + pb_used pb"
proof -
  from assms(1) have "ds \<noteq> 0" by (simp add: boot_bitmap_def split: if_splits)
  obtain pb1 m1 where 1: "init_bitmap sc (pb, m) = (pb1, m1)" by (metis surj_pair)
  obtain pb2 m2 where 2: "reserve_mmap mmap ds n (pb1, m1) = (pb2, m2)" by (metis surj_pair)
  let ?n = "unat ((ke - ks) div PAGE_SIZE + 1)"
  have t: "tot = total_mem_size sc" and p: "(pb', m') = pages_loop reserve_page ks ?n (pb2, m2)"
    using assms(1) \<open>ds \<noteq> 0\<close> 1 2 by (simp_all add: boot_bitmap_def Let_def assms(2,3) reserve_pages_def)
  have tl: "total_mem_size sc < 2 ^ 50" using assms(4) t by simp
  note I = init_bitmap [OF tl 1]
  have o: "desc_addr mmap ds i + of_nat k \<notin> bitmap_bytes (pb_bitmap pb1)" if "i < n" "k < 40" for i k
    using assms(6) [OF that] by (simp add: I(1))
  note V = reserve_mmap [OF o 2, of j]
  have e: "m1 (desc_addr mmap ds i + of_nat k) = m (desc_addr mmap ds i + of_nat k)" if "i < n" "k < 40" for i k
    using assms(6) [OF that] by (intro I(3))
  have same: "load_le k m1 (desc_addr mmap ds i + of_nat c) = (load_le k m (desc_addr mmap ds i + of_nat c) :: 'b::len word)"
    if "c + k \<le> 40" "i < n" for k c i
    using e [OF that(2)] that(1) by (intro load_le_cong) (simp add: add.assoc flip: of_nat_add)
  then have d: "desc_type m1 (desc_addr mmap ds i) = desc_type m (desc_addr mmap ds i)"
    "desc_phys m1 (desc_addr mmap ds i) = desc_phys m (desc_addr mmap ds i)"
    "desc_pages m1 (desc_addr mmap ds i) = desc_pages m (desc_addr mmap ds i)" if "i < n" for i
    using same [of 0 4 i] same [of 8 8 i] same [of 24 8 i] that
    by (simp_all add: desc_type_def desc_phys_def desc_pages_def)
  have g: "page_guard s j" if "pb_bitmap (fst s) = boot_bm sc" for s
  proof -
    have "unat (bm_size (boot_bm sc) * 8) = unat (bm_size (boot_bm sc)) * 8"
      using boot_bm_size(2) [OF tl] by (simp add: unat_word_ariths)
    then show ?thesis
      using assms(5) t by (simp add: page_guard_def that word_le_nat_alt boot_bm_size(1) [OF tl])
  qed
  note R = rp.loop_total [of ks ?n "(pb2, m2)"] rp.loop_bit [of ks ?n "(pb2, m2)" j]
  have "page_bit (pb', m') j \<longleftrightarrow> page_bit (pb2, m2) j \<or> page_range ks ?n j"
    using R(2) g [of "(pb2, m2)"] V I(1) unfolding p [symmetric] by auto
  also have "page_bit (pb2, m2) j \<longleftrightarrow> page_range (largest_desc sc) (unat (bm_size (boot_bm sc) div 4096 + 1)) j \<or>
      (\<exists>i<n. desc_type m (desc_addr mmap ds i) \<noteq> 7 \<and>
        page_range (desc_phys m (desc_addr mmap ds i)) (unat (desc_pages m (desc_addr mmap ds i))) j)"
    using V I(4) [of j] assms(5) t g [of "(pb1, m1)"] I(1) d by auto
  finally have "page_bit (pb', m') j \<longleftrightarrow>
      page_range (largest_desc sc) (unat (bm_size (boot_bm sc) div 4096 + 1)) j \<or>
      (\<exists>i<n. desc_type m (desc_addr mmap ds i) \<noteq> 7 \<and>
        page_range (desc_phys m (desc_addr mmap ds i)) (unat (desc_pages m (desc_addr mmap ds i))) j) \<or>
      page_range ks ?n j" by blast
  moreover have "pb_total pb' = tot + pb_reserved pb + pb_used pb"
    using R(1) V I(2) t unfolding p [symmetric] by simp
  ultimately show ?thesis using t by blast
qed

text \<open>A map of two descriptors of 40 bytes at \<open>0x8000\<close>: eight conventional pages from address 0
  and four reserved pages after them.\<close>

definition ex_map :: mem where
  "ex_map = (\<lambda>_. 0)(0x8000 := 7, 0x8018 := 8, 0x8028 := 0, 0x8031 := 0x80, 0x8040 := 4)"

theorem boot_bitmap_pages_witness:
  "\<exists>tot pb' m'. boot_bitmap 0x8000 80 40 0x2000 0x2800 (ex_pb\<lparr>pb_reserved := 0\<rparr>, ex_map) = Some (tot, pb', m') \<and>
     tot = 12 * 4096 \<and> page_bit (pb', m') 0 \<and> page_bit (pb', m') 2 \<and> \<not> page_bit (pb', m') 5 \<and> page_bit (pb', m') 9"
proof -
  obtain tot pb' m' where b: "boot_bitmap 0x8000 80 40 0x2000 0x2800 (ex_pb\<lparr>pb_reserved := 0\<rparr>, ex_map) = Some (tot, pb', m')"
    by (cases "boot_bitmap 0x8000 80 40 0x2000 0x2800 (ex_pb\<lparr>pb_reserved := 0\<rparr>, ex_map)")
       (auto simp: boot_bitmap_def Let_def)
  define sc where "sc = scan_mmap ex_map 0x8000 40 2"
  have sc: "sc = \<lparr>largest_desc = 0, largest_desc_size = 0x8000, total_mem_size = 0xc000\<rparr>"
    unfolding sc_def by code_simp
  have "b \<notin> bitmap_bytes (boot_bm sc)" if "unat b \<ge> 0x8000" for b
  proof
    assume "b \<in> bitmap_bytes (boot_bm sc)"
    then obtain i :: u64 where "b = i div 8" "i \<le> 16" by (auto simp: bitmap_bytes_def boot_bm_def sc)
    then have "unat b \<le> 2" using div_le_mono [of "unat i" 16 8] by (simp add: unat_div word_le_nat_alt)
    with that show False by simp
  qed
  moreover have "unat (desc_addr 0x8000 40 i + of_nat k) \<ge> 0x8000" if "i < 2" "k < 40" for i k
  proof -
    have "desc_addr 0x8000 40 i + of_nat k = of_nat (0x8000 + 40 * i + k)" by (simp add: desc_addr_def)
    moreover have "0x8000 + 40 * i + k < 2 ^ 64" using that by simp
    ultimately have "unat (desc_addr 0x8000 40 i + of_nat k) = 0x8000 + 40 * i + k" by (simp only: unat_of_nat_64)
    then show ?thesis by simp
  qed
  ultimately have o: "desc_addr 0x8000 40 i + of_nat k \<notin> bitmap_bytes (boot_bm sc)" if "i < 2" "k < 40" for i k
    using that by blast
  have n: "2 = unat (80 div 40 :: u64)" by simp
  have t: "tot = 0xc000" using b sc sc_def by (auto simp: boot_bitmap_def Let_def)
  have tl: "tot < 2 ^ 50" by (simp add: t)
  note P = boot_bitmap_pages [OF b sc_def n tl _ o]
  let ?r = "\<lambda>j. page_range (largest_desc sc) (unat (bm_size (boot_bm sc) div 4096 + 1)) j \<or>
      (\<exists>i<2. desc_type ex_map (desc_addr 0x8000 40 i) \<noteq> 7 \<and>
        page_range (desc_phys ex_map (desc_addr 0x8000 40 i)) (unat (desc_pages ex_map (desc_addr 0x8000 40 i))) j) \<or>
      page_range 0x2000 (unat ((0x2800 - 0x2000 :: u64) div 4096 + 1)) j"
  have "desc_type ex_map (desc_addr 0x8000 40 0) = 7" "desc_type ex_map (desc_addr 0x8000 40 1) = 0"
    "desc_phys ex_map (desc_addr 0x8000 40 1) = 0x8000" "desc_pages ex_map (desc_addr 0x8000 40 1) = 4"
    by code_simp+
  moreover have "(\<exists>i<2. Q i) \<longleftrightarrow> Q 0 \<or> Q (1 :: nat)" for Q by (auto simp: less_2_cases_iff)
  moreover have "page_range a 1 j \<longleftrightarrow> j = a div 4096"
    "page_range a 4 j \<longleftrightarrow> j = a div 4096 \<or> j = (a + 4096) div 4096 \<or> j = (a + 8192) div 4096 \<or> j = (a + 12288) div 4096"
    for a j by (auto simp: page_range_Suc numeral_nat)
  ultimately have "?r 0 \<and> ?r 2 \<and> \<not> ?r 5 \<and> ?r 9" unfolding sc boot_bm_def by simp
  then have "page_bit (pb', m') 0 \<and> page_bit (pb', m') 2 \<and> \<not> page_bit (pb', m') 5 \<and> page_bit (pb', m') 9"
    using P [of 0] P [of 2] P [of 5] P [of 9] by (simp add: t)
  with b t show ?thesis by auto
qed

end
