(* ===== verification/Boot_Paging.thy ===== *)
theory Boot_Paging
  imports Boot_Memory Acpi Print
begin

text \<open>
  Lines 72 to 97 of \<open>_start\<close> in \<open>boot/kernel/kernel.c\<close>: the root table, the identity map of
  memory and frame buffer, the second mapping of the kernel and the two ACPI areas.
\<close>

section \<open>The steps\<close>

abbreviation KERNEL_START :: u64 where "KERNEL_START \<equiv> 0x0000FFFF00000000"

definition init_pml4 :: "PAGE_BITMAP \<times> machine \<Rightarrow> u64 \<times> PAGE_BITMAP \<times> machine" where
  "init_pml4 s =
     (let (pml4, pb, m) = req_page (fst s, mem (snd s));
          m = memset m pml4 0 4096
      in (pml4, pb, (snd s)\<lparr>mem := m\<rparr>))"

definition lock_framebuffer :: "GRAPHICS \<Rightarrow> PAGE_BITMAP \<times> machine \<Rightarrow> PAGE_BITMAP \<times> machine" where
  "lock_framebuffer g s =
     (let (pb, m) = lock_pages (framebuffer_base g) (framebuffer_size g div PAGE_SIZE + 1) (fst s, mem (snd s))
      in (pb, (snd s)\<lparr>mem := m\<rparr>))"

definition map_memory ::
    "u64 \<Rightarrow> u64 \<Rightarrow> GRAPHICS \<Rightarrow> u64 \<Rightarrow> u64 \<Rightarrow> PAGE_BITMAP \<times> machine \<Rightarrow> PAGE_BITMAP \<times> machine" where
  "map_memory pml4 mem_size g kernel_start kernel_pages s =
     (let s = map_pages pml4 0 0 (unat (mem_size div PAGE_SIZE)) s;
          s = lock_framebuffer g s;
          s = map_pages pml4 (framebuffer_base g) (framebuffer_base g)
                (unat (framebuffer_size g div PAGE_SIZE + 1)) s
      in map_pages pml4 (KERNEL_START + kernel_start) kernel_start (unat kernel_pages) s)"

record acpi_tables =
  t_madt :: u64
  t_apic_base :: u64
  t_mcfg :: u64

definition map_acpi :: "u64 \<Rightarrow> u64 \<Rightarrow> PAGE_BITMAP \<times> machine \<Rightarrow> acpi_tables \<times> PAGE_BITMAP \<times> machine" where
  "map_acpi pml4 xsdt s =
     (let madt = acpi_get_table (mem (snd s)) xsdt (cstr ''APIC'');
          apic_base = ucast (load32 (mem (snd s)) (madt + 36));
          s = map_page pml4 apic_base apic_base s;
          mcfg = acpi_get_table (mem (snd s)) xsdt (cstr ''MCFG'');
          mcfg_pages = ucast (sdt_len (mem (snd s)) mcfg) div PAGE_SIZE + 1;
          s = map_pages pml4 mcfg mcfg (unat mcfg_pages) s
      in (\<lparr>t_madt = madt, t_apic_base = apic_base, t_mcfg = mcfg\<rparr>, s))"

section \<open>Locking pages while tables exist\<close>

lemma tables_ok_frame:
  assumes ok: "tables_ok (pb, m) pml4" and same: "\<And>b. b \<notin> bitmap_bytes (pb_bitmap pb) \<Longrightarrow> m' b = m b"
  shows "path_ok p \<Longrightarrow> table_at m' pml4 p = table_at m pml4 p"
    and "page_walk m' pml4 va = page_walk m pml4 va"
proof -
  note okD = tables_okD [OF ok, simplified]
  have pte: "load_pte m' (entry_addr t i) = load_pte m (entry_addr t i)"
    if "path_ok q" "table_at m pml4 q = Some t" "i < 512" for q t i
  proof -
    have al: "page_aligned t" using table_at_aligned [OF okD(2) that(2)] .
    have "load64 m' (entry_addr t i) = load64 m (entry_addr t i)"
    proof (rule load_le_cong)
      fix j :: nat
      assume "j < 8"
      then have "page_of (entry_addr t i + of_nat j) = page_of t"
        using page_of_entry [OF al that(3)] by simp
      then show "m' (entry_addr t i + of_nat j) = m (entry_addr t i + of_nat j)"
        using okD(5) [OF that(1,2)] by (intro same) (auto simp: off_bitmap_def)
    qed
    then show ?thesis by (simp add: load_pte_def)
  qed
  have at: "path_ok p \<Longrightarrow> table_at m' pml4 p = table_at m pml4 p" for p
  proof (induction p rule: rev_induct)
    case (snoc i p)
    then have p: "path_ok p" "i < 512" by (simp_all add: path_ok_snoc)
    with snoc have e: "table_at m' pml4 p = table_at m pml4 p" by simp
    show ?case
    proof (cases "table_at m pml4 p")
      case (Some t)
      with e pte [OF p(1) Some p(2)] show ?thesis by (simp add: table_at_snoc table_child_def)
    qed (simp add: e table_at_snoc)
  qed simp
  then show "path_ok p \<Longrightarrow> table_at m' pml4 p = table_at m pml4 p" .
  show "page_walk m' pml4 va = page_walk m pml4 va"
    using at [OF path_ok_table_path [of va]] pte [OF path_ok_table_path [of va] _ table_index_less]
    by (simp add: page_walk_at split: option.split)
qed

lemma lock_page_tables:
  assumes ok: "tables_ok s pml4"
  shows "tables_ok (lock_page a s) pml4"
    and "path_ok p \<Longrightarrow> table_at (snd (lock_page a s)) pml4 p = table_at (snd s) pml4 p"
    and "page_walk (snd (lock_page a s)) pml4 va = page_walk (snd s) pml4 va"
    and "card (clear_pages s) \<le> card (clear_pages (lock_page a s)) + 1"
proof -
  obtain pb m pb' m' where s: "s = (pb, m)" and s': "lock_page a s = (pb', m')" by (metis surj_pair)
  have bm: "pb_bitmap pb' = pb_bitmap pb" using lp.op_bitmap [of a s] unfolding s' by (simp add: s)
  have fr: "m' b = m b" if "b \<notin> bitmap_bytes (pb_bitmap pb)" for b
    using lp.op_frame [of b s a] that unfolding s' by (simp add: s)
  note F = tables_ok_frame [OF ok [unfolded s] fr]
  show at: "path_ok p \<Longrightarrow> table_at (snd (lock_page a s)) pml4 p = table_at (snd s) pml4 p" for p
    using F(1) unfolding s' by (simp add: s)
  show "page_walk (snd (lock_page a s)) pml4 va = page_walk (snd s) pml4 va"
    using F(2) unfolding s' by (simp add: s)
  note okD = tables_okD [OF ok]
  have "pager_ok (lock_page a s)" using okD(1) by (simp add: pager_ok_def lp.op_bitmap)
  moreover have "page_taken (lock_page a s) b" if "b \<in> bitmap_bytes (pb_bitmap (fst s))" for b
    using page_taken_lock okD(3) that by blast
  moreover have "page_taken (lock_page a s) t \<and> off_bitmap (pb_bitmap (fst s)) t"
    if "path_ok p" "table_at (snd s) pml4 p = Some t" for p t
    using page_taken_lock okD(4,5) that by blast
  ultimately show "tables_ok (lock_page a s) pml4"
    using okD(2,6) at unfolding tables_ok_def by (auto simp: lp.op_bitmap)
  have "clear_pages s \<subseteq> insert (unat (a div PAGE_SIZE)) (clear_pages (lock_page a s))"
  proof
    fix x
    assume x: "x \<in> clear_pages s"
    then have "x < bits_of (pb_bitmap (fst s))" by (simp add: clear_pages_iff)
    from unat_of_nat_64 [OF bits_of_small [OF this]] have "of_nat x = a div PAGE_SIZE \<Longrightarrow> x = unat (a div PAGE_SIZE)" by metis
    with x show "x \<in> insert (unat (a div PAGE_SIZE)) (clear_pages (lock_page a s))"
      by (auto simp: clear_pages_iff lp.op_bitmap lp.op_bit)
  qed
  then have "card (clear_pages s) \<le> card (insert (unat (a div PAGE_SIZE)) (clear_pages (lock_page a s)))"
    by (intro card_mono) simp_all
  also have "\<dots> \<le> card (clear_pages (lock_page a s)) + 1" by (simp add: card_insert_le_m1 card_insert_if)
  finally show "card (clear_pages s) \<le> card (clear_pages (lock_page a s)) + 1" .
qed

lemma lock_loop_tables:
  assumes ok: "tables_ok s pml4"
  shows "tables_ok (pages_loop lock_page a n s) pml4"
    and "path_ok p \<Longrightarrow> table_at (snd (pages_loop lock_page a n s)) pml4 p = table_at (snd s) pml4 p"
    and "page_walk (snd (pages_loop lock_page a n s)) pml4 va = page_walk (snd s) pml4 va"
    and "card (clear_pages s) \<le> card (clear_pages (pages_loop lock_page a n s)) + n"
proof (induction n)
  case (Suc n)
  note L = lock_page_tables [OF Suc(1), where a = "a + of_nat n * PAGE_SIZE"]
  { case 1 show ?case using L(1) by simp }
  { case 2 then show ?case using L(2) [where p = p] Suc(2) by simp }
  { case 3 show ?case using L(3) [where va = va] Suc(3) by simp }
  { case 4 show ?case using L(4) Suc(4) by simp }
qed (use ok in simp_all)


section \<open>Runs of pages\<close>

definition maps_to :: "mem \<Rightarrow> u64 \<Rightarrow> u64 \<Rightarrow> u64 \<Rightarrow> bool" where
  "maps_to m pml4 va pa \<longleftrightarrow> (\<exists>e. page_walk m pml4 va = Some e \<and> pte_p e = 1 \<and> pte_rw e = 1 \<and>
     pte_addr e = ucast (drop_bit 12 pa))"

lemma unat_run_addr: "unat va + n * 4096 \<le> 2 ^ 48 \<Longrightarrow> i < n \<Longrightarrow> unat (page_addr va i) = unat va + i * 4096"
proof -
  assume b: "unat va + n * 4096 \<le> 2 ^ 48" and i: "i < n"
  then have "i * 4096 < 2 ^ 64" by simp
  then have u: "unat (of_nat i * PAGE_SIZE :: u64) = i * 4096"
    using unat_of_nat_64 [of "i * 4096"] by simp
  show ?thesis
    unfolding page_addr_def using b i u by (subst unat_add_small) simp_all
qed

lemma unat_vpage: "unat a < 2 ^ 48 \<Longrightarrow> unat (vpage a) = unat a div 4096"
proof -
  assume "unat a < 2 ^ 48"
  then have "unat a < 2 ^ 36 * 4096" by simp
  then have "unat a div 4096 < 2 ^ 36" by (rule less_mult_imp_div_less)
  then show ?thesis
    by (simp add: vpage_def unsigned_take_bit_eq take_bit_nat_eq_self drop_bit_eq_div unat_div)
qed

lemma vpage_page_addr:
  "unat va + n * 4096 \<le> 2 ^ 48 \<Longrightarrow> i < n \<Longrightarrow> unat (vpage (page_addr va i)) = unat va div 4096 + i"
  using unat_run_addr [of va n i] by (subst unat_vpage) simp_all

text \<open>A run that does not wrap maps each of its pages, keeps the other walks, and leaves free
  pages for what comes next.\<close>

lemma map_run:
  assumes ok: "tables_ok (pb, mem s) pml4"
    and enough: "missing_tables (mem s) pml4 (run_prefixes va n @ qs) + k \<le> card (clear_pages (pb, mem s))"
    and b: "unat va + n * 4096 \<le> 2 ^ 48" and qs: "list_all path_ok qs"
    and r: "map_pages pml4 va pa n (pb, s) = (pb', s')"
  shows "tables_ok (pb', mem s') pml4"
    and "missing_tables (mem s') pml4 qs + k \<le> card (clear_pages (pb', mem s'))"
    and "\<And>vb i. i < n \<Longrightarrow> vpage vb = vpage (page_addr va i) \<Longrightarrow> maps_to (mem s') pml4 vb (page_addr pa i)"
    and "\<And>vb pc. (\<And>i. i < n \<Longrightarrow> vpage vb \<noteq> vpage (page_addr va i)) \<Longrightarrow>
      maps_to (mem s) pml4 vb pc \<Longrightarrow> maps_to (mem s') pml4 vb pc"
proof -
  have d: "vpage (page_addr va i) \<noteq> vpage (page_addr va j)" if "i < j" "j < n" for i j
    using vpage_page_addr [OF b, of i] vpage_page_addr [OF b, of j] that by (metis add_left_cancel less_trans nat_neq_iff)
  have "missing_tables (mem s) pml4 (run_prefixes va n) \<le> missing_tables (mem s) pml4 (run_prefixes va n @ qs)"
    by (rule missing_mono) simp
  then have "run_result pml4 va pa n (pb, s) (map_pages pml4 va pa n (pb, s))"
    using ok enough d by (intro map_pages_result) simp_all
  then have rr: "run_result pml4 va pa n (pb, s) (pb', s')" by (simp add: r)
  note R = run_resultD [OF rr]
  show "tables_ok (pb', mem s') pml4" by (rule R(1))
  have "missing_tables (mem s) pml4 (run_prefixes va n @ qs) =
      missing_tables (mem s) pml4 (run_prefixes va n) + missing_tables (mem s') pml4 qs"
  proof (rule missing_split)
    fix q
    assume "q \<in> set (run_prefixes va n) \<union> set qs"
    then have "path_ok q" using path_ok_run qs by (auto simp: list_all_iff)
    then show "table_at (mem s') pml4 q = None \<longleftrightarrow> table_at (mem s) pml4 q = None \<and> q \<notin> set (run_prefixes va n)"
      using rr unfolding run_result_def Let_def fst_conv snd_conv by blast
  qed
  with enough R(3) show "missing_tables (mem s') pml4 qs + k \<le> card (clear_pages (pb', mem s'))" by linarith
  show "maps_to (mem s') pml4 vb (page_addr pa i)" if "i < n" "vpage vb = vpage (page_addr va i)" for vb i
    using R(4) [OF that(1)] that(2) by (fastforce simp: maps_to_def leaf_entry_def)
  show "maps_to (mem s') pml4 vb pc" if "\<And>i. i < n \<Longrightarrow> vpage vb \<noteq> vpage (page_addr va i)"
      "maps_to (mem s) pml4 vb pc" for vb pc
    using R(5) [OF that(1)] that(2) by (simp add: maps_to_def)
qed

text \<open>An identity run keeps every identity mapping, inside and outside of it.\<close>

lemma drop_page:
  assumes "unat vb < 2 ^ 48" "unat va < 2 ^ 48" "vpage vb = vpage va"
  shows "drop_bit 12 vb = drop_bit 12 va"
proof -
  have "unat vb div 4096 = unat va div 4096"
    using assms unat_vpage by metis
  then show ?thesis
    by (simp add: word_unat_eq_iff drop_bit_eq_div unat_div)
qed

lemma identity_run:
  assumes hit: "\<And>vb i. i < n \<Longrightarrow> vpage vb = vpage (page_addr va i) \<Longrightarrow> maps_to m' pml4 vb (page_addr va i)"
    and b: "unat va + n * 4096 \<le> 2 ^ 48" and vb: "unat vb < 2 ^ 48"
  shows "i < n \<Longrightarrow> vpage vb = vpage (page_addr va i) \<Longrightarrow> maps_to m' pml4 vb vb"
  using hit [of i vb] drop_page [OF vb, of "page_addr va i"] unat_run_addr [OF b, of i] b
  by (simp add: maps_to_def)

definition in_pages :: "u64 \<Rightarrow> nat \<Rightarrow> u64 \<Rightarrow> bool" where
  "in_pages a n b \<longleftrightarrow> unat a div 4096 \<le> unat b div 4096 \<and> unat b div 4096 < unat a div 4096 + n"

lemma in_pages_run:
  assumes "unat va + n * 4096 \<le> 2 ^ 48"
  shows "in_pages va n b \<longleftrightarrow> unat b < 2 ^ 48 \<and> (\<exists>i<n. vpage b = vpage (page_addr va i))"
proof (cases "unat b < 2 ^ 48")
  case True
  then have v: "unat (vpage b) = unat b div 4096" by (rule unat_vpage)
  have e: "vpage b = vpage (page_addr va i) \<longleftrightarrow> unat b div 4096 = unat va div 4096 + i" if "i < n" for i
    using vpage_page_addr [OF assms that] v by (simp add: word_unat_eq_iff)
  have "(\<exists>i<n. vpage b = vpage (page_addr va i)) \<longleftrightarrow> (\<exists>i<n. unat b div 4096 = unat va div 4096 + i)"
    using e by blast
  also have "\<dots> \<longleftrightarrow> in_pages va n b"
    unfolding in_pages_def by (auto intro!: exI [of _ "unat b div 4096 - unat va div 4096"])
  finally show ?thesis using True by blast
next
  case False
  have "(unat va + n * 4096) div 4096 \<le> 2 ^ 48 div 4096" using assms by (rule div_le_mono)
  moreover have "2 ^ 48 div 4096 \<le> unat b div 4096" using False by (intro div_le_mono) simp
  ultimately show ?thesis using False by (simp add: in_pages_def)
qed

lemma in_pages_below: "in_pages a n b \<Longrightarrow> unat a + n * 4096 \<le> 2 ^ 47 \<Longrightarrow> unat b div 4096 < 2 ^ 47 div 4096"
  using div_le_mono [of "unat a + n * 4096" "2 ^ 47" 4096] by (simp add: in_pages_def)

lemma framebuffer_tables:
  assumes ok: "tables_ok (pb, mem s) pml4" and l: "lock_framebuffer g (pb, s) = (pb', s')"
    and c: "c = unat (framebuffer_size g div PAGE_SIZE + 1)"
    and en: "missing_tables (mem s) pml4 qs + c \<le> card (clear_pages (pb, mem s))"
    and qs: "list_all path_ok qs"
  shows "tables_ok (pb', mem s') pml4" "missing_tables (mem s') pml4 qs + 0 \<le> card (clear_pages (pb', mem s'))"
    "maps_to (mem s') pml4 vb pc \<longleftrightarrow> maps_to (mem s) pml4 vb pc"
proof -
  let ?r = "pages_loop lock_page (framebuffer_base g) c (pb, mem s)"
  have r: "(pb', mem s') = ?r"
    using l by (auto simp: lock_framebuffer_def lock_pages_def c split: prod.splits)
  note L = lock_loop_tables [OF ok, where a = "framebuffer_base g" and n = c, folded r]
  show "tables_ok (pb', mem s') pml4" using L(1) .
  have at: "table_at (mem s') pml4 q = table_at (mem s) pml4 q" if "q \<in> set qs" for q
    using lock_loop_tables(2) [OF ok bspec [OF qs [unfolded list_all_iff] that], where a = "framebuffer_base g" and n = c, folded r] by simp
  have "missing_tables (mem s') pml4 qs = missing_tables (mem s) pml4 qs"
    unfolding missing_card using at by (intro arg_cong [where f = card]) auto
  with L(4) en
  show "missing_tables (mem s') pml4 qs + 0 \<le> card (clear_pages (pb', mem s'))" by linarith
  show "maps_to (mem s') pml4 vb pc \<longleftrightarrow> maps_to (mem s) pml4 vb pc"
    using L(3) by (simp add: maps_to_def)
qed


section \<open>Properties\<close>

text \<open>A 64-bit address the processor accepts: the bits from 47 on are equal.\<close>

definition canonical :: "u64 \<Rightarrow> bool" where
  "canonical a \<longleftrightarrow> drop_bit 47 a = 0 \<or> drop_bit 47 a = 0x1FFFF"

lemma kernel_start_unat: "unat a \<le> 2 ^ 32 \<Longrightarrow> unat (KERNEL_START + a) = 0xFFFF00000000 + unat a"
  by (subst unat_add_small) simp_all

lemma not_canonical: "unat a < 2 ^ 32 \<Longrightarrow> \<not> canonical (KERNEL_START + a)"
proof -
  assume "unat a < 2 ^ 32"
  then have "unat (KERNEL_START + a) div 2 ^ 47 = 1" using kernel_start_unat [of a] by simp
  then have "unat (drop_bit 47 (KERNEL_START + a)) = 1" by (simp add: drop_bit_eq_div unat_div)
  then show ?thesis by (auto simp: canonical_def)
qed

lemma init_tables:
  assumes i: "init_pml4 (pb, s) = (pml4, pb1, s1)" and ok: "pager_ok (pb, mem s)"
    and b: "\<forall>b\<in>bitmap_bytes (pb_bitmap pb). page_taken (pb, mem s) b"
    and en: "card (set ps) + k + 1 \<le> card (clear_pages (pb, mem s))"
  shows "tables_ok (pb1, mem s1) pml4"
    and "missing_tables (mem s1) pml4 ps + k \<le> card (clear_pages (pb1, mem s1))"
proof -
  obtain m where r: "req_page (pb, mem s) = (pml4, pb1, m)" and s1: "mem s1 = memset m pml4 0 4096"
    using i by (auto simp: init_pml4_def Let_def simp del: req_page.simps split: prod.splits)
  have ne: "clear_pages (pb, mem s) \<noteq> {}" using en by auto
  note F = req_page_fresh [OF ok ne r, simplified]
  have reg: "in_region pml4 4096 x \<longleftrightarrow> page_of x = page_of pml4" for x
    using F(1) by (rule page_of_in_region)
  have off: "page_of x \<noteq> page_of pml4" if "x \<in> bitmap_bytes (pb_bitmap pb)" for x
    using bspec [OF b that] F(4) page_taken_page by blast
  have same: "m x = mem s1 x" if "x \<in> bitmap_bytes (pb_bitmap pb1)" for x
    using off [of x] that by (simp add: s1 memset_apply reg F(7))
  show "tables_ok (pb1, mem s1) pml4"
  proof (rule tables_ok_init)
    show "pager_ok (pb1, mem s1)" using ok by (simp add: pager_ok_def F(7))
    show "page_taken (pb1, mem s1) pml4" using F(2) page_taken_cong [of pb1 m "mem s1", OF same] by simp
    show "page_taken (pb1, mem s1) x \<and> page_of x \<noteq> page_of pml4"
      if "x \<in> bitmap_bytes (pb_bitmap (fst (pb1, mem s1)))" for x
      using F(5) [OF bspec [OF b, of x]] off [of x] that page_taken_cong [of pb1 m "mem s1", OF same] by (simp add: F(7))
    show "snd (pb1, mem s1) x = 0" if "page_of x = page_of pml4" for x
      using that by (simp add: s1 memset_apply reg)
  qed (rule F(1))
  have "clear_pages (pb1, mem s1) = clear_pages (pb1, m)" using clear_pages_cong [of pb1 m "mem s1", OF same] by simp
  moreover have "missing_tables (mem s1) pml4 ps \<le> card (set ps)"
    unfolding missing_card by (rule card_mono) auto
  ultimately show "missing_tables (mem s1) pml4 ps + k \<le> card (clear_pages (pb1, mem s1))"
    using en F(8) by simp
qed

text \<open>The pages of the kernel at its high address: none of those below \<open>2 ^ 47\<close>, and no address
  that the processor accepts.\<close>

lemma low_not_high:
  assumes "in_pages a n b" and "unat a + n * 4096 \<le> 2 ^ 47" and "unat ks \<le> 2 ^ 32"
  shows "\<not> in_pages (KERNEL_START + ks) kp b"
  using in_pages_below [OF assms(1,2)] kernel_start_unat [OF assms(3)]
    div_le_mono [of "0xFFFF00000000" "unat (KERNEL_START + ks)" 4096]
  by (simp add: in_pages_def)

lemma high_not_canonical:
  assumes "unat ks + n * 4096 \<le> 2 ^ 32" and "i < n"
  shows "\<not> canonical (KERNEL_START + ks + of_nat i * 4096)"
proof -
  have "unat ks + n * 4096 \<le> 2 ^ 48" using assms(1) by simp
  from unat_run_addr [OF this assms(2)] have "unat (page_addr ks i) < 2 ^ 32" using assms by simp
  from not_canonical [OF this] show ?thesis by (simp add: page_addr_def add.assoc)
qed

text \<open>A second run of identity mappings keeps the first, even where both have a page.\<close>

lemma identity_runs:
  assumes "unat va + n * 4096 \<le> 2 ^ 48" and "unat vb + k * 4096 \<le> 2 ^ 48"
    and "\<And>x i. i < n \<Longrightarrow> vpage x = vpage (page_addr va i) \<Longrightarrow> maps_to m pml4 x (page_addr va i)"
    and "\<And>x i. i < k \<Longrightarrow> vpage x = vpage (page_addr vb i) \<Longrightarrow> maps_to m' pml4 x (page_addr vb i)"
    and keep: "\<And>x. unat x < 2 ^ 48 \<Longrightarrow> \<not> in_pages vb k x \<Longrightarrow> maps_to m pml4 x x \<Longrightarrow> maps_to m' pml4 x x"
    and b: "in_pages va n b \<or> in_pages vb k b"
  shows "maps_to m' pml4 b b"
proof (cases "in_pages vb k b")
  case True
  then show ?thesis using identity_run [OF assms(4,2), of b] in_pages_run [OF assms(2), of b] by blast
next
  case False
  with b have a: "in_pages va n b" by blast
  then have "maps_to m pml4 b b"
    using identity_run [OF assms(3,1), of b] in_pages_run [OF assms(1), of b] by blast
  with a False in_pages_run [OF assms(1), of b] show ?thesis by (intro keep) auto
qed


text \<open>The small machine with a bitmap of two bytes: thirteen free pages.\<close>

definition ex_pb16 :: PAGE_BITMAP where
  "ex_pb16 = ex_pb\<lparr>pb_bitmap := \<lparr>bm_buffer = 4096, bm_size = 2\<rparr>\<rparr>"

definition ex_fb :: GRAPHICS where
  "ex_fb = \<lparr>framebuffer_base = 0x20000, framebuffer_size = 0x800, g_width = 16, g_height = 32,
     pixels_per_scanline = 16, g_x = 0, g_y = 0\<rparr>"

lemma ex_bits16: "bits_of (pb_bitmap ex_pb16) = 16"
  by (simp add: bits_of_def ex_pb16_def)

lemma ex_bit16: "i < 16 \<Longrightarrow> page_bit (ex_pb16, ex_mem) (of_nat i) \<longleftrightarrow> i < 3"
proof -
  assume "i < 16"
  then have "i \<in> set [0..<16]" by simp
  moreover have "\<forall>i \<in> set [0..<16]. page_bit (ex_pb16, ex_mem) (of_nat i) \<longleftrightarrow> i < 3"
    by code_simp
  ultimately show ?thesis by blast
qed

lemma ex_clear16: "card (clear_pages (ex_pb16, ex_mem)) = 13"
proof -
  have "clear_pages (ex_pb16, ex_mem) = {3..<16}"
    by (auto simp: clear_pages_iff ex_bits16 ex_bit16)
  then show ?thesis by simp
qed

lemma ex_bytes16: "\<forall>b\<in>bitmap_bytes (pb_bitmap ex_pb16). page_taken (ex_pb16, ex_mem) b"
proof
  fix b
  assume "b \<in> bitmap_bytes (pb_bitmap ex_pb16)"
  then obtain i :: u64 where i: "b = 4096 + i div 8" "i \<le> 16"
    by (auto simp: bitmap_bytes_def ex_pb16_def)
  then have "unat i \<le> 16" by (simp add: word_le_nat_alt)
  then have "unat (i div 8) \<le> 2" using div_le_mono [of "unat i" 16 8] by (simp add: unat_div)
  then have "unat b = 4096 + unat (i div 8)" unfolding i(1) by (subst unat_add_small) simp_all
  with \<open>unat (i div 8) \<le> 2\<close> have "unat (b div 4096) = 1" by (simp add: unat_div)
  then have "b div 4096 = 1" by (simp add: word_unat_eq_iff)
  then show "page_taken (ex_pb16, ex_mem) b"
    using ex_bit16 [of 1] by (simp add: page_taken_def covered_def ex_bits16)
qed

lemma ex_tables16:
  "card (set (run_prefixes 0 5 @ run_prefixes 0x20000 1 @ run_prefixes (KERNEL_START + 0x4000) 1)) \<le> 6"
proof -
  have "length (remdups (run_prefixes 0 5 @ run_prefixes 0x20000 1 @ run_prefixes (KERNEL_START + 0x4000) 1)) = 6"
    by code_simp
  then show ?thesis by (simp only: length_remdups_card_conv)
qed


end
