(* ===== verification/Bootinfo.thy ===== *)
theory Bootinfo
  imports Print
begin

text \<open>
  \<open>boot/kernel/bootinfo.h\<close> and its copy \<open>boot/efi/inc/bootinfo.h\<close>: the packed structure that the
  boot loader fills and \<open>_start\<close> reads.
\<close>

section \<open>The structure\<close>

record GRAPHICS_OUTPUT_PROTOCOL =
  gop_framebuffer_base :: u64
  gop_framebuffer_size :: u64
  gop_width :: u32
  gop_height :: u32
  gop_pixels_per_scanline :: u32

record MEMORY_MAP =
  mm_map :: u64
  mm_size :: u64
  mm_desc_size :: u64

record BOOTDISK_ADDRESS =
  bd_seg :: u64
  bd_bus :: u8
  bd_dev :: u8
  bd_func :: u8

record BOOTINFO =
  bi_gop :: GRAPHICS_OUTPUT_PROTOCOL
  bi_mem_map :: MEMORY_MAP
  bi_xsdt_addr :: u64
  bi_bootdisk_addr :: BOOTDISK_ADDRESS

abbreviation SIZEOF_BOOTINFO :: nat where "SIZEOF_BOOTINFO \<equiv> 71"

section \<open>Its bytes\<close>

definition load_gop :: "mem \<Rightarrow> u64 \<Rightarrow> GRAPHICS_OUTPUT_PROTOCOL" where
  "load_gop m a = \<lparr>gop_framebuffer_base = load64 m a, gop_framebuffer_size = load64 m (a + 8),
     gop_width = load32 m (a + 16), gop_height = load32 m (a + 20), gop_pixels_per_scanline = load32 m (a + 24)\<rparr>"

definition load_mem_map :: "mem \<Rightarrow> u64 \<Rightarrow> MEMORY_MAP" where
  "load_mem_map m a = \<lparr>mm_map = load64 m a, mm_size = load64 m (a + 8), mm_desc_size = load64 m (a + 16)\<rparr>"

definition load_bootdisk :: "mem \<Rightarrow> u64 \<Rightarrow> BOOTDISK_ADDRESS" where
  "load_bootdisk m a = \<lparr>bd_seg = load64 m a, bd_bus = m (a + 8), bd_dev = m (a + 9), bd_func = m (a + 10)\<rparr>"

definition load_bootinfo :: "mem \<Rightarrow> u64 \<Rightarrow> BOOTINFO" where
  "load_bootinfo m a = \<lparr>bi_gop = load_gop m a, bi_mem_map = load_mem_map m (a + 28),
     bi_xsdt_addr = load64 m (a + 52), bi_bootdisk_addr = load_bootdisk m (a + 60)\<rparr>"

definition store_bootinfo :: "mem \<Rightarrow> u64 \<Rightarrow> BOOTINFO \<Rightarrow> mem" where
  "store_bootinfo m a b =
     (let g = bi_gop b; mm = bi_mem_map b; bd = bi_bootdisk_addr b;
          m = store64 m a (gop_framebuffer_base g);
          m = store64 m (a + 8) (gop_framebuffer_size g);
          m = store32 m (a + 16) (gop_width g);
          m = store32 m (a + 20) (gop_height g);
          m = store32 m (a + 24) (gop_pixels_per_scanline g);
          m = store64 m (a + 28) (mm_map mm);
          m = store64 m (a + 36) (mm_size mm);
          m = store64 m (a + 44) (mm_desc_size mm);
          m = store64 m (a + 52) (bi_xsdt_addr b);
          m = store64 m (a + 60) (bd_seg bd)
      in m(a + 68 := bd_bus bd, a + 69 := bd_dev bd, a + 70 := bd_func bd))"

section \<open>Reading it back\<close>

text \<open>A store of the structure touches its own bytes only, and every field reads back.\<close>

lemma region_field: "x + k \<le> y \<or> y < x \<Longrightarrow> x + k \<le> 128 \<Longrightarrow> y < 128 \<Longrightarrow> \<not> in_region (a + of_nat x) k (a + of_nat y)"
  using apart_offset [of x k y 1 a] by (auto simp: apart_def)

lemma load_store_field:
  assumes "x + k \<le> y \<or> y + j \<le> x" and "x + k \<le> 128" and "y + j \<le> 128"
  shows "load_le j (store_le k m (a + of_nat x) v) (a + of_nat y) = (load_le j m (a + of_nat y) :: 'b::len word)"
  using assms by (intro load_store_apart apart_offset) simp_all

lemma load_upd_field:
  assumes "x < y \<or> y + j \<le> x" and "x < 128" and "y + j \<le> 128"
  shows "load_le j (m(a + of_nat x := v)) (a + of_nat y) = (load_le j m (a + of_nat y) :: 'b::len word)"
proof (rule load_le_cong)
  fix i :: nat
  assume "i < j"
  with assms have "y + i \<noteq> x" "y + i < 2 ^ 64" "x < 2 ^ 64" by auto
  then have "(of_nat (y + i) :: u64) \<noteq> of_nat x"
    by (metis unat_of_nat_64)
  then show "(m(a + of_nat x := v)) (a + of_nat y + of_nat i) = m (a + of_nat y + of_nat i)"
    by (simp add: add.assoc)
qed

lemma byte_store_field:
  "x + k \<le> y \<or> y < x \<Longrightarrow> x + k \<le> 128 \<Longrightarrow> y < 128 \<Longrightarrow>
     store_le k m (a + of_nat x) v (a + of_nat y) = m (a + of_nat y)"
  using region_field by (intro store_le_other) simp_all

lemmas fields =
  load_store_field [where x = "numeral p" and y = "numeral q" for p q, unfolded of_nat_numeral]
  load_store_field [where x = 0 and y = "numeral q" for q, unfolded of_nat_numeral semiring_1_class.of_nat_0 add_0_right]
  load_store_field [where x = "numeral p" and y = 0 for p, unfolded of_nat_numeral semiring_1_class.of_nat_0 add_0_right]
  load_upd_field [where x = "numeral p" and y = "numeral q" for p q, unfolded of_nat_numeral]
  load_upd_field [where x = "numeral p" and y = 0 for p, unfolded of_nat_numeral semiring_1_class.of_nat_0 add_0_right]
  byte_store_field [where x = "numeral p" and y = "numeral q" for p q, unfolded of_nat_numeral]
  byte_store_field [where x = 0 and y = "numeral q" for q, unfolded of_nat_numeral semiring_1_class.of_nat_0 add_0_right]

lemma load_bootinfo_store: "load_bootinfo (store_bootinfo m a b) a = b"
  by (simp add: load_bootinfo_def load_gop_def load_mem_map_def load_bootdisk_def store_bootinfo_def Let_def
      fields load_store_le add.assoc)

lemma store_bootinfo_other:
  assumes "\<not> in_region a SIZEOF_BOOTINFO b"
  shows "store_bootinfo m a i b = m b"
proof -
  have "\<not> in_region (a + of_nat c) k b" if "c + k \<le> SIZEOF_BOOTINFO" for c k
    using in_region_part [OF _ that] assms by auto
  from this [of 0] this [of "numeral n" for n]
  have "k \<le> SIZEOF_BOOTINFO \<Longrightarrow> \<not> in_region a k b"
    and n: "numeral n + k \<le> SIZEOF_BOOTINFO \<Longrightarrow> \<not> in_region (a + numeral n) k b" for k n
    by simp_all
  moreover have "b \<noteq> a + numeral n" if "numeral n + 1 \<le> SIZEOF_BOOTINFO" for n
    using n [OF that] by auto
  ultimately show ?thesis by (simp add: store_bootinfo_def Let_def store_le_other)
qed

text \<open>What is read depends on these bytes only.\<close>

lemma load_field_cong:
  assumes "\<And>b. in_region a n b \<Longrightarrow> m b = m' b" and "c + k \<le> n" and "n \<le> 2 ^ 64"
  shows "load_le k m (a + of_nat c) = (load_le k m' (a + of_nat c) :: 'b::len word)"
proof (rule load_le_cong)
  fix i assume "i < k"
  with assms(2,3) have "in_region a n (a + of_nat (c + i))" by (subst in_region_offset) simp_all
  then have "m (a + of_nat (c + i)) = m' (a + of_nat (c + i))" by (rule assms)
  then show "m (a + of_nat c + of_nat i) = m' (a + of_nat c + of_nat i)" by (simp add: add.assoc)
qed

lemmas field_cong =
  load_field_cong [where c = "numeral p" for p, unfolded of_nat_numeral]
  load_field_cong [where c = 0, unfolded semiring_1_class.of_nat_0 add_0_right]

lemma load_bootinfo_cong:
  assumes "\<And>b. in_region a SIZEOF_BOOTINFO b \<Longrightarrow> m b = m' b"
  shows "load_bootinfo m a = load_bootinfo m' a"
proof -
  have "m (a + of_nat i) = m' (a + of_nat i)" if "i < SIZEOF_BOOTINFO" for i
    using that by (intro assms) simp
  note byte = this [of "numeral p" for p, unfolded of_nat_numeral]
  show ?thesis
    by (simp add: load_bootinfo_def load_gop_def load_mem_map_def load_bootdisk_def add.assoc byte
        field_cong [OF assms])
qed

end
