(* ===== verification/Kernel.thy ===== *)
theory Kernel
  imports Boot_Paging Bootinfo Pcie Nvme_Props Segments Idt "HOL-Library.Monad_Syntax"
begin

text \<open>
  \<open>_start\<close> of \<open>boot/kernel/kernel.c\<close>: the boot information, the order in which the kernel sets
  up its parts, the search of the boot disk and the start of its NVMe controller. What the
  linker decides (the bounds of the kernel and the addresses of its objects and handlers) and the
  compiler's choice in \<open>vir_to_phys\<close> are the record \<open>linked\<close>. The result is where the kernel ends
  up in an endless loop; \<open>None\<close> is a division by zero or a wait for the controller that never ends.
\<close>

section \<open>Boot information and globals\<close>

record linked =
  lk_kernel_start :: u64
  lk_kernel_end :: u64
  lk_gdt :: u64
  lk_isrs :: isrs
  lk_asq :: u64
  lk_acq :: u64
  lk_syscall_handler :: u64
  lk_bitfield :: bitfield_type

record kernel =
  k_graphics :: GRAPHICS
  k_mmap :: MEMORY_MAP
  k_xsdt :: u64
  k_tables :: acpi_tables
  k_pml4 :: u64
  k_bootdisk :: BOOTDISK_ADDRESS
  k_pages :: PAGE_BITMAP
  k_sel :: selectors
  k_idt :: IDT
  k_idtr :: IDTR
  k_mach :: machine

definition read_bootinfo :: "u64 \<Rightarrow> kernel \<Rightarrow> kernel" where
  "read_bootinfo BootInfo k =
     (let b = load_bootinfo (mem (k_mach k)) BootInfo; g = bi_gop b
      in k\<lparr>k_graphics := \<lparr>framebuffer_base = gop_framebuffer_base g, framebuffer_size = gop_framebuffer_size g,
             g_width = gop_width g, g_height = gop_height g, pixels_per_scanline = gop_pixels_per_scanline g,
             g_x = 0, g_y = 0\<rparr>,
           k_mmap := bi_mem_map b, k_xsdt := bi_xsdt_addr b, k_bootdisk := bi_bootdisk_addr b\<rparr>)"

definition say :: "string \<Rightarrow> kernel \<Rightarrow> kernel option" where
  "say str k = map_option (\<lambda>(g, s). k\<lparr>k_graphics := g, k_mach := s\<rparr>)
     (kprintf_to str [] (k_graphics k, k_mach k))"

abbreviation newline :: string where "newline \<equiv> [CHR 0x0A]"
abbreviation tab :: string where "tab \<equiv> [CHR 0x09]"

section \<open>Segments, paging and interrupts\<close>

definition start_gdt :: "linked \<Rightarrow> kernel \<Rightarrow> kernel" where
  "start_gdt lk k =
     (let (sel, s) = load_gdt (lk_gdt lk) (k_sel k, k_mach k) in k\<lparr>k_sel := sel, k_mach := s\<rparr>)"

definition start_paging :: "linked \<Rightarrow> kernel \<Rightarrow> kernel option" where
  "start_paging lk k =
     do {
       let s = k_mach k;
       (mem_size, pb, m) \<leftarrow> boot_bitmap (mm_map (k_mmap k)) (mm_size (k_mmap k)) (mm_desc_size (k_mmap k))
         (lk_kernel_start lk) (lk_kernel_end lk) (k_pages k, mem s);
       let kernel_pages = (lk_kernel_end lk - lk_kernel_start lk) div PAGE_SIZE + 1;
       let (pml4, pb, s) = init_pml4 (pb, s\<lparr>mem := m\<rparr>);
       let (pb, s) = map_memory pml4 mem_size (k_graphics k) (lk_kernel_start lk) kernel_pages (pb, s);
       let (t, pb, s) = map_acpi pml4 (k_xsdt k) (pb, s);
       Some (k\<lparr>k_pml4 := pml4, k_tables := t, k_pages := pb, k_mach := log_event (Write_cr3 pml4) s\<rparr>)
     }"

definition start_idt :: "linked \<Rightarrow> kernel \<Rightarrow> kernel" where
  "start_idt lk k =
     (let (idt, idtr, pb, s) = set_idt (lk_isrs lk) (k_idt k, k_pages k, k_mach k)
      in k\<lparr>k_idt := idt, k_idtr := idtr, k_pages := pb, k_mach := s\<rparr>)"

definition start_timer :: "hardware \<Rightarrow> kernel \<Rightarrow> kernel option" where
  "start_timer hw k = map_option (\<lambda>s. k\<lparr>k_mach := s\<rparr>) (acpi_set_apic_timer hw (t_madt (k_tables k)) 100 (k_mach k))"

section \<open>The boot disk\<close>

definition bootdisk_config_addr :: "kernel \<Rightarrow> u64" where
  "bootdisk_config_addr k =
     (let bd = k_bootdisk k
      in mcfg_base (mem (k_mach k)) (mcfg_entry (t_mcfg (k_tables k)) (unat (bd_seg bd)))
         + push_bit 20 (ucast (bd_bus bd)) + push_bit 15 (ucast (bd_dev bd)) + push_bit 12 (ucast (bd_func bd)))"

definition is_nvme :: "u32 \<Rightarrow> bool" where
  "is_nvme class_code \<longleftrightarrow> drop_bit 24 class_code = 0x01 \<and> drop_bit 16 class_code AND 0xff = 0x08"

text \<open>The base addresses of a type 0 header are at 16 and 20; \<open>tmp\<close> is an object of its own.\<close>

definition bootdisk_cntl_addr :: "hardware \<Rightarrow> u64 \<Rightarrow> machine \<Rightarrow> u64 \<times> machine" where
  "bootdisk_cntl_addr hw config s =
     (let (tmp, s) = read_words hw config (64 div 4) (\<lambda>_. 0, s);
          base_addr0 = load32 tmp 16;
          base_addr1 = load32 tmp 20
      in (ucast (base_addr0 AND 0xfffffff0) OR push_bit 32 (ucast base_addr1), s))"

section \<open>The NVMe controller\<close>

text \<open>\<open>while (nvme_mmio_read_32(..., NVME_CSTS_OFFSET, 0, 1));\<close> and the same loop negated.\<close>

partial_function (option) wait_csts :: "hardware \<Rightarrow> u64 \<Rightarrow> bool \<Rightarrow> machine \<Rightarrow> machine option" where
  "wait_csts hw cntl ready s =
     (let (v, s) = nvme_mmio_read_32 hw cntl NVME_CSTS_OFFSET 0 1 s
      in if (v \<noteq> 0) = ready then Some s else wait_csts hw cntl ready s)"

definition nvme_set_aqa :: "hardware \<Rightarrow> u64 \<Rightarrow> machine \<Rightarrow> machine" where
  "nvme_set_aqa hw cntl s =
     (let s = nvme_mmio_write_32 hw cntl NVME_AQA_OFFSET 0 (NVME_ADMIN_QUEUE_ENTRIES - 1) 12 s
      in nvme_mmio_write_32 hw cntl NVME_AQA_OFFSET 16 (NVME_ADMIN_QUEUE_ENTRIES - 1) 12 s)"

definition nvme_set_queues :: "linked \<Rightarrow> hardware \<Rightarrow> u64 \<Rightarrow> u64 \<Rightarrow> machine \<Rightarrow> machine" where
  "nvme_set_queues lk hw pml4 cntl s =
     (let s = nvme_mmio_write_64 hw cntl NVME_ASQ_OFFSET 12 (vir_to_phys (lk_bitfield lk) pml4 (mem s) (lk_asq lk)) 52 s
      in nvme_mmio_write_64 hw cntl NVME_ACQ_OFFSET 12 (vir_to_phys (lk_bitfield lk) pml4 (mem s) (lk_acq lk)) 52 s)"

definition nvme_set_cc :: "hardware \<Rightarrow> u64 \<Rightarrow> machine \<Rightarrow> machine" where
  "nvme_set_cc hw cntl s =
     (let s = nvme_mmio_write_32 hw cntl NVME_CC_OFFSET 4 0 3 s;
          s = nvme_mmio_write_32 hw cntl NVME_CC_OFFSET 7 0 4 s;
          s = nvme_mmio_write_32 hw cntl NVME_CC_OFFSET 11 0 3 s;
          s = nvme_mmio_write_32 hw cntl NVME_CC_OFFSET 14 0 2 s;
          s = nvme_mmio_write_32 hw cntl NVME_CC_OFFSET 16 6 4 s
      in nvme_mmio_write_32 hw cntl NVME_CC_OFFSET 20 4 4 s)"

text \<open>Lines 153 to 162.\<close>

definition nvme_configure :: "linked \<Rightarrow> hardware \<Rightarrow> u64 \<Rightarrow> u64 \<Rightarrow> machine \<Rightarrow> machine" where
  "nvme_configure lk hw pml4 cntl s = nvme_set_cc hw cntl (nvme_set_queues lk hw pml4 cntl (nvme_set_aqa hw cntl s))"

definition on_mach :: "(machine \<Rightarrow> machine) \<Rightarrow> kernel \<Rightarrow> kernel" where
  "on_mach f k = k\<lparr>k_mach := f (k_mach k)\<rparr>"

definition start_nvme :: "linked \<Rightarrow> hardware \<Rightarrow> u64 \<Rightarrow> kernel \<Rightarrow> kernel option" where
  "start_nvme lk hw cntl k =
     do {
       let (pb, s) = map_pages (k_pml4 k) cntl cntl 3 (k_pages k, k_mach k);
       k \<leftarrow> say (tab @ ''Disabling NVMe Controller...'') (k\<lparr>k_pages := pb, k_mach := s\<rparr>);
       let s = nvme_mmio_write_32 hw cntl NVME_CC_OFFSET 0 0 1 (k_mach k);
       s \<leftarrow> wait_csts hw cntl False s;
       k \<leftarrow> say (''Done!'' @ newline) (k\<lparr>k_mach := s\<rparr>);
       k \<leftarrow> say (tab @ ''Enabling NVMe Controller...'') (on_mach (nvme_configure lk hw (k_pml4 k) cntl) k);
       let s = nvme_mmio_write_32 hw cntl NVME_CC_OFFSET 0 1 1 (k_mach k);
       s \<leftarrow> wait_csts hw cntl True s;
       say (''Done!'' @ newline) (k\<lparr>k_mach := s\<rparr>)
     }"

section \<open>_start\<close>

datatype boot_end = Booted kernel | No_bootdisk kernel

text \<open>Up to the timer, and from the search of the boot disk on.\<close>

definition start_core :: "linked \<Rightarrow> hardware \<Rightarrow> u64 \<Rightarrow> kernel \<Rightarrow> kernel option" where
  "start_core lk hw BootInfo k =
     do {
       k \<leftarrow> say ''Loading GDT...'' (read_bootinfo BootInfo k);
       k \<leftarrow> say (''Done!'' @ newline) (start_gdt lk k);
       k \<leftarrow> say ''Setting Paging...'' k;
       k \<leftarrow> start_paging lk k;
       k \<leftarrow> say (''Done!'' @ newline) k;
       k \<leftarrow> say ''Setting IDT...'' k;
       k \<leftarrow> say (''Done!'' @ newline) (start_idt lk k);
       k \<leftarrow> say ''Setting APIC Timer...'' k;
       k \<leftarrow> start_timer hw k;
       say (''Done!'' @ newline) k
     }"

definition start_disk :: "linked \<Rightarrow> hardware \<Rightarrow> kernel \<Rightarrow> boot_end option" where
  "start_disk lk hw k =
     do {
       k \<leftarrow> say (''Finding Bootdisk and Initialising NVMe...'' @ newline) k;
       let config = bootdisk_config_addr k;
       let (class_code, s) = mmio_read32 hw (config + 0x08) (k_mach k);
       let k = k\<lparr>k_mach := s\<rparr>;
       if is_nvme class_code
       then do {
         k \<leftarrow> say (tab @ ''Found Bootdisk.'' @ newline) k;
         let (cntl, s) = bootdisk_cntl_addr hw config (k_mach k);
         k \<leftarrow> start_nvme lk hw cntl (k\<lparr>k_mach := s\<rparr>);
         k \<leftarrow> say (''Done!'' @ newline) k;
         k \<leftarrow> say ''Setting syscall...'' k;
         k \<leftarrow> say (''Done!'' @ newline) (on_mach (set_syscall (lk_syscall_handler lk)) k);
         k \<leftarrow> say (''Entering user mode...'' @ newline @ newline) k;
         Some (Booted k)
       }
       else do {
         k \<leftarrow> say (tab @ ''Could not find bootdisk.'' @ newline) k;
         Some (No_bootdisk k)
       }
     }"

definition start :: "linked \<Rightarrow> hardware \<Rightarrow> u64 \<Rightarrow> kernel \<Rightarrow> boot_end option" where
  "start lk hw BootInfo k = do { k \<leftarrow> start_core lk hw BootInfo k; start_disk lk hw k }"

end
