(* ===== verification/Kernel_Nvme.thy ===== *)
theory Kernel_Nvme
  imports Kernel
begin

text \<open>
  The part of \<open>_start\<close> that resets and configures the NVMe controller: when the waits for its
  ready bit end, and what its registers hold after the configuration.
\<close>

section \<open>Waiting for the controller\<close>

definition csts_ready :: "mem \<Rightarrow> u64 \<Rightarrow> bool" where
  "csts_ready m cntl = bit (load32 m (cntl + 0x1c)) 0"

lemma csts_value: "(drop_bit 0 w AND drop_bit (32 - 1) (0xFFFFFFFF :: u32) \<noteq> 0) = bit (w :: u32) 0"
proof -
  have "drop_bit (32 - 1) (0xFFFFFFFF :: u32) = 1" by code_simp
  then show ?thesis by (simp add: and_one_eq bit_0 odd_iff_mod_2_eq_one)
qed

lemma csts_bit: "(fst (nvme_mmio_read_32 hw cntl NVME_CSTS_OFFSET 0 (Suc 0) s) \<noteq> 0) =
   csts_ready (hw_mem hw (tick s) (mem s)) cntl"
  using csts_value [of "load32 (hw_mem hw (tick s) (mem s)) (cntl + 0x1c)"]
  by (simp only: nvme_mmio_read_32_def mmio_read32_def Let_def csts_ready_def prod.case fst_conv One_nat_def)

lemma csts_state: "snd (nvme_mmio_read_32 hw cntl NVME_CSTS_OFFSET 0 (Suc 0) s) =
   s\<lparr>mem := hw_mem hw (tick s) (mem s), tick := Suc (tick s)\<rparr>"
  by (simp add: nvme_mmio_read_32_def mmio_read32_def Let_def)

lemma wait_csts_step:
  "wait_csts hw cntl ready s =
     (let s' = s\<lparr>mem := hw_mem hw (tick s) (mem s), tick := Suc (tick s)\<rparr>
      in if csts_ready (mem s') cntl = ready then Some s' else wait_csts hw cntl ready s')"
  by (subst wait_csts.simps)
     (simp add: case_prod_unfold csts_bit csts_state Let_def)

lemma wait_csts_found:
  assumes "csts_ready (read_mem hw s n) cntl = ready" and "\<And>i. i < n \<Longrightarrow> csts_ready (read_mem hw s i) cntl \<noteq> ready"
  shows "wait_csts hw cntl ready s = Some (s\<lparr>mem := read_mem hw s n, tick := tick s + Suc n\<rparr>)"
  using assms
proof (induction n arbitrary: s)
  case 0
  then show ?case by (subst wait_csts_step) (simp add: Let_def)
next
  case (Suc n)
  let ?s = "s\<lparr>mem := hw_mem hw (tick s) (mem s), tick := Suc (tick s)\<rparr>"
  have "csts_ready (mem ?s) cntl \<noteq> ready" using Suc.prems(2) [of 0] by simp
  then have "wait_csts hw cntl ready s = wait_csts hw cntl ready ?s"
    by (subst wait_csts_step) (simp add: Let_def)
  also have "\<dots> = Some (?s\<lparr>mem := read_mem hw ?s n, tick := tick ?s + Suc n\<rparr>)"
  proof (rule Suc.IH)
    show "csts_ready (read_mem hw ?s n) cntl = ready" using Suc.prems(1) by (simp only: read_mem_Suc)
    show "csts_ready (read_mem hw ?s i) cntl \<noteq> ready" if "i < n" for i
      using Suc.prems(2) [of "Suc i"] that by (simp add: read_mem_Suc del: read_mem.simps)
  qed
  finally show ?case by (simp only: read_mem_Suc) simp
qed

lemma wait_csts_Some:
  assumes "wait_csts hw cntl ready s = Some r"
  shows "\<exists>n. csts_ready (read_mem hw s n) cntl = ready"
proof (rule wait_csts.raw_induct [where P = "\<lambda>hw cntl ready s r. \<exists>n. csts_ready (read_mem hw s n) cntl = ready"])
  fix f :: "hardware \<Rightarrow> u64 \<Rightarrow> bool \<Rightarrow> machine \<Rightarrow> machine option" and hw :: hardware and cntl ready and s r :: machine
  let ?s = "s\<lparr>mem := hw_mem hw (tick s) (mem s), tick := Suc (tick s)\<rparr>"
  assume IH: "\<And>hw cntl ready s r. f hw cntl ready s = Some r \<Longrightarrow> \<exists>n. csts_ready (read_mem hw s n) cntl = ready"
    and *: "(let (v, s) = nvme_mmio_read_32 hw cntl NVME_CSTS_OFFSET 0 1 s
      in if (v \<noteq> 0) = ready then Some s else f hw cntl ready s) = Some r"
  show "\<exists>n. csts_ready (read_mem hw s n) cntl = ready"
  proof (cases "csts_ready (mem ?s) cntl = ready")
    case True
    then have "csts_ready (read_mem hw s 0) cntl = ready" by simp
    then show ?thesis by blast
  next
    case False
    with * have "f hw cntl ready ?s = Some r"
      by (simp add: case_prod_unfold csts_bit csts_state Let_def)
    from IH [OF this] obtain n where "csts_ready (read_mem hw ?s n) cntl = ready" by blast
    then have "csts_ready (read_mem hw s (Suc n)) cntl = ready" by (simp only: read_mem_Suc)
    then show ?thesis by blast
  qed
qed (rule assms)

lemma controller_waits:
  "wait_csts hw cntl ready s =
     (if \<exists>n. csts_ready (read_mem hw s n) cntl = ready
      then let n = LEAST n. csts_ready (read_mem hw s n) cntl = ready
           in Some (s\<lparr>mem := read_mem hw s n, tick := tick s + Suc n\<rparr>)
      else None)"
proof (cases "\<exists>n. csts_ready (read_mem hw s n) cntl = ready")
  case True
  let ?n = "LEAST n. csts_ready (read_mem hw s n) cntl = ready"
  have "csts_ready (read_mem hw s ?n) cntl = ready" using True by (rule LeastI_ex)
  moreover have "csts_ready (read_mem hw s i) cntl \<noteq> ready" if "i < ?n" for i using that by (rule not_less_Least)
  ultimately have "wait_csts hw cntl ready s = Some (s\<lparr>mem := read_mem hw s ?n, tick := tick s + Suc ?n\<rparr>)"
    by (rule wait_csts_found)
  with True show ?thesis by (simp only: if_True Let_def)
next
  case False
  then have "wait_csts hw cntl ready s = None" using wait_csts_Some by fastforce
  with False show ?thesis by simp
qed

section \<open>The registers of the controller\<close>

lemma load64_halves: "push_bit 32 (ucast (load32 m (a + 4))) OR ucast (load32 m a) = load64 m a"
proof (rule bit_word_eqI)
  fix n :: nat
  assume n: "n < LENGTH(64)"
  show "bit (push_bit 32 (ucast (load32 m (a + 4))) OR ucast (load32 m a) :: u64) n = bit (load64 m a) n"
  proof (cases "n < 32")
    case True
    then show ?thesis by (simp add: bit_or_iff bit_push_bit_iff bit_ucast_iff bit_load_le)
  next
    case False
    then obtain k where k: "n = 32 + k" by (metis le_iff_add not_less)
    then have d: "n div 8 = 4 + k div 8" "n mod 8 = k mod 8" by (simp, presburger)
    show ?thesis using n
      by (auto simp: k bit_or_iff bit_push_bit_iff bit_ucast_iff bit_load_le d [unfolded k] add.assoc)
  qed
qed

lemma mem_write_32:
  "mem (nvme_mmio_write_32 (quiet_hw port) addr o1 o2 v sz s) =
     store32 (mem s) (addr + o1) (put_field o2 sz v (load32 (mem s) (addr + o1)))"
  by (simp add: nvme_32_fields r32.update_field_def mmio_read_quiet)

lemma load_write_64:
  "load64 (mem (nvme_mmio_write_64 (quiet_hw port) addr o1 o2 v sz s)) (addr + o1) =
     put_field o2 sz v (load64 (mem s) (addr + o1))"
  using r64.rd_wr [of port "addr + o1"]
  by (simp add: nvme_64_fields r64.update_field_def mmio_read64_def mmio_read_quiet load64_halves)

lemma write_64_other:
  "\<not> in_region (addr + o1) 8 b \<Longrightarrow> mem (nvme_mmio_write_64 (quiet_hw port) addr o1 o2 v sz s) b = mem s b"
proof -
  assume "\<not> in_region (addr + o1) 8 b"
  then have "\<not> in_region (addr + o1) 4 b" "\<not> in_region (addr + o1 + 4) 4 b"
    using in_region_mono [of "addr + o1" 4 b 8] in_region_part [of "addr + o1" 4 4 b 8] by auto
  then show ?thesis
    by (simp add: nvme_64_fields r64.update_field_def mmio_write64_def mmio_read64_def mmio_read_quiet store_le_other)
qed

lemma queue_field: "put_field 12 52 p w = (w AND 0xfff) OR push_bit 12 (p :: u64)"
proof -
  have "NOT (push_bit 12 (drop_bit (64 - 52) (- 1 :: u64))) = 0xfff" by code_simp
  then show ?thesis by (simp add: put_field_def)
qed

lemma aqa_field: "put_field 16 12 31 (put_field 0 12 31 w) = (w AND 0xf000f000) OR (0x001f001f :: u32)"
proof -
  have e: "(- 268374016 :: u32) = 0xf000f000" by code_simp
  have "put_field 16 12 31 (put_field 0 12 31 w) = (w AND - 268374016) OR (0x001f001f :: u32)"
    by (simp add: put_field_def bit.conj_disj_distrib2 mask_eq_exp_minus_1 push_bit_eq_mult and.assoc or.assoc)
  then show ?thesis by (simp only: e)
qed

lemma cc_field: "put_field 20 4 4 (put_field 16 4 6 (put_field 14 2 0 (put_field 11 3 0 (put_field 7 4 0 (put_field 4 3 0 w)))))
   = (w AND 0xff00000f) OR (0x00460000 :: u32)"
proof -
  have e: "(- 16777201 :: u32) = 0xff00000f" by code_simp
  have "put_field 20 4 4 (put_field 16 4 6 (put_field 14 2 0 (put_field 11 3 0 (put_field 7 4 0 (put_field 4 3 0 w))))) = (w AND - 16777201) OR (0x00460000 :: u32)"
    by (simp add: put_field_def bit.conj_disj_distrib2 mask_eq_exp_minus_1 push_bit_eq_mult and.assoc or.assoc)
  then show ?thesis by (simp only: e)
qed


text \<open>What changes in one region of memory does not change what is read in another.\<close>

definition only_in :: "u64 \<Rightarrow> nat \<Rightarrow> mem \<Rightarrow> mem \<Rightarrow> bool" where
  "only_in a n m m' \<longleftrightarrow> (\<forall>b. \<not> in_region a n b \<longrightarrow> m' b = m b)"

lemma load_only_in: "only_in a n m m' \<Longrightarrow> apart a n b k \<Longrightarrow> load_le k m' b = (load_le k m b :: 'a::len word)"
  by (rule load_le_cong) (simp add: only_in_def apart_def)

lemma register_apart:
  "x + n \<le> y \<or> y + k \<le> x \<Longrightarrow> x + n \<le> 2 ^ 64 \<Longrightarrow> y + k \<le> 2 ^ 64 \<Longrightarrow> apart (a + of_nat x) n (a + of_nat y) k"
  by (rule apart_offset)

lemma only_in_trans: "only_in a n m m' \<Longrightarrow> only_in a n m' m'' \<Longrightarrow> only_in a n m m''"
  by (simp add: only_in_def)

lemma only_in_part:
  "only_in (a + of_nat c) k m m' \<Longrightarrow> c + k \<le> n \<Longrightarrow> n < 2 ^ 64 \<Longrightarrow> only_in a n m m'"
  using in_region_part unfolding only_in_def by blast

lemma set_aqa:
  "load32 (mem (nvme_set_aqa (quiet_hw port) a s)) (a + 0x24) = (load32 (mem s) (a + 0x24) AND 0xf000f000) OR 0x001f001f"
  "only_in (a + 0x24) 4 (mem s) (mem (nvme_set_aqa (quiet_hw port) a s))"
  by (simp_all add: nvme_set_aqa_def Let_def mem_write_32 load_store_le aqa_field only_in_def store_le_other)

lemma set_cc:
  "load32 (mem (nvme_set_cc (quiet_hw port) a s)) (a + 0x14) = (load32 (mem s) (a + 0x14) AND 0xff00000f) OR 0x00460000"
  "only_in (a + 0x14) 4 (mem s) (mem (nvme_set_cc (quiet_hw port) a s))"
  by (simp_all add: nvme_set_cc_def Let_def mem_write_32 load_store_le cc_field only_in_def store_le_other)

lemma set_asq:
  "load64 (mem (nvme_mmio_write_64 (quiet_hw port) a o1 12 p 52 s)) (a + o1) =
     (load64 (mem s) (a + o1) AND 0xfff) OR push_bit 12 p"
  "only_in (a + o1) 8 (mem s) (mem (nvme_mmio_write_64 (quiet_hw port) a o1 12 p 52 s))"
  by (simp_all add: load_write_64 queue_field only_in_def write_64_other)

text \<open>The wait for the controller ends with the first read that sees the ready bit as
  wanted, having read the status register that often and written nothing; with a controller that
  never shows it, it never ends.\<close>

lemma controller_wait:
  "wait_csts hw cntl ready s =
     (if \<exists>n. csts_ready (read_mem hw s n) cntl = ready
      then let n = LEAST n. csts_ready (read_mem hw s n) cntl = ready
           in Some (s\<lparr>mem := read_mem hw s n, tick := tick s + Suc n\<rparr>)
      else None)"
  by (rule controller_waits)

text \<open>After the configuration of a quiet controller, both admin queues have 32 entries, the
  entry sizes are 64 and 16 bytes with every other set-up field of \<open>CC\<close> zero, and all bits
  outside these fields are kept. The base registers of the queues hold the physical page address
  shifted up by twelve bits over the old low bits: \<open>vir_to_phys\<close> gives an address, not a page
  number, so this is 4096 times the address of the queue. Nothing else is written.\<close>

lemma nvme_admin_setup:
  "\<exists>m1 m2. only_in (a + 0x24) 20 (mem s) m1 \<and> only_in (a + 0x24) 20 (mem s) m2 \<and>
    (let m = mem s; m' = mem (nvme_configure lk (quiet_hw port) pml4 a s); tr = vir_to_phys (lk_bitfield lk) pml4 in
       load32 m' (a + 0x24) = (load32 m (a + 0x24) AND 0xf000f000) OR 0x001f001f \<and>
       load64 m' (a + 0x28) = (load64 m (a + 0x28) AND 0xfff) OR push_bit 12 (tr m1 (lk_asq lk)) \<and>
       load64 m' (a + 0x30) = (load64 m (a + 0x30) AND 0xfff) OR push_bit 12 (tr m2 (lk_acq lk)) \<and>
       load32 m' (a + 0x14) = (load32 m (a + 0x14) AND 0xff00000f) OR 0x00460000 \<and>
       only_in (a + 0x14) 36 m m')"
proof -
  let ?hw = "quiet_hw port" and ?tr = "vir_to_phys (lk_bitfield lk) pml4"
  define s1 where "s1 = nvme_set_aqa ?hw a s"
  define s2 where "s2 = nvme_mmio_write_64 ?hw a 0x28 12 (?tr (mem s1) (lk_asq lk)) 52 s1"
  define s3 where "s3 = nvme_mmio_write_64 ?hw a 0x30 12 (?tr (mem s2) (lk_acq lk)) 52 s2"
  define s4 where "s4 = nvme_set_cc ?hw a s3"
  have s4: "nvme_configure lk ?hw pml4 a s = s4"
    by (simp only: nvme_configure_def nvme_set_queues_def Let_def s1_def s2_def s3_def s4_def)
  note A = set_aqa [where port = port and a = a and s = s, folded s1_def]
  note B = set_asq [where port = port and a = a and ?o1.0 = "0x28" and p = "?tr (mem s1) (lk_asq lk)" and s = s1, folded s2_def]
  note C = set_asq [where port = port and a = a and ?o1.0 = "0x30" and p = "?tr (mem s2) (lk_acq lk)" and s = s2, folded s3_def]
  note D = set_cc [where port = port and a = a and s = s3, folded s4_def]
  have ap: "apart (a + 0x14) 4 (a + 0x24) 4" "apart (a + 0x14) 4 (a + 0x28) 8" "apart (a + 0x14) 4 (a + 0x30) 8"
    "apart (a + 0x24) 4 (a + 0x14) 4" "apart (a + 0x24) 4 (a + 0x28) 8" "apart (a + 0x24) 4 (a + 0x30) 8"
    "apart (a + 0x28) 8 (a + 0x14) 4" "apart (a + 0x28) 8 (a + 0x24) 4" "apart (a + 0x28) 8 (a + 0x30) 8"
    "apart (a + 0x30) 8 (a + 0x14) 4" "apart (a + 0x30) 8 (a + 0x24) 4" "apart (a + 0x30) 8 (a + 0x28) 8"
    using register_apart [of 20 4 36 4 a] register_apart [of 20 4 40 8 a] register_apart [of 20 4 48 8 a]
      register_apart [of 36 4 20 4 a] register_apart [of 36 4 40 8 a] register_apart [of 36 4 48 8 a]
      register_apart [of 40 8 20 4 a] register_apart [of 40 8 36 4 a] register_apart [of 40 8 48 8 a]
      register_apart [of 48 8 20 4 a] register_apart [of 48 8 36 4 a] register_apart [of 48 8 40 8 a]
    by simp_all
  note L = load_only_in [OF A(2)] load_only_in [OF B(2)] load_only_in [OF C(2)] load_only_in [OF D(2)]
  have "load32 (mem s4) (a + 0x24) = (load32 (mem s) (a + 0x24) AND 0xf000f000) OR 0x001f001f"
    "load64 (mem s4) (a + 0x28) = (load64 (mem s) (a + 0x28) AND 0xfff) OR push_bit 12 (?tr (mem s1) (lk_asq lk))"
    "load64 (mem s4) (a + 0x30) = (load64 (mem s) (a + 0x30) AND 0xfff) OR push_bit 12 (?tr (mem s2) (lk_acq lk))"
    "load32 (mem s4) (a + 0x14) = (load32 (mem s) (a + 0x14) AND 0xff00000f) OR 0x00460000"
    using ap by (simp_all only: A(1) B(1) C(1) D(1) L)
  moreover have "only_in (a + 0x24) 20 (mem s) (mem s1)"
    using only_in_part [of "a + 0x24" 0 4 "mem s" "mem s1" 20] A(2) by simp
  moreover from this have "only_in (a + 0x24) 20 (mem s) (mem s2)"
    using only_in_part [of "a + 0x24" 4 8 "mem s1" "mem s2" 20] B(2) only_in_trans by (simp add: add.assoc)
  moreover have "only_in (a + 0x14) 36 (mem s) (mem s4)"
  proof -
    have "only_in (a + 0x14) 36 (mem s) (mem s1)" "only_in (a + 0x14) 36 (mem s1) (mem s2)"
      "only_in (a + 0x14) 36 (mem s2) (mem s3)" "only_in (a + 0x14) 36 (mem s3) (mem s4)"
      using only_in_part [of "a + 0x14" 16 4 "mem s" "mem s1" 36] only_in_part [of "a + 0x14" 20 8 "mem s1" "mem s2" 36]
        only_in_part [of "a + 0x14" 28 8 "mem s2" "mem s3" 36] only_in_part [of "a + 0x14" 0 4 "mem s3" "mem s4" 36]
        A(2) B(2) C(2) D(2) by (simp_all add: add.assoc)
    then show ?thesis by (blast intro: only_in_trans)
  qed
  ultimately show ?thesis unfolding s4 Let_def by blast
qed

end
