(* ===== verification/Kernel_Props.thy ===== *)
theory Kernel_Props
  imports Kernel_Nvme
begin

text \<open>
  \<open>_start\<close> as a whole: the order in which the processor is set up, and when the boot ends. The
  abstraction \<open>cpu\<close> keeps of the machine the instructions that configure the processor and the
  model-specific registers; every step of the boot either leaves it alone (\<open>same_cpu\<close>) or
  appends its own instructions.
\<close>

section \<open>The order of the set-up\<close>

text \<open>The instructions that set up the processor, as opposed to those that act on devices.\<close>

fun cpu_event :: "event \<Rightarrow> bool" where
  "cpu_event (Wrmsr r v) = True"
| "cpu_event Cli = True"
| "cpu_event Sti = True"
| "cpu_event Hlt = True"
| "cpu_event (Lgdt n a) = True"
| "cpu_event (Lidt n a) = True"
| "cpu_event (Write_cr3 a) = True"
| "cpu_event _ = False"

definition cpu :: "machine \<Rightarrow> event list \<times> (u32 \<Rightarrow> u32 \<times> u32)" where
  "cpu s = (filter cpu_event (events s), msrs s)"

named_theorems cpu_simps "steps that leave the processor alone"

lemma cpu_mem [cpu_simps]: "cpu (s\<lparr>mem := m\<rparr>) = cpu s" "cpu (s\<lparr>mem := m, tick := t\<rparr>) = cpu s"
  by (simp_all add: cpu_def)

lemma cpu_io [cpu_simps]:
  "cpu (outb v p s) = cpu s" "cpu (snd (inb hw p s)) = cpu s" "cpu (io_wait s) = cpu s"
  "cpu (invlpg a s) = cpu s" "cpu (mmio_write32 a w s) = cpu s" "cpu (snd (mmio_read32 hw a s)) = cpu s"
  by (simp_all add: cpu_def outb_def inb_def io_wait_def invlpg_def mmio_write32_def mmio_read32_def Let_def)

lemma cpu_nvme [cpu_simps]:
  "cpu (nvme_mmio_write_32 hw a o1 o2 v sz s) = cpu s" "cpu (nvme_mmio_write_64 hw a o1 o2 w sz s) = cpu s"
  by (simp_all add: nvme_mmio_write_32_def nvme_mmio_write_64_def case_prod_unfold Let_def cpu_simps)

lemma cpu_map_page [cpu_simps]: "cpu (snd (map_page pml4 va pa s)) = cpu (snd s)"
  by (simp add: map_page_def case_prod_unfold Let_def cpu_simps)

lemma cpu_map_pages [cpu_simps]: "cpu (snd (map_pages pml4 va pa n s)) = cpu (snd s)"
  by (induction n) (simp_all add: cpu_simps)

lemma cpu_boot_maps [cpu_simps]:
  "cpu (snd (snd (init_pml4 s))) = cpu (snd s)" "cpu (snd (lock_framebuffer g s)) = cpu (snd s)"
  "cpu (snd (map_memory pml4 tot g ks kp s)) = cpu (snd s)" "cpu (snd (snd (map_acpi pml4 xsdt s))) = cpu (snd s)"
  by (simp_all add: init_pml4_def lock_framebuffer_def map_memory_def map_acpi_def case_prod_unfold Let_def cpu_simps
      del: req_page.simps)

lemma cpu_wait_pit [cpu_simps]: "cpu (wait_pit hw s) = cpu s"
  by (simp add: wait_pit_once cpu_simps)

lemma cpu_timer: "acpi_set_apic_timer hw madt n s = Some s' \<Longrightarrow> cpu s' = cpu s"
  by (auto simp: acpi_set_apic_timer_def case_prod_unfold Let_def cpu_simps split: if_splits)

lemma cpu_read_words [cpu_simps]: "cpu (snd (read_words hw a n rs)) = cpu (snd rs)"
  by (induction n) (simp_all add: case_prod_unfold Let_def cpu_simps)

lemma cpu_cntl [cpu_simps]: "cpu (snd (bootdisk_cntl_addr hw a s)) = cpu s"
  by (simp add: bootdisk_cntl_addr_def case_prod_unfold Let_def cpu_simps)

lemma cpu_wait: "wait_csts hw a ready s = Some s' \<Longrightarrow> cpu s' = cpu s"
  by (auto simp: controller_waits Let_def cpu_simps split: if_splits)

lemma cpu_configure [cpu_simps]: "cpu (nvme_configure lk hw pml4 a s) = cpu s"
  by (simp add: nvme_configure_def nvme_set_cc_def nvme_set_queues_def nvme_set_aqa_def Let_def cpu_simps)

text \<open>What a step of the boot may do to the state without touching the processor.\<close>

definition same_cpu :: "kernel \<Rightarrow> kernel \<Rightarrow> bool" where
  "same_cpu k k' \<longleftrightarrow> cpu (k_mach k') = cpu (k_mach k) \<and> k_pml4 k' = k_pml4 k \<and> k_idtr k' = k_idtr k"

lemma same_cpu_trans [trans]: "same_cpu k k' \<Longrightarrow> same_cpu k' k'' \<Longrightarrow> same_cpu k k''"
  by (simp add: same_cpu_def)

lemma say_same: "say str k = Some k' \<Longrightarrow> same_cpu k k'"
  by (auto simp: say_def kprintf_to_def same_cpu_def cpu_simps)


lemma cpu_log: "cpu_event e \<Longrightarrow> cpu (log_event e s) = (fst (cpu s) @ [e], snd (cpu s))"
  by (simp add: cpu_def)

lemma cpu_gdt:
  "cpu (k_mach (start_gdt lk k)) = (fst (cpu (k_mach k)) @ [Lgdt 4095 (lk_gdt lk)], snd (cpu (k_mach k)))"
  by (simp add: start_gdt_def load_gdt_def gdtr_size_def cpu_log)

lemma cpu_paging:
  assumes "start_paging lk k = Some k'"
  shows "cpu (k_mach k') = (fst (cpu (k_mach k)) @ [Write_cr3 (k_pml4 k')], snd (cpu (k_mach k)))"
proof -
  obtain tot pb m where b: "boot_bitmap (mm_map (k_mmap k)) (mm_size (k_mmap k)) (mm_desc_size (k_mmap k))
      (lk_kernel_start lk) (lk_kernel_end lk) (k_pages k, mem (k_mach k)) = Some (tot, pb, m)"
    using assms by (auto simp: start_paging_def bind_eq_Some_conv Let_def)
  obtain p pb1 s1 where 1: "init_pml4 (pb, (k_mach k)\<lparr>mem := m\<rparr>) = (p, pb1, s1)" by (metis prod_cases3)
  obtain pb2 s2 where 2: "map_memory p tot (k_graphics k) (lk_kernel_start lk)
      ((lk_kernel_end lk - lk_kernel_start lk) div PAGE_SIZE + 1) (pb1, s1) = (pb2, s2)" by (metis surj_pair)
  obtain t pb3 s3 where 3: "map_acpi p (k_xsdt k) (pb2, s2) = (t, pb3, s3)" by (metis prod_cases3)
  have k': "k' = k\<lparr>k_pml4 := p, k_tables := t, k_pages := pb3, k_mach := log_event (Write_cr3 p) s3\<rparr>"
    using assms by (simp add: start_paging_def Let_def b 1 2 3)
  have "cpu s3 = cpu (k_mach k)"
    using cpu_boot_maps(1) [of "(pb, (k_mach k)\<lparr>mem := m\<rparr>)"] cpu_boot_maps(3) [where s = "(pb1, s1)"]
      cpu_boot_maps(4) [where s = "(pb2, s2)"] 1 2 3 by (metis cpu_mem(1) snd_conv)
  then show ?thesis by (simp add: k' cpu_log)
qed

lemma cpu_pics: "cpu (init_pics s) = cpu s"
  by (simp add: init_pics_def cpu_simps)

lemma cpu_idt:
  "cpu (k_mach (start_idt lk k)) = (fst (cpu (k_mach k)) @ [Lidt 4095 (idtr_offs (k_idtr (start_idt lk k))), Cli, Sti],
     snd (cpu (k_mach k)))"
  by (simp add: start_idt_def set_idt_def case_prod_unfold Let_def cpu_log cpu_pics cpu_simps del: req_page.simps)

lemma events_wrmsr: "events (wrmsr r v s) = events s @ [Wrmsr r v]"
  by (simp add: wrmsr_def Let_def)

lemma cpu_syscall:
  "fst (cpu (set_syscall h s)) = fst (cpu s) @ [Wrmsr 0xc0000080 (rdmsr 0xc0000080 s OR 1), Wrmsr 0xc0000082 h,
     Wrmsr 0xc0000081 (star_value (rdmsr 0xc0000081 s)), Wrmsr 0xc0000084 (rdmsr 0xc0000084 s OR 0x200)]"
  by (simp add: set_syscall_def Let_def cpu_def events_wrmsr rdmsr_wrmsr_other)

lemma same_cpu_mach:
  "cpu s = cpu (k_mach k) \<Longrightarrow> same_cpu k (k\<lparr>k_mach := s\<rparr>)"
  "cpu s = cpu (k_mach k) \<Longrightarrow> same_cpu k (k\<lparr>k_pages := pb, k_mach := s\<rparr>)"
  by (simp_all add: same_cpu_def)

lemma nvme_same:
  assumes "start_nvme lk hw cntl k = Some k'"
  shows "same_cpu k k'"
proof -
  obtain pb s0 where 0: "map_pages (k_pml4 k) cntl cntl 3 (k_pages k, k_mach k) = (pb, s0)" by (metis surj_pair)
  from assms 0 obtain k1 s1 k2 k3 s3 where
    1: "say (tab @ ''Disabling NVMe Controller...'') (k\<lparr>k_pages := pb, k_mach := s0\<rparr>) = Some k1"
      "wait_csts hw cntl False (nvme_mmio_write_32 hw cntl NVME_CC_OFFSET 0 0 1 (k_mach k1)) = Some s1"
    and 2: "say (''Done!'' @ newline) (k1\<lparr>k_mach := s1\<rparr>) = Some k2"
      "say (tab @ ''Enabling NVMe Controller...'') (on_mach (nvme_configure lk hw (k_pml4 k2) cntl) k2) = Some k3"
    and 3: "wait_csts hw cntl True (nvme_mmio_write_32 hw cntl NVME_CC_OFFSET 0 1 1 (k_mach k3)) = Some s3"
      "say (''Done!'' @ newline) (k3\<lparr>k_mach := s3\<rparr>) = Some k'"
    by (auto simp: start_nvme_def Let_def bind_eq_Some_conv)
  have "cpu s0 = cpu (k_mach k)" using cpu_map_pages [of "k_pml4 k" cntl cntl 3 "(k_pages k, k_mach k)"] 0 by simp
  then have "same_cpu k k1" using same_cpu_trans [OF same_cpu_mach(2) say_same [OF 1(1)]] by blast
  also have "same_cpu k1 k2"
    using same_cpu_trans [OF same_cpu_mach(1) say_same [OF 2(1)]] cpu_wait [OF 1(2)] by (simp add: cpu_simps)
  also have "same_cpu k2 k3"
    using same_cpu_trans [OF same_cpu_mach(1) say_same [OF 2(2) [unfolded on_mach_def]]] by (simp add: cpu_simps)
  also have "same_cpu k3 k'"
    using same_cpu_trans [OF same_cpu_mach(1) say_same [OF 3(2)]] cpu_wait [OF 3(1)] by (simp add: cpu_simps)
  finally show ?thesis .
qed


lemma bootinfo_same: "same_cpu k (read_bootinfo bi k)"
  by (simp add: read_bootinfo_def same_cpu_def Let_def)

lemma timer_same: "start_timer hw k = Some k' \<Longrightarrow> same_cpu k k'"
  by (auto simp: start_timer_def dest: cpu_timer intro: same_cpu_mach)

lemma idt_pml4: "k_pml4 (start_idt lk k) = k_pml4 k"
  by (simp add: start_idt_def case_prod_unfold Let_def)

lemma core_cpu:
  assumes "start_core lk hw bi k = Some k'"
  shows "cpu (k_mach k') = (fst (cpu (k_mach k)) @ [Lgdt 4095 (lk_gdt lk), Write_cr3 (k_pml4 k'),
    Lidt 4095 (idtr_offs (k_idtr k')), Cli, Sti], snd (cpu (k_mach k)))"
proof -
  from assms obtain k1 k2 k3 k4 k5 k6 k7 k8 k9 where
    1: "say ''Loading GDT...'' (read_bootinfo bi k) = Some k1"
    and 2: "say (''Done!'' @ newline) (start_gdt lk k1) = Some k2" "say ''Setting Paging...'' k2 = Some k3"
    and 4: "start_paging lk k3 = Some k4"
    and 5: "say (''Done!'' @ newline) k4 = Some k5" "say ''Setting IDT...'' k5 = Some k6"
    and 7: "say (''Done!'' @ newline) (start_idt lk k6) = Some k7" "say ''Setting APIC Timer...'' k7 = Some k8"
      "start_timer hw k8 = Some k9" "say (''Done!'' @ newline) k9 = Some k'"
    by (auto simp: start_core_def bind_eq_Some_conv)
  have A: "same_cpu k k1" using same_cpu_trans [OF bootinfo_same say_same [OF 1]] .
  have B: "same_cpu (start_gdt lk k1) k3" using same_cpu_trans [OF say_same say_same] 2 by blast
  have C: "same_cpu k4 k6" using same_cpu_trans [OF say_same say_same] 5 by blast
  have "same_cpu (start_idt lk k6) k8" using same_cpu_trans [OF say_same say_same] 7(1,2) by blast
  also have "same_cpu k8 k'" using same_cpu_trans [OF timer_same say_same] 7(3,4) by blast
  finally have D: "same_cpu (start_idt lk k6) k'" .
  show ?thesis
    using A B C D cpu_gdt [of lk k1] cpu_paging [OF 4] cpu_idt [of lk k6] idt_pml4 [of lk k6]
    by (simp add: same_cpu_def)
qed

definition syscall_events :: "u64 \<Rightarrow> machine \<Rightarrow> event list" where
  "syscall_events h s = [Wrmsr 0xc0000080 (rdmsr 0xc0000080 s OR 1), Wrmsr 0xc0000082 h,
     Wrmsr 0xc0000081 (star_value (rdmsr 0xc0000081 s)), Wrmsr 0xc0000084 (rdmsr 0xc0000084 s OR 0x200)]"

lemma rdmsr_cpu: "snd (cpu s) = snd (cpu s') \<Longrightarrow> rdmsr r s = rdmsr r s'"
  by (simp add: rdmsr_def cpu_def)

lemma syscall_events_cpu: "snd (cpu s) = snd (cpu s') \<Longrightarrow> syscall_events h s = syscall_events h s'"
  using rdmsr_cpu [of s s'] by (simp add: syscall_events_def)

lemma disk_cpu:
  assumes "start_disk lk hw k = Some r"
  shows "case r of No_bootdisk k' \<Rightarrow> same_cpu k k'
    | Booted k' \<Rightarrow> fst (cpu (k_mach k')) = fst (cpu (k_mach k)) @ syscall_events (lk_syscall_handler lk) (k_mach k) \<and>
        k_pml4 k' = k_pml4 k \<and> k_idtr k' = k_idtr k"
proof -
  from assms obtain k1 where 1: "say (''Finding Bootdisk and Initialising NVMe...'' @ newline) k = Some k1"
    by (auto simp: start_disk_def bind_eq_Some_conv)
  obtain c s where r: "mmio_read32 hw (bootdisk_config_addr k1 + 8) (k_mach k1) = (c, s)" by (metis surj_pair)
  then have "cpu s = cpu (k_mach k1)" using cpu_io(6) by (metis snd_conv)
  then have A: "same_cpu k (k1\<lparr>k_mach := s\<rparr>)" using same_cpu_trans [OF say_same [OF 1] same_cpu_mach(1)] by blast
  show ?thesis
  proof (cases "is_nvme c")
    case False
    with assms 1 r obtain k2 where "say (tab @ ''Could not find bootdisk.'' @ newline) (k1\<lparr>k_mach := s\<rparr>) = Some k2"
      "r = No_bootdisk k2" by (auto simp: start_disk_def bind_eq_Some_conv)
    with same_cpu_trans [OF A say_same] show ?thesis by auto
  next
    case True
    with assms 1 r obtain k2 k3 k4 k5 k6 k7 where
      2: "say (tab @ ''Found Bootdisk.'' @ newline) (k1\<lparr>k_mach := s\<rparr>) = Some k2"
      "start_nvme lk hw (fst (bootdisk_cntl_addr hw (bootdisk_config_addr k1) (k_mach k2)))
         (k2\<lparr>k_mach := snd (bootdisk_cntl_addr hw (bootdisk_config_addr k1) (k_mach k2))\<rparr>) = Some k3"
      and 4: "say (''Done!'' @ newline) k3 = Some k4" "say ''Setting syscall...'' k4 = Some k5"
      and 6: "say (''Done!'' @ newline) (on_mach (set_syscall (lk_syscall_handler lk)) k5) = Some k6"
      "say (''Entering user mode...'' @ newline @ newline) k6 = Some k7" "r = Booted k7"
      by (auto simp: start_disk_def bind_eq_Some_conv case_prod_unfold Let_def)
    note A
    also have "same_cpu (k1\<lparr>k_mach := s\<rparr>) k2" by (rule say_same [OF 2(1)])
    also have "same_cpu k2 k3" using same_cpu_trans [OF same_cpu_mach(1) nvme_same [OF 2(2)]] by (simp add: cpu_simps)
    also have "same_cpu k3 k5" using same_cpu_trans [OF say_same say_same] 4 by blast
    finally have B: "same_cpu k k5" .
    have C: "same_cpu (on_mach (set_syscall (lk_syscall_handler lk)) k5) k7"
      using same_cpu_trans [OF say_same say_same] 6(1,2) by blast
    have "syscall_events (lk_syscall_handler lk) (k_mach k5) = syscall_events (lk_syscall_handler lk) (k_mach k)"
      using B by (intro syscall_events_cpu) (simp add: same_cpu_def)
    with B C show ?thesis
      by (simp add: 6(3) same_cpu_def on_mach_def cpu_syscall syscall_events_def)
  qed
qed

section \<open>When the boot ends\<close>

lemma expand_plain: "0 \<notin> set xs \<Longrightarrow> 37 \<notin> set xs \<Longrightarrow> expand (xs @ [0]) ap = Some xs"
  by (induction xs) auto

definition plain :: "string \<Rightarrow> bool" where
  "plain str \<longleftrightarrow> (\<forall>c\<in>set (map of_char str :: u8 list). c \<noteq> 0 \<and> c \<noteq> 37)"

definition put_text :: "string \<Rightarrow> kernel \<Rightarrow> kernel" where
  "put_text str k = (let (g, m) = fold kputc (map of_char str) (k_graphics k, mem (k_mach k))
     in k\<lparr>k_graphics := g, k_mach := (k_mach k)\<lparr>mem := m\<rparr>\<rparr>)"

lemma say_plain: "plain str \<Longrightarrow> say str k = Some (put_text str k)"
proof -
  assume "plain str"
  then have "expand (map of_char str @ [0]) [] = Some (map of_char str)"
    by (intro expand_plain) (auto simp: plain_def)
  then show ?thesis
    by (simp add: say_def kprintf_to_def kprintf_expand put_text_def case_prod_unfold Let_def)
qed

lemma put_text_simps [simp]:
  "k_mmap (put_text str k) = k_mmap k" "k_tables (put_text str k) = k_tables k"
  "k_bootdisk (put_text str k) = k_bootdisk k" "tick (k_mach (put_text str k)) = tick (k_mach k)"
  by (simp_all add: put_text_def case_prod_unfold Let_def)

lemma plain_texts:
  "plain ''Loading GDT...''" "plain (''Done!'' @ newline)" "plain ''Setting Paging...''" "plain ''Setting IDT...''"
  "plain ''Setting APIC Timer...''" "plain (''Finding Bootdisk and Initialising NVMe...'' @ newline)"
  "plain (tab @ ''Found Bootdisk.'' @ newline)" "plain (tab @ ''Could not find bootdisk.'' @ newline)"
  "plain (tab @ ''Disabling NVMe Controller...'')" "plain (tab @ ''Enabling NVMe Controller...'')"
  "plain ''Setting syscall...''" "plain (''Entering user mode...'' @ newline @ newline)"
  by code_simp+

text \<open>What is fixed before the timer, and what the timer reads.\<close>

definition responsive :: "hardware \<Rightarrow> bool" where
  "responsive hw \<longleftrightarrow> (\<forall>s cntl ready. \<exists>n. csts_ready (read_mem hw s n) cntl = ready)"

lemma wait_responsive: "responsive hw \<Longrightarrow> \<exists>s'. wait_csts hw cntl ready s = Some s'"
  by (auto simp: responsive_def controller_waits Let_def)

lemma tick_io [cpu_simps]:
  "tick (outb v p s) = tick s" "tick (snd (inb hw p s)) = Suc (tick s)" "tick (io_wait s) = tick s"
  "tick (mmio_write32 a w s) = tick s" "tick (snd (mmio_read32 hw a s)) = Suc (tick s)"
  by (simp_all add: outb_def inb_def io_wait_def mmio_write32_def mmio_read32_def Let_def)

lemma timer_tick: "acpi_set_apic_timer hw madt n s = Some s' \<Longrightarrow> tick s' = tick s + 4"
  by (auto simp: acpi_set_apic_timer_def case_prod_unfold Let_def wait_pit_once cpu_simps split: if_splits)

lemma timer_total: "acpi_set_apic_timer hw madt 100 s \<noteq> None"
  by (simp add: acpi_set_apic_timer_def case_prod_unfold Let_def)

lemmas say_texts = plain_texts [THEN say_plain]

lemma nvme_total: "responsive hw \<Longrightarrow> \<exists>k'. start_nvme lk hw cntl k = Some k'"
proof -
  assume r: "responsive hw"
  obtain pb s0 where 0: "map_pages (k_pml4 k) cntl cntl 3 (k_pages k, k_mach k) = (pb, s0)" by (metis surj_pair)
  let ?k1 = "put_text (tab @ ''Disabling NVMe Controller...'') (k\<lparr>k_pages := pb, k_mach := s0\<rparr>)"
  obtain s1 where 1: "wait_csts hw cntl False (nvme_mmio_write_32 hw cntl NVME_CC_OFFSET 0 0 1 (k_mach ?k1)) = Some s1"
    using wait_responsive [OF r] by blast
  let ?k2 = "put_text (''Done!'' @ newline) (?k1\<lparr>k_mach := s1\<rparr>)"
  let ?k3 = "put_text (tab @ ''Enabling NVMe Controller...'') (on_mach (nvme_configure lk hw (k_pml4 ?k2) cntl) ?k2)"
  obtain s3 where "wait_csts hw cntl True (nvme_mmio_write_32 hw cntl NVME_CC_OFFSET 0 1 1 (k_mach ?k3)) = Some s3"
    using wait_responsive [OF r] by blast
  then show ?thesis by (simp only: start_nvme_def Let_def 0 1 say_texts bind.bind_lunit prod.case) blast
qed

text \<open>The state before the timer does not depend on the hardware.\<close>

lemma paging_total:
  assumes "mm_desc_size (k_mmap k) \<noteq> 0"
  shows "\<exists>k'. start_paging lk k = Some k' \<and> k_bootdisk k' = k_bootdisk k"
proof -
  obtain tot pb m where "boot_bitmap (mm_map (k_mmap k)) (mm_size (k_mmap k)) (mm_desc_size (k_mmap k))
      (lk_kernel_start lk) (lk_kernel_end lk) (k_pages k, mem (k_mach k)) = Some (tot, pb, m)"
    using assms by (simp add: boot_bitmap_def Let_def) (metis surj_pair)
  then show ?thesis by (simp add: start_paging_def Let_def case_prod_unfold)
qed

lemma gdt_idt_fields:
  "k_mmap (start_gdt lk k) = k_mmap k" "k_bootdisk (start_gdt lk k) = k_bootdisk k"
  "k_bootdisk (start_idt lk k) = k_bootdisk k"
  by (simp_all add: start_gdt_def start_idt_def case_prod_unfold Let_def)

lemma bootinfo_desc_size: "mm_desc_size (k_mmap (read_bootinfo bi k)) = load64 (mem (k_mach k)) (bi + 44)"
  by (simp add: read_bootinfo_def Let_def load_bootinfo_def load_mem_map_def add.assoc)

lemma before_timer:
  assumes "load64 (mem (k_mach k)) (bi + 44) \<noteq> 0"
  shows "\<exists>k1. \<forall>hw. start_core lk hw bi k = Option.bind (start_timer hw k1) (\<lambda>k. Some (put_text (''Done!'' @ newline) k))"
proof -
  let ?k2 = "put_text ''Setting Paging...'' (put_text (''Done!'' @ newline)
    (start_gdt lk (put_text ''Loading GDT...'' (read_bootinfo bi k))))"
  have "mm_desc_size (k_mmap ?k2) \<noteq> 0"
    using assms by (simp add: gdt_idt_fields bootinfo_desc_size)
  then obtain k3 where 3: "start_paging lk ?k2 = Some k3" using paging_total by blast
  let ?k4 = "put_text ''Setting APIC Timer...'' (put_text (''Done!'' @ newline)
    (start_idt lk (put_text ''Setting IDT...'' (put_text (''Done!'' @ newline) k3))))"
  have "start_core lk hw bi k = Option.bind (start_timer hw ?k4) (\<lambda>k. Some (put_text (''Done!'' @ newline) k))" for hw
    by (simp only: start_core_def say_texts bind.bind_lunit 3)
  then show ?thesis by blast
qed

lemma core_total:
  assumes "load64 (mem (k_mach k)) (bi + 44) \<noteq> 0"
  shows "\<exists>k'. start_core lk hw bi k = Some k'"
proof -
  obtain k1 where "start_core lk hw bi k = Option.bind (start_timer hw k1) (\<lambda>k. Some (put_text (''Done!'' @ newline) k))"
    using before_timer [OF assms, of lk] by blast
  then show ?thesis
    using timer_total [of hw "t_madt (k_tables k1)" "k_mach k1"] by (auto simp: start_timer_def)
qed

text \<open>The disk phase, in the two cases of the class code.\<close>

definition class_read :: "hardware \<Rightarrow> kernel \<Rightarrow> u32" where
  "class_read hw k = (let k1 = put_text (''Finding Bootdisk and Initialising NVMe...'' @ newline) k
     in fst (mmio_read32 hw (bootdisk_config_addr k1 + 8) (k_mach k1)))"

lemma disk_total:
  "is_nvme (class_read hw k) \<Longrightarrow> responsive hw \<Longrightarrow> \<exists>k'. start_disk lk hw k = Some (Booted k')"
  "\<not> is_nvme (class_read hw k) \<Longrightarrow> \<exists>k'. start_disk lk hw k = Some (No_bootdisk k')"
proof -
  let ?k1 = "put_text (''Finding Bootdisk and Initialising NVMe...'' @ newline) k"
  obtain c s where r: "mmio_read32 hw (bootdisk_config_addr ?k1 + 8) (k_mach ?k1) = (c, s)" by (metis surj_pair)
  then have c: "class_read hw k = c" by (simp add: class_read_def Let_def)
  { assume n: "is_nvme (class_read hw k)" and h: "responsive hw"
    let ?k2 = "put_text (tab @ ''Found Bootdisk.'' @ newline) (?k1\<lparr>k_mach := s\<rparr>)"
    obtain cntl s2 where 2: "bootdisk_cntl_addr hw (bootdisk_config_addr ?k1) (k_mach ?k2) = (cntl, s2)" by (metis surj_pair)
    obtain k3 where "start_nvme lk hw cntl (?k2\<lparr>k_mach := s2\<rparr>) = Some k3" using nvme_total [OF h] by blast
    with r 2 n c show "\<exists>k'. start_disk lk hw k = Some (Booted k')"
      by (simp add: start_disk_def Let_def say_texts del: append.simps) }
  { assume n: "\<not> is_nvme (class_read hw k)"
    with r c show "\<exists>k'. start_disk lk hw k = Some (No_bootdisk k')"
      by (simp add: start_disk_def Let_def say_texts del: append.simps) }
qed

lemma read_mem_hw: "read_mem hw s n = hw_mem hw (tick s + n) (if n = 0 then mem s else read_mem hw s (n - 1))"
  by (cases n) simp_all

text \<open>The two top bytes of a 32-bit load.\<close>

lemma high_bytes: "drop_bit 24 (load32 m a) = ucast (m (a + 3))" "drop_bit 16 (load32 m a) AND 0xff = ucast (m (a + 2))"
proof -
  have e: "0xff = (mask 8 :: u32)" by (simp add: mask_eq_exp_minus_1)
  have "bit (drop_bit 24 (load32 m a)) i = bit (ucast (m (a + 3)) :: u32) i \<and>
    bit (drop_bit 16 (load32 m a) AND 0xff) i = bit (ucast (m (a + 2)) :: u32) i" for i
  proof (cases "i < 8")
    case True
    then have "(16 + i) div 8 = 2" "(16 + i) mod 8 = i" "(24 + i) div 8 = 3" "(24 + i) mod 8 = i" by presburger+
    with True show ?thesis
      by (simp add: e bit_and_iff bit_mask_iff bit_drop_bit_eq bit_load_le bit_ucast_iff)
  next
    case False
    then show ?thesis
      using bit_imp_le_length [of "m (a + 2)" i] bit_imp_le_length [of "m (a + 3)" i] bit_imp_le_length [of "load32 m a" "24 + i"]
      by (auto simp: e bit_and_iff bit_mask_iff bit_ucast_iff bit_drop_bit_eq)
  qed
  then show "drop_bit 24 (load32 m a) = ucast (m (a + 3))" "drop_bit 16 (load32 m a) AND 0xff = ucast (m (a + 2))"
    by (auto intro: bit_word_eqI)
qed

text \<open>A device whose memory changes with every read, but for the read \<open>N\<close>, which sees the class
  code of an NVMe controller.\<close>

definition toggling :: "nat \<Rightarrow> (mem \<Rightarrow> u64) \<Rightarrow> hardware" where
  "toggling N c = \<lparr>hw_mem = (\<lambda>n m. if n = N then m(c m + 2 := 8, c m + 3 := 1) else (\<lambda>a. of_bool (odd n))),
     hw_port = (\<lambda>_ _. 0)\<rparr>"

lemma odd_load: "0 < k \<Longrightarrow> odd (load_le k m a :: 'a::len word) = odd (m a)"
  using bit_load_le [where 'a = 'a, of k m a 0] by (simp add: bit_0)

lemma toggling_responsive: "responsive (toggling N c)"
proof (unfold responsive_def, intro allI)
  fix s :: machine and cntl ready
  have r: "csts_ready (read_mem (toggling N c) s n) cntl = odd (tick s + n)" if "N < tick s + n" for n
    using that by (subst read_mem_hw) (simp add: toggling_def csts_ready_def odd_load bit_0)
  have "odd (tick s + (N + 1)) = ready \<or> odd (tick s + (N + 2)) = ready" by auto
  moreover have "N < tick s + (N + 1)" "N < tick s + (N + 2)" by simp_all
  ultimately show "\<exists>n. csts_ready (read_mem (toggling N c) s n) cntl = ready" using r by metis
qed

lemma boot_reachable:
  assumes "load64 (mem (k_mach k)) (bi + 44) \<noteq> 0"
  shows "\<exists>hw k'. start lk hw bi k = Some (Booted k')"
proof -
  obtain k1 where 1: "\<And>hw. start_core lk hw bi k = Option.bind (start_timer hw k1) (\<lambda>k. Some (put_text (''Done!'' @ newline) k))"
    using before_timer [OF assms] by blast
  define c where "c = (\<lambda>m. bootdisk_config_addr (k1\<lparr>k_mach := (k_mach k1)\<lparr>mem := m\<rparr>\<rparr>) + 8)"
  let ?hw = "toggling (tick (k_mach k1) + 4) c"
  obtain s2 where 2: "acpi_set_apic_timer ?hw (t_madt (k_tables k1)) 100 (k_mach k1) = Some s2"
    using timer_total by blast
  let ?k2 = "put_text (''Done!'' @ newline) (k1\<lparr>k_mach := s2\<rparr>)"
  let ?k3 = "put_text (''Finding Bootdisk and Initialising NVMe...'' @ newline) ?k2"
  have t: "tick (k_mach ?k3) = tick (k_mach k1) + 4" using timer_tick [OF 2] by simp
  have a: "bootdisk_config_addr ?k3 + 8 = c (mem (k_mach ?k3))"
    by (simp add: c_def bootdisk_config_addr_def Let_def)
  have "class_read ?hw ?k2 = load32 (hw_mem ?hw (tick (k_mach ?k3)) (mem (k_mach ?k3))) (c (mem (k_mach ?k3)))"
    by (simp only: class_read_def Let_def mmio_read32_def a fst_conv)
  moreover have "is_nvme (load32 (hw_mem ?hw (tick (k_mach ?k3)) m) (c m))" for m
    unfolding t by (simp add: toggling_def is_nvme_def high_bytes)
  ultimately have "is_nvme (class_read ?hw ?k2)" by simp
  then obtain k' where "start_disk lk ?hw ?k2 = Some (Booted k')"
    using disk_total(1) [OF _ toggling_responsive] by blast
  then have "start lk ?hw bi k = Some (Booted k')"
    by (simp only: start_def 1 start_timer_def 2 option.map bind.bind_lunit)
  then show ?thesis by blast
qed

section \<open>Properties of _start\<close>

text \<open>C1: However the boot ends, the processor was set up in one order: the segments first, then
  the page tables \<open>_start\<close> built, then the interrupt table, and interrupts are enabled by the
  last step of that, before the timer, the disk or the system call registers. Where the disk was
  found, exactly the four system call registers are written after that; where it was not, none.\<close>

theorem boot_order:
  assumes "start lk hw bi k = Some r"
  shows "case r of
      No_bootdisk k' \<Rightarrow> filter cpu_event (events (k_mach k')) = filter cpu_event (events (k_mach k)) @
        [Lgdt 4095 (lk_gdt lk), Write_cr3 (k_pml4 k'), Lidt 4095 (idtr_offs (k_idtr k')), Cli, Sti]
    | Booted k' \<Rightarrow> filter cpu_event (events (k_mach k')) = filter cpu_event (events (k_mach k)) @
        [Lgdt 4095 (lk_gdt lk), Write_cr3 (k_pml4 k'), Lidt 4095 (idtr_offs (k_idtr k')), Cli, Sti] @
        [Wrmsr 0xc0000080 (rdmsr 0xc0000080 (k_mach k) OR 1), Wrmsr 0xc0000082 (lk_syscall_handler lk),
         Wrmsr 0xc0000081 (star_value (rdmsr 0xc0000081 (k_mach k))),
         Wrmsr 0xc0000084 (rdmsr 0xc0000084 (k_mach k) OR 0x200)]"
proof -
  obtain k1 where c: "start_core lk hw bi k = Some k1" and d: "start_disk lk hw k1 = Some r"
    using assms by (auto simp: start_def bind_eq_Some_conv)
  note C = core_cpu [OF c]
  have "syscall_events (lk_syscall_handler lk) (k_mach k1) = syscall_events (lk_syscall_handler lk) (k_mach k)"
    using C by (intro syscall_events_cpu) simp
  then show ?thesis
    using disk_cpu [OF d] C
    by (cases r) (auto simp: same_cpu_def syscall_events_def cpu_def)
qed


text \<open>The kernel with a memory of ones, in which every field of the boot information is nonzero.\<close>

definition ex_linked :: linked where
  "ex_linked = \<lparr>lk_kernel_start = 0x100000, lk_kernel_end = 0x140000, lk_gdt = 0x120000,
     lk_isrs = \<lparr>isr_timer = 0, isr_keyboard = 0, isr_spurious_irq = 0, isr_int_2b = 0, isr_pf = 0, isr_df = 0, isr_gp = 0\<rparr>,
     lk_asq = 0x130000, lk_acq = 0x131000, lk_syscall_handler = 0x101000, lk_bitfield = Declared_width\<rparr>"

definition ex_kernel :: kernel where
  "ex_kernel = \<lparr>k_graphics = ex_graphics, k_mmap = \<lparr>mm_map = 0, mm_size = 0, mm_desc_size = 0\<rparr>, k_xsdt = 0,
     k_tables = \<lparr>t_madt = 0, t_apic_base = 0, t_mcfg = 0\<rparr>, k_pml4 = 0,
     k_bootdisk = \<lparr>bd_seg = 0, bd_bus = 0, bd_dev = 0, bd_func = 0\<rparr>, k_pages = ex_pb, k_sel = \<lparr>sel_cs = 0, sel_data = 0\<rparr>,
     k_idt = ex_idt, k_idtr = \<lparr>idtr_size = 0, idtr_offs = 0\<rparr>,
     k_mach = \<lparr>mem = (\<lambda>_. 1), msrs = (\<lambda>_. (0, 0)), tick = 0, events = []\<rparr>\<rparr>"

lemma ex_desc_size: "load64 (mem (k_mach ex_kernel)) (0x7000 + 44) \<noteq> 0"
proof -
  have "odd (load64 (mem (k_mach ex_kernel)) (0x7000 + 44))" by (simp add: odd_load ex_kernel_def)
  then show ?thesis by force
qed

theorem boot_order_witness:
  "\<exists>hw k'. start ex_linked hw 0x7000 ex_kernel = Some (Booted k') \<and>
     filter cpu_event (events (k_mach k')) =
       [Lgdt 4095 0x120000, Write_cr3 (k_pml4 k'), Lidt 4095 (idtr_offs (k_idtr k')), Cli, Sti,
        Wrmsr 0xc0000080 1, Wrmsr 0xc0000082 0x101000, Wrmsr 0xc0000081 0x0018000800000000, Wrmsr 0xc0000084 0x200]"
proof -
  obtain hw k' where s: "start ex_linked hw 0x7000 ex_kernel = Some (Booted k')"
    using boot_reachable [OF ex_desc_size] by blast
  have "rdmsr r (k_mach ex_kernel) = 0" for r by (simp add: rdmsr_def ex_kernel_def)
  moreover have "star_value 0 = 0x0018000800000000" by code_simp
  moreover have "lk_gdt ex_linked = 0x120000" "lk_syscall_handler ex_linked = 0x101000" "events (k_mach ex_kernel) = []"
    by (simp_all add: ex_linked_def ex_kernel_def)
  ultimately show ?thesis
    using s boot_order [OF s] by auto
qed

text \<open>With a controller whose ready bit always changes again, \<open>_start\<close> reaches one of its
  two final loops exactly if the descriptor size in the boot information is not zero, by which
  it divides.\<close>

lemma boot_ends:
  assumes "responsive hw"
  shows "(\<exists>r. start lk hw bi k = Some r) \<longleftrightarrow> load64 (mem (k_mach k)) (bi + 44) \<noteq> 0"
proof (cases "load64 (mem (k_mach k)) (bi + 44) = 0")
  case True
  then have "start_core lk hw bi k = None"
    by (simp add: start_core_def say_texts start_paging_def Let_def boot_bitmap_def gdt_idt_fields bootinfo_desc_size
        del: append.simps)
  with True show ?thesis by (simp add: start_def)
next
  case False
  then obtain k1 where "start_core lk hw bi k = Some k1" using core_total by blast
  with disk_total [of hw k1] assms False show ?thesis by (cases "is_nvme (class_read hw k1)") (auto simp: start_def)
qed

end
