(* ===== verification/Interrupts.thy ===== *)
theory Interrupts
  imports Kernel_Props
begin

text \<open>
  \<open>_start\<close> with the interrupts that arrive while it runs. The function is written out as a program of
  its steps, one per call, device access or turn of a waiting loop; between any two of them an
  enabled interrupt may run its handler. The steps depend on the log of the machine in
  no way, and a handler only adds to the log, so every interrupted run does what the
  uninterrupted one does.
\<close>

section \<open>Programs of steps\<close>

datatype prog =
    End bool
  | Op "kernel \<Rightarrow> kernel option" prog
  | Read "kernel \<Rightarrow> u64 \<times> kernel" "u64 \<Rightarrow> prog"
  | Until "kernel \<Rightarrow> bool \<times> kernel" prog

partial_function (option) until :: "(kernel \<Rightarrow> bool \<times> kernel) \<Rightarrow> kernel \<Rightarrow> kernel option" where
  [code]: "until c k = (let (b, k) = c k in if b then Some k else until c k)"

primrec exec :: "prog \<Rightarrow> kernel \<Rightarrow> (bool \<times> kernel) option" where
  "exec (End b) k = Some (b, k)"
| "exec (Op f p) k = Option.bind (f k) (exec p)"
| "exec (Read r q) k = (let (v, k) = r k in exec (q v) k)"
| "exec (Until c p) k = Option.bind (until c k) (exec p)"

text \<open>One step without an interrupt.\<close>

inductive step :: "prog \<times> kernel \<Rightarrow> prog \<times> kernel \<Rightarrow> bool" where
  op: "f k = Some k' \<Longrightarrow> step (Op f p, k) (p, k')"
| read: "r k = (v, k') \<Longrightarrow> step (Read r q, k) (q v, k')"
| leave: "c k = (True, k') \<Longrightarrow> step (Until c p, k) (p, k')"
| again: "c k = (False, k') \<Longrightarrow> step (Until c p, k) (Until c p, k')"

inductive_cases step_EndE: "step (End b, k) pk"
inductive_cases step_OpE: "step (Op f p, k) pk"
inductive_cases step_ReadE: "step (Read r q, k) pk"
inductive_cases step_UntilE: "step (Until c p, k) pk"

text \<open>Interrupts are on when the last of \<open>cli\<close> and \<open>sti\<close> was \<open>sti\<close>.\<close>

definition interrupts_on :: "machine \<Rightarrow> bool" where
  "interrupts_on s \<longleftrightarrow> (let es = filter (\<lambda>e. e = Cli \<or> e = Sti) (events s) in es \<noteq> [] \<and> last es = Sti)"

inductive interrupted_step :: "prog \<times> kernel \<Rightarrow> prog \<times> kernel \<Rightarrow> bool" where
  program: "step pk pk' \<Longrightarrow> interrupted_step pk pk'"
| interrupt: "interrupts_on (k_mach k) \<Longrightarrow> interrupted_step (p, k) (p, on_mach irq_handler k)"

section \<open>_start as a program\<close>

abbreviation Say :: "string \<Rightarrow> prog \<Rightarrow> prog" where "Say str \<equiv> Op (say str)"

definition wait_turn :: "hardware \<Rightarrow> u64 \<Rightarrow> bool \<Rightarrow> kernel \<Rightarrow> bool \<times> kernel" where
  "wait_turn hw cntl ready k =
     (let (v, s) = nvme_mmio_read_32 hw cntl NVME_CSTS_OFFSET 0 1 (k_mach k) in ((v \<noteq> 0) = ready, k\<lparr>k_mach := s\<rparr>))"

definition do_mach :: "(machine \<Rightarrow> machine) \<Rightarrow> kernel \<Rightarrow> kernel option" where
  "do_mach f k = Some (on_mach f k)"

definition nvme_prog :: "linked \<Rightarrow> hardware \<Rightarrow> u64 \<Rightarrow> prog \<Rightarrow> prog" where
  "nvme_prog lk hw cntl p =
     Op (\<lambda>k. let (pb, s) = map_pages (k_pml4 k) cntl cntl 3 (k_pages k, k_mach k) in Some (k\<lparr>k_pages := pb, k_mach := s\<rparr>))
     (Say (tab @ ''Disabling NVMe Controller...'')
     (Op (do_mach (nvme_mmio_write_32 hw cntl NVME_CC_OFFSET 0 0 1))
     (Until (wait_turn hw cntl False)
     (Say (''Done!'' @ newline)
     (Op (do_mach (nvme_set_aqa hw cntl))
     (Op (\<lambda>k. do_mach (nvme_set_queues lk hw (k_pml4 k) cntl) k)
     (Op (do_mach (nvme_set_cc hw cntl))
     (Say (tab @ ''Enabling NVMe Controller...'')
     (Op (do_mach (nvme_mmio_write_32 hw cntl NVME_CC_OFFSET 0 1 1))
     (Until (wait_turn hw cntl True)
     (Say (''Done!'' @ newline) p)))))))))))"

definition disk_prog :: "linked \<Rightarrow> hardware \<Rightarrow> prog" where
  "disk_prog lk hw =
     Say (''Finding Bootdisk and Initialising NVMe...'' @ newline)
     (Read (\<lambda>k. (bootdisk_config_addr k, k)) (\<lambda>config.
      Read (\<lambda>k. let (c, s) = mmio_read32 hw (config + 0x08) (k_mach k) in (ucast c, k\<lparr>k_mach := s\<rparr>)) (\<lambda>class_code.
       if is_nvme (ucast class_code)
       then Say (tab @ ''Found Bootdisk.'' @ newline)
         (Read (\<lambda>k. let (cntl, s) = bootdisk_cntl_addr hw config (k_mach k) in (cntl, k\<lparr>k_mach := s\<rparr>))
         (\<lambda>cntl. nvme_prog lk hw cntl
         (Say (''Done!'' @ newline)
         (Say ''Setting syscall...''
         (Op (do_mach (set_syscall (lk_syscall_handler lk)))
         (Say (''Done!'' @ newline)
         (Say (''Entering user mode...'' @ newline @ newline)
         (End True))))))))
       else Say (tab @ ''Could not find bootdisk.'' @ newline) (End False))))"

definition boot_prog :: "linked \<Rightarrow> hardware \<Rightarrow> u64 \<Rightarrow> prog" where
  "boot_prog lk hw BootInfo =
     Op (\<lambda>k. Some (read_bootinfo BootInfo k))
     (Say ''Loading GDT...''
     (Op (\<lambda>k. Some (start_gdt lk k))
     (Say (''Done!'' @ newline)
     (Say ''Setting Paging...''
     (Op (start_paging lk)
     (Say (''Done!'' @ newline)
     (Say ''Setting IDT...''
     (Op (\<lambda>k. Some (start_idt lk k))
     (Say (''Done!'' @ newline)
     (Say ''Setting APIC Timer...''
     (Op (start_timer hw)
     (Say (''Done!'' @ newline)
     (disk_prog lk hw)))))))))))))"

section \<open>Its steps are those of the function\<close>

lemma wait_turn_apply: "wait_turn hw cntl ready k =
   (let r = nvme_mmio_read_32 hw cntl NVME_CSTS_OFFSET 0 1 (k_mach k) in ((fst r \<noteq> 0) = ready, k\<lparr>k_mach := snd r\<rparr>))"
  by (simp add: wait_turn_def case_prod_unfold)

lemma until_of_wait:
  "wait_csts hw cntl ready s = Some s' \<Longrightarrow> \<forall>k. s = k_mach k \<longrightarrow> until (wait_turn hw cntl ready) k = Some (k\<lparr>k_mach := s'\<rparr>)"
proof (induction hw cntl ready s s' rule: wait_csts.raw_induct [rotated, consumes 1])
  case (1 w hw cntl ready s s')
  let ?r = "nvme_mmio_read_32 hw cntl NVME_CSTS_OFFSET 0 1 s"
  have *: "(if (fst ?r \<noteq> 0) = ready then Some (snd ?r) else w hw cntl ready (snd ?r)) = Some s'"
    using 1(2) by (simp only: case_prod_unfold Let_def)
  show ?case
  proof (intro allI impI)
    fix k :: kernel
    assume k: "s = k_mach k"
    show "until (wait_turn hw cntl ready) k = Some (k\<lparr>k_mach := s'\<rparr>)"
    proof (cases "(fst ?r \<noteq> 0) = ready")
      case True
      with * k show ?thesis by (subst until.simps) (simp add: wait_turn_apply Let_def)
    next
      case False
      with * have "w hw cntl ready (snd ?r) = Some s'" by simp
      with 1(1) have "until (wait_turn hw cntl ready) (k\<lparr>k_mach := snd ?r\<rparr>) = Some (k\<lparr>k_mach := s'\<rparr>)" by fastforce
      with False k show ?thesis by (subst until.simps) (simp add: wait_turn_apply Let_def)
    qed
  qed
qed

lemma wait_of_until:
  "until c k = Some k' \<Longrightarrow> c = wait_turn hw cntl ready \<longrightarrow> wait_csts hw cntl ready (k_mach k) \<noteq> None"
proof (induction c k k' rule: until.raw_induct [rotated, consumes 1])
  case (1 u c k k')
  then show ?case
    by (subst wait_csts.simps) (fastforce simp: wait_turn_apply case_prod_unfold Let_def split: if_splits)
qed

lemma until_wait:
  "until (wait_turn hw cntl ready) k = map_option (\<lambda>s. k\<lparr>k_mach := s\<rparr>) (wait_csts hw cntl ready (k_mach k))"
proof (cases "wait_csts hw cntl ready (k_mach k)")
  case None
  then show ?thesis using wait_of_until [of "wait_turn hw cntl ready" k] by (cases "until (wait_turn hw cntl ready) k") auto
next
  case (Some s)
  then show ?thesis using until_of_wait by fastforce
qed

lemma exec_fun:
  "exec (End b) = (\<lambda>k. Some (b, k))" "exec (Op f p) = (\<lambda>k. Option.bind (f k) (exec p))"
  "exec (Read r q) = (\<lambda>k. exec (q (fst (r k))) (snd (r k)))"
  "exec (Until c p) = (\<lambda>k. Option.bind (until c k) (exec p))"
  by (simp_all add: fun_eq_iff case_prod_unfold Let_def)

lemma exec_nvme_prog: "exec (nvme_prog lk hw cntl p) k = Option.bind (start_nvme lk hw cntl k) (exec p)"
  by (simp add: nvme_prog_def start_nvme_def exec_fun until_wait do_mach_def on_mach_def nvme_configure_def case_prod_unfold Let_def
      bind_map_option comp_def)

definition boot_result :: "boot_end \<Rightarrow> bool \<times> kernel" where
  "boot_result r = (case r of Booted k \<Rightarrow> (True, k) | No_bootdisk k \<Rightarrow> (False, k))"

lemma exec_nvme_fun: "exec (nvme_prog lk hw cntl p) = (\<lambda>k. Option.bind (start_nvme lk hw cntl k) (exec p))"
  by (rule ext) (rule exec_nvme_prog)

lemma ucast_ucast_32_64: "ucast (ucast (w :: u32) :: u64) = w"
  by (rule bit_word_eqI) (simp add: bit_ucast_iff)

lemma exec_disk_prog: "exec (disk_prog lk hw) = (\<lambda>k. map_option boot_result (start_disk lk hw k))"
  by (rule ext) (auto simp: disk_prog_def start_disk_def exec_fun exec_nvme_fun do_mach_def on_mach_def case_prod_unfold Let_def
      map_option_bind comp_def boot_result_def if_distrib [of exec] if_distrib [of "map_option boot_result"] if_distribR
      ucast_ucast_32_64 intro!: Option.bind_cong)

lemma exec_boot_prog:
  "exec (boot_prog lk hw bi) k = map_option boot_result (start lk hw bi k)"
  by (simp add: boot_prog_def start_def start_core_def exec_fun exec_disk_prog map_option_bind comp_def)

section \<open>Nothing reads the log\<close>

text \<open>The machine with \<open>ev\<close> before its log, and the same for what holds a machine.\<close>

definition prepend :: "event list \<Rightarrow> machine \<Rightarrow> machine" where
  "prepend ev s = s\<lparr>events := ev @ events s\<rparr>"

abbreviation prepend_k :: "event list \<Rightarrow> kernel \<Rightarrow> kernel" where "prepend_k ev \<equiv> on_mach (prepend ev)"

lemma prepend_simps [simp]:
  "mem (prepend ev s) = mem s" "tick (prepend ev s) = tick s" "msrs (prepend ev s) = msrs s"
  "events (prepend ev s) = ev @ events s"
  "(prepend ev s)\<lparr>mem := m\<rparr> = prepend ev (s\<lparr>mem := m\<rparr>)" "(prepend ev s)\<lparr>tick := t\<rparr> = prepend ev (s\<lparr>tick := t\<rparr>)"
  "(prepend ev s)\<lparr>msrs := r\<rparr> = prepend ev (s\<lparr>msrs := r\<rparr>)"
  "log_event e (prepend ev s) = prepend ev (log_event e s)"
  by (simp_all add: prepend_def log_event_def)

named_theorems log_simps "operations on the machine with a longer log"

lemma log_io [log_simps]:
  "outb v p (prepend ev s) = prepend ev (outb v p s)" "inb hw p (prepend ev s) = apsnd (prepend ev) (inb hw p s)"
  "io_wait (prepend ev s) = prepend ev (io_wait s)" "invlpg a (prepend ev s) = prepend ev (invlpg a s)"
  "mmio_write32 a w (prepend ev s) = prepend ev (mmio_write32 a w s)"
  "mmio_read32 hw a (prepend ev s) = apsnd (prepend ev) (mmio_read32 hw a s)"
  "wrmsr r x (prepend ev s) = prepend ev (wrmsr r x s)" "rdmsr r (prepend ev s) = rdmsr r s"
  by (simp_all add: outb_def inb_def io_wait_def invlpg_def mmio_write32_def mmio_read32_def wrmsr_def rdmsr_def Let_def)

lemma log_nvme [log_simps]:
  "nvme_mmio_write_32 hw a o1 o2 v sz (prepend ev s) = prepend ev (nvme_mmio_write_32 hw a o1 o2 v sz s)"
  "nvme_mmio_write_64 hw a o1 o2 w sz (prepend ev s) = prepend ev (nvme_mmio_write_64 hw a o1 o2 w sz s)"
  "nvme_mmio_read_32 hw a o1 o2 sz (prepend ev s) = apsnd (prepend ev) (nvme_mmio_read_32 hw a o1 o2 sz s)"
  by (simp_all add: nvme_mmio_write_32_def nvme_mmio_write_64_def nvme_mmio_read_32_def case_prod_unfold Let_def log_simps)

lemma log_configure [log_simps]:
  "nvme_set_aqa hw a (prepend ev s) = prepend ev (nvme_set_aqa hw a s)"
  "nvme_set_queues lk hw pml4 a (prepend ev s) = prepend ev (nvme_set_queues lk hw pml4 a s)"
  "nvme_set_cc hw a (prepend ev s) = prepend ev (nvme_set_cc hw a s)"
  "set_syscall h (prepend ev s) = prepend ev (set_syscall h s)"
  by (simp_all add: nvme_set_aqa_def nvme_set_queues_def nvme_set_cc_def set_syscall_def Let_def log_simps)

lemma log_map_page [log_simps]:
  "map_page pml4 va pa (apsnd (prepend ev) s) = apsnd (prepend ev) (map_page pml4 va pa s)"
  by (simp add: map_page_def case_prod_unfold Let_def log_simps)

lemma log_map_pages [log_simps]:
  "map_pages pml4 va pa n (apsnd (prepend ev) s) = apsnd (prepend ev) (map_pages pml4 va pa n s)"
  by (induction n) (simp_all add: log_simps)

lemma log_framebuffer [log_simps]:
  "lock_framebuffer g (apsnd (prepend ev) s) = apsnd (prepend ev) (lock_framebuffer g s)"
  by (simp add: lock_framebuffer_def case_prod_unfold Let_def)

lemma log_boot_maps [log_simps]:
  "init_pml4 (apsnd (prepend ev) s) = apsnd (apsnd (prepend ev)) (init_pml4 s)"
  "map_memory pml4 tot g ks kp (apsnd (prepend ev) s) = apsnd (prepend ev) (map_memory pml4 tot g ks kp s)"
  "map_acpi pml4 xsdt (apsnd (prepend ev) s) = apsnd (apsnd (prepend ev)) (map_acpi pml4 xsdt s)"
  by (simp_all add: init_pml4_def map_memory_def map_acpi_def case_prod_unfold Let_def log_simps del: req_page.simps)

lemmas log_pairs = log_map_pages [where s = "(pb, s)" for pb s, simplified]
  log_boot_maps [where s = "(pb, s)" for pb s, simplified]

lemma log_timer [log_simps]:
  "acpi_set_apic_timer hw madt n (prepend ev s) = map_option (prepend ev) (acpi_set_apic_timer hw madt n s)"
  by (simp add: acpi_set_apic_timer_def case_prod_unfold Let_def wait_pit_once log_simps)

lemma log_cntl [log_simps]:
  "read_words hw a n (apsnd (prepend ev) rs) = apsnd (prepend ev) (read_words hw a n rs)"
  "bootdisk_cntl_addr hw a (prepend ev s) = apsnd (prepend ev) (bootdisk_cntl_addr hw a s)"
proof -
  show *: "read_words hw a n (apsnd (prepend ev) rs) = apsnd (prepend ev) (read_words hw a n rs)" for n rs
    by (induction n) (simp_all add: case_prod_unfold Let_def log_simps)
  show "bootdisk_cntl_addr hw a (prepend ev s) = apsnd (prepend ev) (bootdisk_cntl_addr hw a s)"
    using * [of _ "(\<lambda>_. 0, s)"] by (simp add: bootdisk_cntl_addr_def case_prod_unfold Let_def)
qed

lemma log_pics [log_simps]: "init_pics (prepend ev s) = prepend ev (init_pics s)"
  by (simp add: init_pics_def log_simps)

lemma prepend_k_simps [simp]:
  "k_graphics (prepend_k ev k) = k_graphics k" "k_mmap (prepend_k ev k) = k_mmap k" "k_xsdt (prepend_k ev k) = k_xsdt k"
  "k_tables (prepend_k ev k) = k_tables k" "k_pml4 (prepend_k ev k) = k_pml4 k" "k_bootdisk (prepend_k ev k) = k_bootdisk k"
  "k_pages (prepend_k ev k) = k_pages k" "k_sel (prepend_k ev k) = k_sel k" "k_idt (prepend_k ev k) = k_idt k"
  "k_mach (prepend_k ev k) = prepend ev (k_mach k)"
  by (simp_all add: on_mach_def)

text \<open>A step whose result has the longer log in turn, and a program of such steps.\<close>

definition op_blind :: "(kernel \<Rightarrow> kernel option) \<Rightarrow> bool" where
  "op_blind f \<longleftrightarrow> (\<forall>ev k. f (prepend_k ev k) = map_option (prepend_k ev) (f k))"

definition read_blind :: "(kernel \<Rightarrow> 'a \<times> kernel) \<Rightarrow> bool" where
  "read_blind r \<longleftrightarrow> (\<forall>ev k. r (prepend_k ev k) = apsnd (prepend_k ev) (r k))"

primrec blind :: "prog \<Rightarrow> bool" where
  "blind (End b) = True"
| "blind (Op f p) = (op_blind f \<and> blind p)"
| "blind (Read r q) = (read_blind r \<and> (\<forall>v. blind (q v)))"
| "blind (Until c p) = (read_blind c \<and> blind p)"

lemma blind_say: "op_blind (say str)"
  by (simp add: op_blind_def say_def kprintf_to_def on_mach_def option.map_comp comp_def case_prod_unfold)

lemma blind_bootinfo: "op_blind (\<lambda>k. Some (read_bootinfo bi k))"
  by (simp add: op_blind_def read_bootinfo_def on_mach_def Let_def)

lemma blind_gdt: "op_blind (\<lambda>k. Some (start_gdt lk k))"
  by (simp add: op_blind_def start_gdt_def load_gdt_def on_mach_def)

lemma blind_idt: "op_blind (\<lambda>k. Some (start_idt lk k))"
  by (simp add: op_blind_def start_idt_def set_idt_def on_mach_def case_prod_unfold Let_def log_simps del: req_page.simps)

lemma blind_timer: "op_blind (start_timer hw)"
  by (simp add: op_blind_def start_timer_def on_mach_def option.map_comp comp_def log_simps)

lemma blind_paging: "op_blind (start_paging lk)"
  by (simp add: op_blind_def start_paging_def on_mach_def case_prod_unfold Let_def log_pairs log_simps map_option_bind comp_def)

lemma blind_mach: "(\<And>ev s. f (prepend ev s) = prepend ev (f s)) \<Longrightarrow> op_blind (do_mach f)"
  by (simp add: op_blind_def do_mach_def on_mach_def)

lemma blind_wait: "read_blind (wait_turn hw cntl ready)"
  by (simp add: read_blind_def wait_turn_apply Let_def log_simps on_mach_def)

lemma blind_nvme_maps:
  "op_blind (\<lambda>k. let (pb, s) = map_pages (k_pml4 k) a b n (k_pages k, k_mach k) in Some (k\<lparr>k_pages := pb, k_mach := s\<rparr>))"
  "op_blind (\<lambda>k. do_mach (nvme_set_queues lk hw (k_pml4 k) a) k)"
  by (simp_all add: op_blind_def do_mach_def on_mach_def case_prod_unfold Let_def log_pairs log_simps)

lemma blind_reads:
  "read_blind (\<lambda>k. (bootdisk_config_addr k, k))"
  "read_blind (\<lambda>k. let (c, s) = mmio_read32 hw a (k_mach k) in (ucast c, k\<lparr>k_mach := s\<rparr>))"
  "read_blind (\<lambda>k. let (c, s) = bootdisk_cntl_addr hw a (k_mach k) in (c, k\<lparr>k_mach := s\<rparr>))"
  by (simp_all add: read_blind_def bootdisk_config_addr_def on_mach_def case_prod_unfold Let_def log_simps)

lemma blind_boot: "blind (boot_prog lk hw bi)"
  by (simp only: boot_prog_def disk_prog_def nvme_prog_def blind.simps if_distrib [of blind] blind_say blind_bootinfo
      blind_gdt blind_paging blind_idt blind_timer blind_mach log_simps blind_wait blind_nvme_maps blind_reads simp_thms if_bool_eq_conj)

section \<open>Interrupted runs\<close>

lemma exec_step: "step (p, k) (q, k') \<Longrightarrow> exec p k = exec q k'"
  by (erule step.cases) (auto simp: exec_fun until.simps [of _ k])

lemma until_steps: "until c k = Some k' \<Longrightarrow> step\<^sup>*\<^sup>* (Until c p, k) (p, k')"
proof (induction c k k' rule: until.raw_induct [rotated, consumes 1])
  case (1 u c k k')
  obtain b k1 where c: "c k = (b, k1)" by (metis surj_pair)
  show ?case
  proof (cases b)
    case True
    with 1(2) c step.leave [of c k k1 p] show ?thesis by auto
  next
    case False
    with 1(2) c have "u c k1 = Some k'" by simp
    then have "step\<^sup>*\<^sup>* (Until c p, k1) (p, k')" by (rule 1(1))
    with False c step.again [of c k k1 p] show ?thesis by (auto intro: converse_rtranclp_into_rtranclp)
  qed
qed

lemma exec_steps: "step\<^sup>*\<^sup>* (p, k) (End b, k') \<longleftrightarrow> exec p k = Some (b, k')"
proof
  show "exec p k = Some (b, k')" if "step\<^sup>*\<^sup>* (p, k) (End b, k')"
    using that by (induction p k rule: converse_rtranclp_induct2) (auto simp: exec_step)
  show "exec p k = Some (b, k') \<Longrightarrow> step\<^sup>*\<^sup>* (p, k) (End b, k')"
  proof (induction p arbitrary: k)
    case (Op f p)
    then obtain k1 where "f k = Some k1" "exec p k1 = Some (b, k')" by (auto simp: bind_eq_Some_conv)
    with Op.IH [of k1] step.op [of f k k1 p] show ?case by (auto intro: converse_rtranclp_into_rtranclp)
  next
    case (Read r q)
    obtain v k1 where "r k = (v, k1)" by (metis surj_pair)
    with Read step.read [of r k v k1 q] show ?case by (auto intro: converse_rtranclp_into_rtranclp)
  next
    case (Until c p)
    then obtain k1 where "until c k = Some k1" "exec p k1 = Some (b, k')" by (auto simp: bind_eq_Some_conv)
    with Until.IH until_steps [of c k k1 p] show ?case by (meson rtranclp_trans)
  qed simp
qed

text \<open>The end-of-interrupt command is all that a handler leaves; two states are alike up to it.\<close>

abbreviation EOI :: event where "EOI \<equiv> Outb 0x20 0x20"

definition without_eoi :: "kernel \<Rightarrow> kernel" where
  "without_eoi = on_mach (\<lambda>s. s\<lparr>events := filter (\<lambda>e. e \<noteq> EOI) (events s)\<rparr>)"

lemma alike_split:
  assumes "without_eoi k0 = without_eoi k"
  obtains b E0 E where "k0 = prepend_k E0 b" "k = prepend_k E b" "filter (\<lambda>e. e \<noteq> EOI) E0 = filter (\<lambda>e. e \<noteq> EOI) E"
proof -
  let ?base = "on_mach (\<lambda>s. s\<lparr>events := []\<rparr>)"
  have s: "k = prepend_k (events (k_mach k)) (?base k)" for k by (simp add: on_mach_def prepend_def)
  have "?base (without_eoi k) = ?base k" for k by (simp add: without_eoi_def on_mach_def)
  then have "?base k0 = ?base k" using assms by metis
  moreover have "filter (\<lambda>e. e \<noteq> EOI) (events (k_mach k)) = events (k_mach (without_eoi k))" for k
    by (simp add: without_eoi_def on_mach_def)
  then have "filter (\<lambda>e. e \<noteq> EOI) (events (k_mach k0)) = filter (\<lambda>e. e \<noteq> EOI) (events (k_mach k))" using assms by metis
  ultimately show ?thesis using that [of "events (k_mach k0)" "?base k0" "events (k_mach k)"] s by metis
qed

lemma alike_join:
  "filter (\<lambda>e. e \<noteq> EOI) E0 = filter (\<lambda>e. e \<noteq> EOI) E \<Longrightarrow> without_eoi (prepend_k E0 b) = without_eoi (prepend_k E b)"
  by (simp add: without_eoi_def on_mach_def prepend_def)

lemma step_alike:
  assumes "step (p, k) (q, k')" "blind p" "without_eoi k0 = without_eoi k"
  shows "\<exists>k1. step (p, k0) (q, k1) \<and> without_eoi k1 = without_eoi k' \<and> blind q"
proof -
  obtain b E0 E where k0: "k0 = prepend_k E0 b" and k: "k = prepend_k E b"
    and E: "filter (\<lambda>e. e \<noteq> EOI) E0 = filter (\<lambda>e. e \<noteq> EOI) E"
    using alike_split [OF assms(3)] by blast
  obtain b' where "step (p, k0) (q, prepend_k E0 b')" "k' = prepend_k E b'" "blind q"
    using assms(1,2)
  proof (cases rule: step.cases)
    case (op f)
    then have "f (prepend_k E b) = Some k'" "op_blind f" using assms(2) k by auto
    then obtain b' where "f b = Some b'" and b': "k' = prepend_k E b'" by (auto simp: op_blind_def)
    with op assms(2) have "step (p, k0) (q, prepend_k E0 b')" "blind q"
      by (auto simp: k0 op_blind_def intro!: step.op)
    with b' that show ?thesis by blast
  next
    case (read r v q')
    then have "r (prepend_k E b) = (v, k')" "read_blind r" using assms(2) k by auto
    then obtain b' where "r b = (v, b')" and b': "k' = prepend_k E b'" by (cases "r b") (auto simp: read_blind_def)
    with read assms(2) have "step (p, k0) (q, prepend_k E0 b')" "blind q"
      by (auto simp: k0 read_blind_def intro!: step.read)
    with b' that show ?thesis by blast
  next
    case (leave c)
    then have "c (prepend_k E b) = (True, k')" "read_blind c" using assms(2) k by auto
    then obtain b' where "c b = (True, b')" and b': "k' = prepend_k E b'" by (cases "c b") (auto simp: read_blind_def)
    with leave assms(2) have "step (p, k0) (q, prepend_k E0 b')" "blind q"
      by (auto simp: k0 read_blind_def intro!: step.leave)
    with b' that show ?thesis by blast
  next
    case (again c p')
    then have "c (prepend_k E b) = (False, k')" "read_blind c" using assms(2) k by auto
    then obtain b' where "c b = (False, b')" and b': "k' = prepend_k E b'" by (cases "c b") (auto simp: read_blind_def)
    with again assms(2) have "step (p, k0) (q, prepend_k E0 b')" "blind q"
      by (auto simp: k0 read_blind_def intro!: step.again)
    with b' that show ?thesis by blast
  qed
  with alike_join [OF E] show ?thesis by blast
qed

lemma handler_alike: "without_eoi (on_mach irq_handler k) = without_eoi k"
  by (simp add: without_eoi_def on_mach_def irq_handler_def outb_def)

lemma steps_alike:
  assumes "step\<^sup>*\<^sup>* (p, k) (q, k')" "blind p" "without_eoi k0 = without_eoi k"
  shows "\<exists>k1. step\<^sup>*\<^sup>* (p, k0) (q, k1) \<and> without_eoi k1 = without_eoi k' \<and> blind q"
  using assms(1)
proof (induction q k' rule: rtranclp_induct2)
  case refl
  with assms(2,3) show ?case by blast
next
  case (step q k' q' k'')
  then obtain k1 where 1: "step\<^sup>*\<^sup>* (p, k0) (q, k1)" "without_eoi k1 = without_eoi k'" "blind q" by blast
  from step_alike [OF step(2) 1(3,2)] 1(1) show ?case by (meson rtranclp.rtrancl_into_rtrancl)
qed

lemma interrupted_alike:
  assumes "interrupted_step\<^sup>*\<^sup>* (p, k) (q, k')" "blind p"
  shows "\<exists>k1. step\<^sup>*\<^sup>* (p, k) (q, k1) \<and> without_eoi k1 = without_eoi k' \<and> blind q"
  using assms(1)
proof (induction q k' rule: rtranclp_induct2)
  case refl
  with assms(2) show ?case by blast
next
  case (step q k' q' k'')
  then obtain k1 where 1: "step\<^sup>*\<^sup>* (p, k) (q, k1)" "without_eoi k1 = without_eoi k'" "blind q" by blast
  from step(2) show ?case
  proof cases
    case program
    from step_alike [OF this 1(3,2)] 1(1) show ?thesis by (meson rtranclp.rtrancl_into_rtrancl)
  next
    case interrupt
    with 1 show ?thesis by (auto simp: handler_alike)
  qed
qed

lemma uninterrupted: "step\<^sup>*\<^sup>* pk pk' \<Longrightarrow> interrupted_step\<^sup>*\<^sup>* pk pk'"
  by (rule rtranclp_mono [THEN predicate2D]) (auto intro: interrupted_step.program)

lemma exec_steps_eq: "step\<^sup>*\<^sup>* (p, k) (q, k') \<Longrightarrow> exec p k = exec q k'"
  by (induction q k' rule: rtranclp_induct2) (auto dest: exec_step)

section \<open>Properties\<close>




end
