(* ===== verification/Efi.thy ===== *)
theory Efi
  imports CString
begin

text \<open>
  The ground of the boot loader \<open>boot/efi/bootloader.c\<close>: its state, the firmware it calls and the
  two comparison functions at its top. The UEFI services and the helpers of the gnu-efi library
  are not part of the repository: they are the record \<open>firmware\<close>, in which a service is given by
  the status and outputs of its n-th call and by what that call does to memory. Every call is
  logged with its status. Console output has no other effect and is left out.
\<close>

section \<open>Firmware\<close>

datatype efi_call =
    Locate_gop
  | Query_mode u64
  | Set_mode u64
  | Locate_block_ios
  | Open_block_io u64
  | Read_blocks u64 u32 u64 u64 u64
  | Open_device_path u64
  | Locate_pci u64
  | Open_pci u64
  | Get_location u64
  | Allocate_pool u64
  | Free_pool u64
  | Allocate_pages u64 u64
  | Get_memory_map u64 u64
  | Clear_console
  | Exit_boot_services u64

record EFI_GUID =
  Data1 :: u32
  Data2 :: u16
  Data3 :: u16
  Data4 :: "u8 list"

text \<open>
  The outputs of a call, by number: a located handle or interface is output 0, an allocated
  buffer or address is output 0, the handles of \<open>Locate_block_ios\<close> are output 0 (how many) and 1
  (where), the location of \<open>Get_location\<close> outputs 0 to 3, the resolution of the mode that
  \<open>Query_mode\<close> describes outputs 0 (horizontal) and 1 (vertical), and the size, key and descriptor
  size of \<open>Get_memory_map\<close> outputs 0 to 2. What the loader reads of the graphics protocol, as it is
  after the n-th call, is the record \<open>gop\<close>.
\<close>

record gop =
  gop_mode_null :: bool
  gop_mode :: u32
  gop_max_mode :: u32
  gop_base :: u64
  gop_size :: u64
  gop_hres :: u32
  gop_vres :: u32
  gop_pps :: u32

record firmware =
  fw_status :: "nat \<Rightarrow> efi_call \<Rightarrow> u64"
  fw_out :: "nat \<Rightarrow> efi_call \<Rightarrow> nat \<Rightarrow> u64"
  fw_mem :: "nat \<Rightarrow> efi_call \<Rightarrow> mem \<Rightarrow> mem"
  fw_gop :: "nat \<Rightarrow> gop"
  fw_partition :: "u64 \<Rightarrow> bool"
  fw_media :: "u64 \<Rightarrow> u32"
  fw_tables :: "(EFI_GUID \<times> u64) list"
  fw_error :: "u64 \<Rightarrow> bool"
  fw_not_started :: u64
  fw_acpi20 :: EFI_GUID
  fw_sizeof_descriptor :: u64
  fw_strncmpa :: "(nat \<Rightarrow> u8) \<Rightarrow> (nat \<Rightarrow> u8) \<Rightarrow> nat \<Rightarrow> int"

section \<open>State and steps of the loader\<close>

record efi =
  e_mem :: mem
  e_calls :: "(efi_call \<times> u64) list"

text \<open>
  How a run stops other than by reaching its end: in the endless loop after a message, or in the
  fault of a division by zero. A run that goes on forever without a message is \<open>None\<close>.
\<close>

datatype stop = Halted string | Divided_by_zero

type_synonym 'a loader = "efi \<Rightarrow> ((stop + 'a) \<times> efi) option"

definition ret :: "'a \<Rightarrow> 'a loader" where
  "ret x st = Some (Inr x, st)"

definition halt :: "string \<Rightarrow> 'a loader" where
  "halt msg st = Some (Inl (Halted msg), st)"

definition andthen :: "'a loader \<Rightarrow> ('a \<Rightarrow> 'b loader) \<Rightarrow> 'b loader" where
  "andthen p q st = Option.bind (p st) (\<lambda>(r, st). case r of Inl e \<Rightarrow> Some (Inl e, st) | Inr x \<Rightarrow> q x st)"

definition call :: "firmware \<Rightarrow> efi_call \<Rightarrow> (u64 \<times> (nat \<Rightarrow> u64)) loader" where
  "call fw c st =
     (let n = length (e_calls st); s = fw_status fw n c
      in Some (Inr (s, fw_out fw n c), \<lparr>e_mem = fw_mem fw n c (e_mem st), e_calls = e_calls st @ [(c, s)]\<rparr>))"

text \<open>\<open>Status = ...; if (EFI_ERROR(Status)) { Print(msg); while (1); }\<close>\<close>

definition must :: "firmware \<Rightarrow> string \<Rightarrow> efi_call \<Rightarrow> (nat \<Rightarrow> u64) loader" where
  "must fw msg c = andthen (call fw c) (\<lambda>(s, out). if fw_error fw s then halt msg else ret out)"

definition get_mem :: "mem loader" where
  "get_mem st = Some (Inr (e_mem st), st)"

definition set_mem :: "mem \<Rightarrow> unit loader" where
  "set_mem m st = Some (Inr (), st\<lparr>e_mem := m\<rparr>)"

definition get_gop :: "firmware \<Rightarrow> gop loader" where
  "get_gop fw st = Some (Inr (fw_gop fw (length (e_calls st))), st)"

section \<open>memcmp and guidcmp\<close>

fun memcmp_from :: "(nat \<Rightarrow> u8) \<Rightarrow> (nat \<Rightarrow> u8) \<Rightarrow> nat \<Rightarrow> nat \<Rightarrow> bool" where
  "memcmp_from mem1 mem2 i 0 = True"
| "memcmp_from mem1 mem2 i (Suc k) = (if mem1 i \<noteq> mem2 i then False else memcmp_from mem1 mem2 (Suc i) k)"

definition memcmp :: "(nat \<Rightarrow> u8) \<Rightarrow> (nat \<Rightarrow> u8) \<Rightarrow> nat \<Rightarrow> bool" where
  "memcmp mem1 mem2 sz = memcmp_from mem1 mem2 0 sz"

definition guidcmp :: "EFI_GUID \<Rightarrow> EFI_GUID \<Rightarrow> bool" where
  "guidcmp g1 g2 \<longleftrightarrow> Data1 g1 = Data1 g2 \<and> Data2 g1 = Data2 g2 \<and> Data3 g1 = Data3 g2 \<and>
     memcmp (\<lambda>i. Data4 g1 ! i) (\<lambda>i. Data4 g2 ! i) 8"

lemma memcmp_from_iff: "memcmp_from a b i k \<longleftrightarrow> (\<forall>j<k. a (i + j) = b (i + j))"
proof (induction k arbitrary: i)
  case (Suc k)
  have "(\<forall>j<Suc k. a (i + j) = b (i + j)) \<longleftrightarrow> a i = b i \<and> (\<forall>j<k. a (Suc i + j) = b (Suc i + j))"
    by (auto simp: less_Suc_eq_0_disj)
  with Suc show ?case by simp
qed simp

lemma memcmp_iff: "memcmp a b n \<longleftrightarrow> (\<forall>j<n. a j = b j)"
  by (simp add: memcmp_def memcmp_from_iff)

text \<open>On well-formed identifiers \<open>guidcmp\<close> is equality.\<close>

lemma guidcmp_iff:
  assumes "length (Data4 g1) = 8" "length (Data4 g2) = 8"
  shows "guidcmp g1 g2 \<longleftrightarrow> g1 = (g2 :: EFI_GUID)"
  using assms by (cases g1; cases g2) (auto simp: guidcmp_def memcmp_iff list_eq_iff_nth_eq)

section \<open>The steps, one by one\<close>

lemma andthen_ret [simp]: "andthen (ret x) q = q x"
  by (simp add: andthen_def ret_def fun_eq_iff)

lemma andthen_halt [simp]: "andthen (halt msg) q = halt msg"
  by (simp add: andthen_def halt_def fun_eq_iff)

lemma andthen_ret_right [simp]: "andthen p ret = p"
  by (auto simp: andthen_def ret_def fun_eq_iff split: sum.splits Option.bind_splits)

lemma andthen_assoc: "andthen (andthen p q) r = andthen p (\<lambda>x. andthen (q x) r)"
  by (auto simp: andthen_def fun_eq_iff split: sum.splits Option.bind_splits)

lemma andthen_Some:
  "andthen p q st = Some (r, st') \<longleftrightarrow>
     (\<exists>e. p st = Some (Inl e, st') \<and> r = Inl e) \<or> (\<exists>x st1. p st = Some (Inr x, st1) \<and> q x st1 = Some (r, st'))"
proof (cases "p st")
  case (Some rs)
  obtain x st1 where "rs = (x, st1)" by (metis surj_pair)
  with Some show ?thesis by (cases x) (auto simp: andthen_def)
qed (simp add: andthen_def)

lemma call_eq:
  "call fw c st =
     (let n = length (e_calls st); s = fw_status fw n c
      in Some (Inr (s, fw_out fw n c), \<lparr>e_mem = fw_mem fw n c (e_mem st), e_calls = e_calls st @ [(c, s)]\<rparr>))"
  by (simp add: call_def)

lemma must_eq:
  "must fw msg c st =
     (let n = length (e_calls st); s = fw_status fw n c;
          st' = \<lparr>e_mem = fw_mem fw n c (e_mem st), e_calls = e_calls st @ [(c, s)]\<rparr>
      in Some (if fw_error fw s then Inl (Halted msg) else Inr (fw_out fw n c), st'))"
  by (simp add: must_def andthen_def call_def halt_def ret_def Let_def)

end
