(* ===== verification/Ext2.thy ===== *)
theory Ext2
  imports Efi Bootinfo
begin

text \<open>
  Lines 75 to 387 of \<open>boot/efi/bootloader.c\<close>: the boot disk, its partition and the files
  \<open>/boot\<close> and \<open>/boot/kernel\<close> of the ext2 file system, with the layouts of \<open>gpt.h\<close> and \<open>ext2.h\<close>.
  Buffers are addresses in memory, read again wherever the code reads them.
\<close>

section \<open>Layouts\<close>

abbreviation lba_size :: u64 where "lba_size \<equiv> 512"

definition gpt_part_tbl_start_lba :: "mem \<Rightarrow> u64 \<Rightarrow> u64" where "gpt_part_tbl_start_lba m a = load64 m (a + 72)"
definition gpt_part_entry_num :: "mem \<Rightarrow> u64 \<Rightarrow> u32" where "gpt_part_entry_num m a = load32 m (a + 80)"
definition part_start_lba :: "mem \<Rightarrow> u64 \<Rightarrow> nat \<Rightarrow> u64" where
  "part_start_lba m part_tbl i = load64 m (part_tbl + of_nat i * 128 + 32)"

definition sb_log_block_size :: "mem \<Rightarrow> u64 \<Rightarrow> u32" where "sb_log_block_size m a = load32 m (a + 24)"
definition sb_inode_per_group :: "mem \<Rightarrow> u64 \<Rightarrow> u32" where "sb_inode_per_group m a = load32 m (a + 40)"
definition sb_magic :: "mem \<Rightarrow> u64 \<Rightarrow> u16" where "sb_magic m a = load16 m (a + 56)"
definition sb_inode_size :: "mem \<Rightarrow> u64 \<Rightarrow> u16" where "sb_inode_size m a = load16 m (a + 88)"

definition bg_inode_table :: "mem \<Rightarrow> u64 \<Rightarrow> u32 \<Rightarrow> u32" where
  "bg_inode_table m group_desc_tbl g = load32 m (group_desc_tbl + ucast g * 32 + 8)"

definition inode_mode :: "mem \<Rightarrow> u64 \<Rightarrow> u16" where "inode_mode m a = load16 m a"
definition inode_block_cnt :: "mem \<Rightarrow> u64 \<Rightarrow> u32" where "inode_block_cnt m a = load32 m (a + 28)"
definition inode_block :: "mem \<Rightarrow> u64 \<Rightarrow> u64 \<Rightarrow> u32" where "inode_block m a i = load32 m (a + 40 + i * 4)"

definition de_inode :: "mem \<Rightarrow> u64 \<Rightarrow> u32" where "de_inode m a = load32 m a"
definition de_rec_len :: "mem \<Rightarrow> u64 \<Rightarrow> u16" where "de_rec_len m a = load16 m (a + 4)"
definition de_name_len :: "mem \<Rightarrow> u64 \<Rightarrow> u8" where "de_name_len m a = m (a + 6)"

section \<open>The boot disk\<close>

record boot_disk =
  d_block_io :: u64
  d_media :: u32

text \<open>
  The loop over the handles from index \<open>i\<close>, \<open>k\<close> of them left: a handle that cannot be opened or
  read, or is a partition, is passed over.
\<close>

fun find_disk :: "firmware \<Rightarrow> u64 \<Rightarrow> u64 \<Rightarrow> nat \<Rightarrow> nat \<Rightarrow> (boot_disk \<times> BOOTDISK_ADDRESS) loader" where
  "find_disk fw block_ios gpt i 0 = halt ''Could not locate BlockIoProtocol of disk''"
| "find_disk fw block_ios gpt i (Suc k) =
     andthen get_mem (\<lambda>m. let handle = load64 m (block_ios + of_nat i * 8) in
     andthen (call fw (Open_block_io handle)) (\<lambda>(s, out). let block_io = out 0 in
     if fw_error fw s then find_disk fw block_ios gpt (Suc i) k
     else if fw_partition fw block_io then find_disk fw block_ios gpt (Suc i) k
     else let media_id = fw_media fw block_io in
     andthen (call fw (Read_blocks block_io media_id 1 lba_size gpt)) (\<lambda>(s, out).
     if fw_error fw s then find_disk fw block_ios gpt (Suc i) k
     else andthen get_mem (\<lambda>m.
     if fw_strncmpa fw (bytes_at m gpt) (cstr ''EFI PART'') 8 \<noteq> 0
     then find_disk fw block_ios gpt (Suc i) k
     else
     andthen (must fw ''Could not locate DevicePathProtocol'' (Open_device_path handle)) (\<lambda>out.
     andthen (must fw ''Could not locate PciIoProtocol handle'' (Locate_pci (out 0))) (\<lambda>out.
     andthen (must fw ''Could not locate PciIoProtocol'' (Open_pci (out 0))) (\<lambda>out.
     andthen (must fw ''Could not get location of bootdisk'' (Get_location (out 0))) (\<lambda>out.
     ret (\<lparr>d_block_io = block_io, d_media = media_id\<rparr>,
          \<lparr>bd_seg = out 0, bd_bus = ucast (out 1), bd_dev = ucast (out 2), bd_func = ucast (out 3)\<rparr>)))))))))"

section \<open>The partition\<close>

text \<open>The super block is two blocks of 512 bytes into the partition.\<close>

fun find_partition :: "firmware \<Rightarrow> boot_disk \<Rightarrow> u64 \<Rightarrow> u64 \<Rightarrow> nat \<Rightarrow> nat \<Rightarrow> u64 loader" where
  "find_partition fw d part_tbl sb i 0 = halt ''Could not load primary partition''"
| "find_partition fw d part_tbl sb i (Suc k) =
     andthen get_mem (\<lambda>m.
     andthen (call fw (Read_blocks (d_block_io d) (d_media d) (part_start_lba m part_tbl i + 2) 512 sb)) (\<lambda>(s, out).
     if fw_error fw s then find_partition fw d part_tbl sb (Suc i) k
     else andthen get_mem (\<lambda>m.
     if sb_magic m sb = 0xef53 then ret (part_start_lba m part_tbl i)
     else find_partition fw d part_tbl sb (Suc i) k)))"

section \<open>Files\<close>

text \<open>What the loader keeps of the file system: the disk, where the partition starts, the fields of
  the super block and the buffers for one block of group descriptors and one block of inodes.\<close>

record ext2 =
  x_disk :: boot_disk
  x_start_lba :: u64
  x_block_size :: u64
  x_inode_size :: u16
  x_inode_per_group :: u32
  x_groups :: u64
  x_inodes :: u64

definition read_block :: "firmware \<Rightarrow> string \<Rightarrow> ext2 \<Rightarrow> u32 \<Rightarrow> u64 \<Rightarrow> (nat \<Rightarrow> u64) loader" where
  "read_block fw msg x block buf =
     must fw msg (Read_blocks (d_block_io (x_disk x)) (d_media (x_disk x))
       (x_start_lba x + ucast block * x_block_size x div lba_size) (x_block_size x) buf)"

definition inode_bytes :: "mem \<Rightarrow> u64 \<Rightarrow> u32" where
  "inode_bytes m inode = inode_block_cnt m inode * 512"

text \<open>The loop over the blocks of a file from \<open>i\<close>; \<open>rd\<close> is \<open>read_block\<close> with the message of the file.\<close>

partial_function (option) read_file_from ::
    "(u32 \<Rightarrow> u64 \<Rightarrow> (nat \<Rightarrow> u64) loader) \<Rightarrow> u64 \<Rightarrow> u64 \<Rightarrow> u64 \<Rightarrow> u64 \<Rightarrow> unit loader" where
  [code]: "read_file_from rd block_size inode buf i st =
     (if i < ucast (inode_bytes (e_mem st) inode) div block_size
      then Option.bind (rd (inode_block (e_mem st) inode i) (buf + block_size * i) st)
        (\<lambda>(r, st). case r of Inl e \<Rightarrow> Some (Inl e, st) | Inr out \<Rightarrow> read_file_from rd block_size inode buf (i + 1) st)
      else Some (Inr (), st))"

text \<open>Allocate a buffer of the size of the file and read its blocks; the result is the buffer.\<close>

definition read_file :: "firmware \<Rightarrow> string \<Rightarrow> string \<Rightarrow> ext2 \<Rightarrow> u64 \<Rightarrow> u64 loader" where
  "read_file fw alloc_msg read_msg x inode =
     andthen get_mem (\<lambda>m.
     andthen (must fw alloc_msg (Allocate_pool (ucast (inode_bytes m inode)))) (\<lambda>out.
     andthen (if x_block_size x = 0 then (\<lambda>st. Some (Inl Divided_by_zero, st)) else read_file_from (read_block fw read_msg x) (x_block_size x) inode (out 0) 0)
       (\<lambda>_. ret (out 0))))"

section \<open>Directories\<close>

text \<open>
  The loop over the entries of a directory, at the entry \<open>tmp\<close> with counter \<open>i\<close>. An entry whose
  name does not fit its record is tried again without end: then there is no result.
\<close>

partial_function (option) find_entry :: "firmware \<Rightarrow> string \<Rightarrow> mem \<Rightarrow> u64 \<Rightarrow> u64 \<Rightarrow> u64 \<Rightarrow> u64 option option" where
  [code]: "find_entry fw name m bound tmp i =
     (if fw_strncmpa fw (bytes_at m (tmp + 8)) (cstr name) (length name) = 0 then Some (Some tmp)
      else if uint (de_name_len m tmp) > uint (de_rec_len m tmp) - 8 then find_entry fw name m bound tmp (i + 1)
      else if i > bound then Some None
      else find_entry fw name m bound (tmp + ucast (de_rec_len m tmp)) (i + 1))"

definition search_dir :: "firmware \<Rightarrow> string \<Rightarrow> string \<Rightarrow> u64 \<Rightarrow> u64 \<Rightarrow> u64 loader" where
  "search_dir fw msg name inode dir st =
     Option.bind (find_entry fw name (e_mem st) (ucast (inode_bytes (e_mem st) inode)) dir 0)
       (\<lambda>r. case r of None \<Rightarrow> halt msg st | Some entry \<Rightarrow> ret entry st)"

text \<open>Read the block of inodes at the start of the group of an inode; the result is its address.\<close>

definition load_inode :: "firmware \<Rightarrow> ext2 \<Rightarrow> u32 \<Rightarrow> u64 loader" where
  "load_inode fw x ino =
     (if x_inode_per_group x = 0 then (\<lambda>st. Some (Inl Divided_by_zero, st))
      else andthen get_mem (\<lambda>m.
      andthen (read_block fw ''Could not free buffer for inode table'' x
        (bg_inode_table m (x_groups x) (ino div x_inode_per_group x)) (x_inodes x)) (\<lambda>_.
      ret (x_inodes x + ucast (ucast (x_inode_size x) * (ino mod x_inode_per_group x - 1) :: u32)))))"

section \<open>From the disk to the kernel\<close>

text \<open>Read the partition table and find the ext2 partition; the result is where it starts and the
  buffer of its super block.\<close>

definition open_partition :: "firmware \<Rightarrow> boot_disk \<Rightarrow> u64 \<Rightarrow> (u64 \<times> u64) loader" where
  "open_partition fw d gpt =
     andthen get_mem (\<lambda>m.
     let part_tbl_start_lba = gpt_part_tbl_start_lba m gpt; part_entry_num = gpt_part_entry_num m gpt;
         bytes = ucast (0x80 * part_entry_num :: u32) in
     andthen (must fw ''Could not allocate buffer for GPT partition entry table'' (Allocate_pool bytes)) (\<lambda>out.
     let part_tbl = out 0 in
     andthen (must fw ''Could not allocate buffer for primary partition'' (Allocate_pool 512)) (\<lambda>out.
     let primary_part = out 0 in
     andthen (must fw ''Could not read partition table''
       (Read_blocks (d_block_io d) (d_media d) part_tbl_start_lba bytes part_tbl)) (\<lambda>_.
     andthen (find_partition fw d part_tbl primary_part 0 (unat part_entry_num)) (\<lambda>start.
     andthen (must fw ''Could not free buffer partition table table'' (Free_pool part_tbl)) (\<lambda>_.
     andthen (must fw ''Could not free buffer for gpt header'' (Free_pool gpt)) (\<lambda>_.
     ret (start, primary_part))))))))"

text \<open>\<open>1024 << log_block_size\<close> is a shift of an \<open>int\<close>, converted to 64 bits; a count for which C
  defines no value shifts every bit out here.\<close>

definition block_size_of :: "mem \<Rightarrow> u64 \<Rightarrow> u64" where
  "block_size_of m sb = scast (push_bit (unat (sb_log_block_size m sb)) (1024 :: u32))"

text \<open>Read the first block of group descriptors and of inodes.\<close>

definition open_ext2 :: "firmware \<Rightarrow> boot_disk \<Rightarrow> u64 \<Rightarrow> u64 \<Rightarrow> ext2 loader" where
  "open_ext2 fw d start primary_part =
     andthen get_mem (\<lambda>m.
     let block_size = block_size_of m primary_part; inode_size = sb_inode_size m primary_part;
         inode_per_group = sb_inode_per_group m primary_part in
     andthen (must fw ''Could not allocate buffer for group descriptor table'' (Allocate_pool block_size)) (\<lambda>out.
     let group_desc_tbl = out 0 in
     andthen (must fw ''Could not allocate buffer for inode table'' (Allocate_pool block_size)) (\<lambda>out.
     let inode_tbl = out 0;
         x = \<lparr>x_disk = d, x_start_lba = start, x_block_size = block_size, x_inode_size = inode_size,
              x_inode_per_group = inode_per_group, x_groups = group_desc_tbl, x_inodes = inode_tbl\<rparr> in
     andthen (must fw ''Could not read group descriptor table''
       (Read_blocks (d_block_io d) (d_media d) (start + block_size div lba_size) block_size group_desc_tbl)) (\<lambda>_.
     andthen get_mem (\<lambda>m.
     andthen (read_block fw ''Could not read inode table'' x (bg_inode_table m group_desc_tbl 0) inode_tbl) (\<lambda>_.
     ret x))))))"

definition root_inode :: "ext2 \<Rightarrow> u64" where
  "root_inode x = x_inodes x + ucast (x_inode_size x)"

text \<open>\<open>/\<close>, then \<open>/boot\<close>, then \<open>/boot/kernel\<close>; the result is the buffers of the three.\<close>

definition walk_to_kernel :: "firmware \<Rightarrow> ext2 \<Rightarrow> (u64 \<times> u64 \<times> u64) loader" where
  "walk_to_kernel fw x =
     andthen get_mem (\<lambda>m. let root_dir_inode = root_inode x in
     if inode_mode m root_dir_inode AND 0xF000 \<noteq> 0x4000 then halt ''Could not find /.''
     else
     andthen (read_file fw ''Could not allocate buffer for root directory'' ''Could not read root directory'' x root_dir_inode) (\<lambda>root_dir.
     andthen (search_dir fw ''Could not find /boot'' ''boot'' root_dir_inode root_dir) (\<lambda>boot_dir_entry.
     andthen get_mem (\<lambda>m.
     andthen (load_inode fw x (de_inode m boot_dir_entry)) (\<lambda>boot_dir_inode.
     andthen (read_file fw ''Could not allocate buffer for boot directory'' ''Could not read boot directory'' x boot_dir_inode) (\<lambda>boot_dir.
     andthen (search_dir fw ''Could not find /boot/kernel'' ''kernel'' boot_dir_inode boot_dir) (\<lambda>kernel_entry.
     andthen get_mem (\<lambda>m.
     andthen (load_inode fw x (de_inode m kernel_entry)) (\<lambda>kernel_file_inode.
     andthen (read_file fw ''Could not allocate buffer for kernel loader'' ''Could not read kernel loader'' x kernel_file_inode) (\<lambda>kernel_file.
     ret (root_dir, boot_dir, kernel_file)))))))))))"

text \<open>Lines 75 to 387: the buffer of the kernel file and the location of the boot disk.\<close>

definition get_kernel :: "firmware \<Rightarrow> (u64 \<times> BOOTDISK_ADDRESS) loader" where
  "get_kernel fw =
     andthen (must fw ''Could not locate BlockIoProtocol'' Locate_block_ios) (\<lambda>out.
     let block_io_num = out 0; block_ios = out 1 in
     andthen (must fw ''Could not allocate buffer for BlockIoProtocol'' (Allocate_pool lba_size)) (\<lambda>out.
     let gpt_header = out 0 in
     andthen (find_disk fw block_ios gpt_header 0 (unat block_io_num)) (\<lambda>(d, bootdisk_addr).
     andthen (open_partition fw d gpt_header) (\<lambda>(start, primary_part).
     andthen (open_ext2 fw d start primary_part) (\<lambda>x.
     andthen (walk_to_kernel fw x) (\<lambda>(root_dir, boot_dir, kernel_file).
     andthen (must fw ''Could not free buffer for group descriptor table'' (Free_pool (x_groups x))) (\<lambda>_.
     andthen (must fw ''Could not free buffer for primary partition'' (Free_pool primary_part)) (\<lambda>_.
     andthen (must fw ''Could not free buffer for inode table'' (Free_pool (x_inodes x))) (\<lambda>_.
     andthen (must fw ''Could not free buffer for root directory entry'' (Free_pool root_dir)) (\<lambda>_.
     andthen (must fw ''Could not free buffer for boot directory entry'' (Free_pool boot_dir)) (\<lambda>_.
     ret (kernel_file, bootdisk_addr))))))))))))"

end
