(* ===== verification/Elf_Load.thy ===== *)
theory Elf_Load
  imports Efi
begin

text \<open>
  Lines 389 to 446 of \<open>boot/efi/bootloader.c\<close>: the ELF header of the kernel file, the copy of its
  program headers and the loading of its segments, with the layouts of \<open>elf.h\<close>.
\<close>

section \<open>Headers\<close>

record Elf64_Ehdr =
  e_ident :: "u8 list"
  e_type :: u16
  e_machine :: u16
  e_version :: u32
  e_entry :: u64
  e_phoff :: u64
  e_phentsize :: u16
  e_phnum :: u16

record Elf64_Phdr =
  p_type :: u32
  p_offset :: u64
  p_paddr :: u64
  p_filesz :: u64
  p_memsz :: u64

abbreviation EI_CLASS :: nat where "EI_CLASS \<equiv> 4"
abbreviation EI_DATA :: nat where "EI_DATA \<equiv> 5"

definition load_ehdr :: "mem \<Rightarrow> u64 \<Rightarrow> Elf64_Ehdr" where
  "load_ehdr m a = \<lparr>e_ident = map (\<lambda>i. m (a + of_nat i)) [0..<16], e_type = load16 m (a + 16),
     e_machine = load16 m (a + 18), e_version = load32 m (a + 20), e_entry = load64 m (a + 24),
     e_phoff = load64 m (a + 32), e_phentsize = load16 m (a + 54), e_phnum = load16 m (a + 56)\<rparr>"

definition load_phdr :: "mem \<Rightarrow> u64 \<Rightarrow> Elf64_Phdr" where
  "load_phdr m a = \<lparr>p_type = load32 m a, p_offset = load64 m (a + 8), p_paddr = load64 m (a + 24),
     p_filesz = load64 m (a + 32), p_memsz = load64 m (a + 40)\<rparr>"

section \<open>The header check\<close>

definition elf_mag :: "u8 list" where "elf_mag = [0x7f, 0x45, 0x4c, 0x46]"

definition ehdr_invalid :: "Elf64_Ehdr \<Rightarrow> bool" where
  "ehdr_invalid ehdr \<longleftrightarrow>
     \<not> memcmp (\<lambda>i. e_ident ehdr ! i) (\<lambda>i. elf_mag ! i) 4 \<or>
     e_ident ehdr ! EI_CLASS \<noteq> 2 \<or>
     e_ident ehdr ! EI_DATA \<noteq> 1 \<or>
     e_type ehdr \<noteq> 2 \<or>
     e_machine ehdr \<noteq> 62 \<or>
     e_version ehdr \<noteq> 1"

text \<open>\<open>Status\<close> still is what the last call returned; an invalid header sets it to \<open>!EFI_SUCCESS\<close>,
  which is 1, and the error test decides.\<close>

definition last_status :: "efi \<Rightarrow> u64" where
  "last_status st = (if e_calls st = [] then 0 else snd (last (e_calls st)))"

definition check_ehdr :: "firmware \<Rightarrow> Elf64_Ehdr \<Rightarrow> unit loader" where
  "check_ehdr fw ehdr st =
     (let status = if ehdr_invalid ehdr then 1 else last_status st
      in if fw_error fw status then halt ''Invalid ELF header.'' st else ret () st)"

section \<open>Segments\<close>

text \<open>The copy of the bytes of a segment; \<open>phdr->p_offset\<close> is read again for every byte.\<close>

fun copy_segment :: "mem \<Rightarrow> u64 \<Rightarrow> u64 \<Rightarrow> u64 \<Rightarrow> nat \<Rightarrow> mem" where
  "copy_segment m seg Kernel phdr 0 = m"
| "copy_segment m seg Kernel phdr (Suc i) =
     (let m' = copy_segment m seg Kernel phdr i
      in m'(seg + of_nat i := m' (Kernel + (p_offset (load_phdr m' phdr) + of_nat i))))"

text \<open>\<open>AllocatePages\<close> takes the address in a variable that it may change; the copy goes where the
  variable points after the call.\<close>

definition load_segment :: "firmware \<Rightarrow> u64 \<Rightarrow> u64 \<Rightarrow> unit loader" where
  "load_segment fw Kernel phdr =
     andthen get_mem (\<lambda>m. let h = load_phdr m phdr in
     if p_type h = 1
     then
       andthen (must fw ''Could not allocate buffer for ELF segment''
         (Allocate_pages ((p_memsz h + 0x1000 - 1) div 0x1000) (p_paddr h))) (\<lambda>out.
       andthen get_mem (\<lambda>m.
       set_mem (copy_segment m (out 0) Kernel phdr (unat (p_filesz (load_phdr m phdr))))))
     else ret ())"

text \<open>The loop over the copied program headers, up to their end.\<close>

partial_function (option) load_segments :: "firmware \<Rightarrow> u64 \<Rightarrow> u16 \<Rightarrow> u64 \<Rightarrow> u64 \<Rightarrow> unit loader" where
  [code]: "load_segments fw Kernel phentsize phdr_end phdr st =
     (if phdr < phdr_end
      then Option.bind (load_segment fw Kernel phdr st)
        (\<lambda>(r, st). case r of Inl e \<Rightarrow> Some (Inl e, st)
           | Inr _ \<Rightarrow> load_segments fw Kernel phentsize phdr_end (phdr + ucast phentsize) st)
      else Some (Inr (), st))"

text \<open>The size of the program headers is a product of two promoted \<open>uint16_t\<close>, an \<open>int\<close>.\<close>

definition phdr_bytes :: "Elf64_Ehdr \<Rightarrow> u64" where
  "phdr_bytes ehdr = scast (ucast (e_phnum ehdr) * ucast (e_phentsize ehdr) :: u32)"

definition parse_elf :: "firmware \<Rightarrow> u64 \<Rightarrow> u64 loader" where
  "parse_elf fw Kernel =
     andthen get_mem (\<lambda>m. let ehdr = load_ehdr m Kernel in
     andthen (check_ehdr fw ehdr) (\<lambda>_.
     let phdr_buffer_size = phdr_bytes ehdr in
     andthen (must fw ''Could not allocate buffer for phdr buffer'' (Allocate_pool phdr_buffer_size)) (\<lambda>out.
     let phdr_buffer = out 0 in
     andthen get_mem (\<lambda>m.
     andthen (set_mem (memcpy m phdr_buffer (Kernel + e_phoff ehdr) (unat phdr_buffer_size))) (\<lambda>_.
     andthen (load_segments fw Kernel (e_phentsize ehdr) (phdr_buffer + phdr_buffer_size) phdr_buffer) (\<lambda>_.
     ret (e_entry ehdr)))))))"

section \<open>What a copy leaves alone\<close>

lemma copy_segment_other:
  "n \<le> 2 ^ 64 \<Longrightarrow> \<not> in_region seg n b \<Longrightarrow> copy_segment m seg k p n b = m b"
  by (induction n) (auto simp: in_region_last Let_def)

end
