(* ===== verification/Bootloader.thy ===== *)
theory Bootloader
  imports Ext2 Elf_Load
begin

text \<open>
  \<open>efi_main\<close> of \<open>boot/efi/bootloader.c\<close>: the graphics mode, the kernel file and its segments, the
  memory map, the ACPI root table, the structure handed to the kernel and the jump to it.
\<close>

section \<open>The graphics mode (lines 33 to 72)\<close>

text \<open>The loop over the modes from \<open>i\<close>, \<open>k\<close> of them left.\<close>

fun find_mode :: "firmware \<Rightarrow> u64 \<Rightarrow> nat \<Rightarrow> unit loader" where
  "find_mode fw i 0 = ret ()"
| "find_mode fw i (Suc k) =
     andthen (must fw ''Could not get graphic mode'' (Query_mode i)) (\<lambda>out.
     if out 0 = 1920 \<and> out 1 = 1080
     then andthen (must fw ''Could not set graphic mode'' (Set_mode i)) (\<lambda>_. ret ())
     else find_mode fw (i + 1) k)"

definition open_gop :: "firmware \<Rightarrow> unit loader" where
  "open_gop fw =
     andthen (must fw ''Could not locate GOP'' Locate_gop) (\<lambda>_.
     andthen (get_gop fw) (\<lambda>g.
     andthen (call fw (Query_mode (if gop_mode_null g then 0 else ucast (gop_mode g)))) (\<lambda>(s, _).
     andthen (if s = fw_not_started fw
              then andthen (must fw ''Could not set graphic mode'' (Set_mode 0)) (\<lambda>_. ret ())
              else ret ()) (\<lambda>_.
     andthen (get_gop fw) (\<lambda>g.
     find_mode fw 0 (unat (gop_max_mode g)))))))"

section \<open>The memory map (lines 448 to 463)\<close>

text \<open>The first call runs with whatever \<open>mem_map_size\<close> holds; its status and that of the
  allocation are not tested. The result is the buffer, the size, the key and the descriptor size.\<close>

definition get_memory_map :: "firmware \<Rightarrow> u64 \<Rightarrow> (u64 \<times> u64 \<times> u64 \<times> u64) loader" where
  "get_memory_map fw mem_map_size =
     andthen (call fw (Get_memory_map mem_map_size 0)) (\<lambda>(_, out). let mem_map_size = out 0 in
     andthen (call fw (Allocate_pool mem_map_size)) (\<lambda>(_, out). let mem_map = out 0;
         mem_map_size = mem_map_size + (fw_sizeof_descriptor fw + 8) in
     andthen (must fw ''Could not get EFI memory map'' (Get_memory_map mem_map_size mem_map)) (\<lambda>out.
     ret (mem_map, out 0, out 1, out 2))))"

section \<open>The ACPI root table (lines 466 to 507)\<close>

definition find_xsdp :: "firmware \<Rightarrow> u64 \<Rightarrow> u64" where
  "find_xsdp fw xsdp = foldl (\<lambda>xsdp (stct, tbl). if guidcmp (fw_acpi20 fw) stct then tbl else xsdp) xsdp (fw_tables fw)"

fun add_bytes :: "mem \<Rightarrow> u64 \<Rightarrow> u8 \<Rightarrow> nat \<Rightarrow> u8" where
  "add_bytes m a r 0 = r"
| "add_bytes m a r (Suc n) = add_bytes m a r n + m (a + of_nat n)"

definition get_xsdt :: "firmware \<Rightarrow> u64 \<Rightarrow> u64 loader" where
  "get_xsdt fw xsdp0 =
     andthen get_mem (\<lambda>m. let xsdp = find_xsdp fw xsdp0 in
     if fw_strncmpa fw (bytes_at m xsdp) (cstr ''RSD PTR '') 8 \<noteq> 0 then halt ''Invalid XSDP.''
     else let r = add_bytes m xsdp 0 20 in
     if r \<noteq> 0 then halt ''Invalid XSDP.''
     else let r = add_bytes m xsdp r 36 in
     if r \<noteq> 0 then halt ''Invalid XSDP.''
     else let xsdt = load64 m (xsdp + 24) in
     if fw_strncmpa fw (bytes_at m xsdt) (cstr ''XSDT'') 4 \<noteq> 0 then halt ''Invalid XSDT.''
     else let r = add_bytes m xsdt r (unat (load32 m (xsdt + 4))) in
     if r \<noteq> 0 then halt ''Invalid XSDT.''
     else ret xsdt)"

section \<open>efi_main\<close>

text \<open>
  What the run depends on of the stack frame of \<open>efi_main\<close>: the values that \<open>mem_map_size\<close> and
  \<open>xsdp\<close> hold before they are set, and the address of \<open>BootInfo\<close>.
\<close>

record frame =
  f_mem_map_size :: u64
  f_xsdp :: u64
  f_bootinfo :: u64

definition make_bootinfo :: "gop \<Rightarrow> u64 \<times> u64 \<times> u64 \<Rightarrow> u64 \<Rightarrow> BOOTDISK_ADDRESS \<Rightarrow> BOOTINFO" where
  "make_bootinfo g = (\<lambda>(mem_map, mem_map_size, desc_size) xsdt bootdisk_addr.
     \<lparr>bi_gop = \<lparr>gop_framebuffer_base = gop_base g, gop_framebuffer_size = gop_size g,
        gop_width = gop_hres g, gop_height = gop_vres g, gop_pixels_per_scanline = gop_pps g\<rparr>,
      bi_mem_map = \<lparr>mm_map = mem_map, mm_size = mem_map_size, mm_desc_size = desc_size\<rparr>,
      bi_xsdt_addr = xsdt, bi_bootdisk_addr = bootdisk_addr\<rparr>)"

text \<open>Lines 509 to 534; the result is where the loader jumps and the argument it passes.\<close>

definition start_kernel :: "firmware \<Rightarrow> frame \<Rightarrow> u64 \<Rightarrow> BOOTDISK_ADDRESS \<Rightarrow> (u64 \<times> u64) loader" where
  "start_kernel fw fr entry bootdisk_addr =
     andthen (get_memory_map fw (f_mem_map_size fr)) (\<lambda>(mem_map, mem_map_size, mem_map_key, desc_size).
     andthen (get_xsdt fw (f_xsdp fr)) (\<lambda>xsdt.
     andthen (get_gop fw) (\<lambda>g.
     andthen get_mem (\<lambda>m.
     andthen (set_mem (store_bootinfo m (f_bootinfo fr)
       (make_bootinfo g (mem_map, mem_map_size, desc_size) xsdt bootdisk_addr))) (\<lambda>_.
     andthen (call fw Clear_console) (\<lambda>_.
     andthen (call fw (Exit_boot_services mem_map_key)) (\<lambda>_.
     ret (entry, f_bootinfo fr))))))))"

definition efi_main :: "firmware \<Rightarrow> frame \<Rightarrow> (u64 \<times> u64) loader" where
  "efi_main fw fr =
     andthen (open_gop fw) (\<lambda>_.
     andthen (get_kernel fw) (\<lambda>(Kernel, bootdisk_addr).
     andthen (parse_elf fw Kernel) (\<lambda>entry.
     start_kernel fw fr entry bootdisk_addr)))"

end
