(* ===== verification/Loader_Example.thy ===== *)
theory Loader_Example
  imports Bootloader
begin

text \<open>
  A concrete machine for the boot loader: a disk with a GPT, an ext2 partition with blocks of 2048
  bytes and a small ELF file \<open>/boot/kernel\<close>, ACPI tables in memory, and a firmware whose
  \<open>ReadBlocks\<close> copies from that disk and whose \<open>AllocatePool\<close> gives the n-th call the buffer at
  \<open>0x10000 * (n + 1)\<close>.
\<close>

section \<open>The disk\<close>

definition ex_text :: "nat \<Rightarrow> string \<Rightarrow> (nat \<times> u8) list" where
  "ex_text a s = zip [a..<a + length s] (map of_char s)"

definition ex_disk_bytes :: "(nat \<times> u8) list" where
  "ex_disk_bytes =
     ex_text 512 ''EFI PART'' @ [(512 + 72, 2), (512 + 80, 1)] @
     [(1024 + 32, 4)] @
     [(3072 + 24, 1), (3072 + 40, 16), (3072 + 56, 0x53), (3072 + 57, 0xef), (3072 + 88, 128)] @
     [(4096 + 8, 2)] @
     [(6272 + 1, 0x40), (6272 + 28, 4), (6272 + 40, 3)] @
     [(6400 + 28, 4), (6400 + 40, 4)] @
     [(6528 + 28, 4), (6528 + 40, 5)] @
     [(8192, 2), (8196, 12), (8198, 1)] @ ex_text 8200 ''.'' @
     [(8204, 3), (8208, 12), (8210, 4)] @ ex_text 8212 ''boot'' @
     [(10240, 4), (10244, 16), (10246, 6)] @ ex_text 10248 ''kernel'' @
     [(12288, 0x7f)] @ ex_text 12289 ''ELF'' @
     [(12292, 2), (12293, 1), (12304, 2), (12306, 62), (12308, 1), (12314, 0x20), (12320, 64), (12342, 56), (12344, 1)] @
     [(12352, 1), (12360, 128), (12378, 0x20), (12384, 2), (12393, 0x10)] @
     [(12416, 0xEB), (12417, 0xFE)]"

definition ex_disk :: "nat \<Rightarrow> u8" where
  "ex_disk i = (case map_of ex_disk_bytes i of Some b \<Rightarrow> b | None \<Rightarrow> 0)"

section \<open>The firmware\<close>

definition ex_ram :: mem where
  "ex_ram a = (case map_of (ex_text 0x9000 ''RSD PTR '' @ [(0x9008, 225), (0x9014, 36), (0x9019, 0xA0), (0x9020, 60)] @
     ex_text 0xA000 ''XSDT'' @ [(0xA004, 36), (0xA009, 153)]) (unat a) of Some b \<Rightarrow> b | None \<Rightarrow> 0)"

definition ex_guid :: EFI_GUID where
  "ex_guid = \<lparr>Data1 = 0x8868e871, Data2 = 0xe4f1, Data3 = 0x11d3, Data4 = [0xbc, 0x22, 0x00, 0x80, 0xc7, 0x3c, 0x88, 0x81]\<rparr>"

text \<open>What a call gives back: the n-th buffer, the address asked for, the resolution, the one disk,
  the size, key and descriptor size of the memory map.\<close>

definition ex_out :: "nat \<Rightarrow> efi_call \<Rightarrow> nat \<Rightarrow> u64" where
  "ex_out n c i = (case c of
     Allocate_pool _ \<Rightarrow> 0x10000 * (of_nat n + 1)
   | Allocate_pages _ a \<Rightarrow> a
   | Query_mode _ \<Rightarrow> (if i = 0 then 1920 else 1080)
   | Locate_block_ios \<Rightarrow> (if i = 0 then 1 else 0x8000)
   | Get_memory_map _ _ \<Rightarrow> (if i = 0 then 96 else if i = 1 then 7 else 48)
   | Get_location _ \<Rightarrow> (if i = 2 then 3 else 0)
   | _ \<Rightarrow> 1)"

definition read_disk :: "(nat \<Rightarrow> u8) \<Rightarrow> u64 \<Rightarrow> u64 \<Rightarrow> u64 \<Rightarrow> mem \<Rightarrow> mem" where
  "read_disk disk lba sz buf m b = (if b - buf < sz then disk (unat lba * 512 + unat (b - buf)) else m b)"

definition disk_mem :: "nat \<Rightarrow> efi_call \<Rightarrow> mem \<Rightarrow> mem" where
  "disk_mem n c m = (case c of Read_blocks _ _ lba sz buf \<Rightarrow> read_disk ex_disk lba sz buf m | _ \<Rightarrow> m)"

definition ex_gop :: gop where
  "ex_gop = \<lparr>gop_mode_null = False, gop_mode = 0, gop_max_mode = 1, gop_base = 0xC0000000, gop_size = 0x7E9000,
     gop_hres = 1920, gop_vres = 1080, gop_pps = 1920\<rparr>"

definition ex_fw :: firmware where
  "ex_fw = \<lparr>fw_status = \<lambda>_ _. 0, fw_out = ex_out, fw_mem = disk_mem, fw_gop = \<lambda>_. ex_gop,
     fw_partition = \<lambda>_. False, fw_media = \<lambda>_. 0, fw_tables = [(ex_guid, 0x9000)],
     fw_error = \<lambda>s. bit s 63, fw_not_started = 0x8000000000000013, fw_acpi20 = ex_guid, fw_sizeof_descriptor = 40,
     fw_strncmpa = strncmp\<rparr>"

definition ex_frame :: frame where
  "ex_frame = \<lparr>f_mem_map_size = 0, f_xsdp = 0, f_bootinfo = 0x7000\<rparr>"

definition ex_start :: efi where
  "ex_start = \<lparr>e_mem = ex_ram, e_calls = []\<rparr>"

section \<open>Running the loader on it\<close>

text \<open>One step of the loader each: a call adds to the log, and a read of a block to memory.\<close>

lemma fw_simps [simp]:
  "fw_status ex_fw n c = 0" "fw_out ex_fw = ex_out" "fw_mem ex_fw = disk_mem" "fw_gop ex_fw n = ex_gop"
  "fw_partition ex_fw h = False" "fw_media ex_fw h = 0" "fw_tables ex_fw = [(ex_guid, 0x9000)]"
  "fw_error ex_fw s = bit s 63" "fw_not_started ex_fw = 0x8000000000000013" "fw_acpi20 ex_fw = ex_guid"
  "fw_sizeof_descriptor ex_fw = 40" "fw_strncmpa ex_fw = strncmp"
  by (simp_all add: ex_fw_def)

lemma step_must: "andthen (must ex_fw msg c) q \<lparr>e_mem = m, e_calls = cs\<rparr> =
   q (ex_out (length cs) c) \<lparr>e_mem = disk_mem (length cs) c m, e_calls = cs @ [(c, 0)]\<rparr>"
  by (simp add: andthen_def must_eq Let_def)

lemma step_call: "andthen (call ex_fw c) q \<lparr>e_mem = m, e_calls = cs\<rparr> =
   q (0, ex_out (length cs) c) \<lparr>e_mem = disk_mem (length cs) c m, e_calls = cs @ [(c, 0)]\<rparr>"
  by (simp add: andthen_def call_eq Let_def)

lemma step_get: "andthen get_mem q \<lparr>e_mem = m, e_calls = cs\<rparr> = q m \<lparr>e_mem = m, e_calls = cs\<rparr>"
  by (simp add: andthen_def get_mem_def)

lemma step_set: "andthen (set_mem m') q \<lparr>e_mem = m, e_calls = cs\<rparr> = q () \<lparr>e_mem = m', e_calls = cs\<rparr>"
  by (simp add: andthen_def set_mem_def)

lemma step_gop: "andthen (get_gop ex_fw) q \<lparr>e_mem = m, e_calls = cs\<rparr> = q ex_gop \<lparr>e_mem = m, e_calls = cs\<rparr>"
  by (simp add: andthen_def get_gop_def)

lemmas disk_text = ex_disk_def ex_disk_bytes_def ex_text_def upt_rec of_char_def
lemmas ram_text = ex_ram_def ex_text_def upt_rec of_char_def
lemmas steps = step_must step_call step_get step_set step_gop ex_out_def disk_mem_def ret_def halt_def

abbreviation m1 where "m1 \<equiv> read_disk ex_disk 1 512 0x60000 ex_ram"
abbreviation m2 where "m2 \<equiv> read_disk ex_disk 2 128 0xD0000 m1"
abbreviation m3 where "m3 \<equiv> read_disk ex_disk 6 512 0xE0000 m2"
abbreviation m4 where "m4 \<equiv> read_disk ex_disk 8 2048 0x130000 m3"
abbreviation m5 where "m5 \<equiv> read_disk ex_disk 12 2048 0x140000 m4"

lemma run_gop: "andthen (open_gop ex_fw) q \<lparr>e_mem = m, e_calls = []\<rparr> = q () \<lparr>e_mem = m, e_calls =
   [(Locate_gop, 0), (Query_mode 0, 0), (Query_mode 0, 0), (Set_mode 0, 0)]\<rparr>"
  by (simp add: open_gop_def andthen_assoc steps ex_gop_def)

lemma strncmp_numeral: "strncmp_from s1 s2 i (numeral k) =
   (if s1 i \<noteq> 0 \<or> s2 i \<noteq> 0 then (if s1 i \<noteq> s2 i then (if sint (s1 i) > sint (s2 i) then 1 else - 1)
    else strncmp_from s1 s2 (Suc i) (pred_numeral k)) else 0)"
  by (simp add: numeral_eq_Suc)

lemmas text_eval = strncmp_def strncmp_numeral bytes_at_def cstr_def

lemma ex_sign: "strncmp (bytes_at m1 0x60000) (cstr ''EFI PART'') 8 = 0"
  by (simp add: text_eval read_disk_def disk_text)

lemma run_disk:
  assumes "length cs = 6"
  shows "andthen (find_disk ex_fw 0x8000 0x60000 0 (Suc 0)) q \<lparr>e_mem = ex_ram, e_calls = cs\<rparr> =
    q (\<lparr>d_block_io = 1, d_media = 0\<rparr>, \<lparr>bd_seg = 0, bd_bus = 0, bd_dev = 3, bd_func = 0\<rparr>) \<lparr>e_mem = m1, e_calls =
   cs @ [(Open_block_io 0, 0), (Read_blocks 1 0 1 512 0x60000, 0), (Open_device_path 0, 0), (Locate_pci 1, 0), (Open_pci 1, 0), (Get_location 1, 0)]\<rparr>"
proof -
  have "load64 ex_ram 0x8000 = 0" by (simp add: load_numeral ram_text)
  with ex_sign assms show ?thesis 
  by (simp add: andthen_assoc steps)
qed

lemma run_partition:
  assumes "length cs = 12"
  shows "andthen (open_partition ex_fw \<lparr>d_block_io = 1, d_media = 0\<rparr> 0x60000) q \<lparr>e_mem = m1, e_calls = cs\<rparr> =
    q (4, 0xE0000) \<lparr>e_mem = m3, e_calls = cs @ [(Allocate_pool 128, 0), (Allocate_pool 512, 0), (Read_blocks 1 0 2 128 0xD0000, 0),
       (Read_blocks 1 0 6 512 0xE0000, 0), (Free_pool 0xD0000, 0), (Free_pool 0x60000, 0)]\<rparr>"
proof -
  have "gpt_part_tbl_start_lba m1 0x60000 = 2" "gpt_part_entry_num m1 0x60000 = 1"
    "part_start_lba m2 0xD0000 0 = 4" "part_start_lba m3 0xD0000 0 = 4" "sb_magic m3 0xE0000 = 0xef53"
    by (simp_all add: gpt_part_tbl_start_lba_def gpt_part_entry_num_def part_start_lba_def sb_magic_def load_numeral read_disk_def disk_text)
  with assms show ?thesis 
  by (simp add: open_partition_def andthen_assoc steps)
qed

abbreviation ex_ext2 where "ex_ext2 \<equiv> \<lparr>x_disk = \<lparr>d_block_io = 1, d_media = 0\<rparr>, x_start_lba = 4, x_block_size = 2048,
  x_inode_size = 128, x_inode_per_group = 16, x_groups = 0x130000, x_inodes = 0x140000\<rparr>"

lemma run_ext2:
  assumes "length cs = 18"
  shows "andthen (open_ext2 ex_fw \<lparr>d_block_io = 1, d_media = 0\<rparr> 4 0xE0000) q \<lparr>e_mem = m3, e_calls = cs\<rparr> =
    q ex_ext2 \<lparr>e_mem = m5, e_calls = cs @ [(Allocate_pool 2048, 0), (Allocate_pool 2048, 0), (Read_blocks 1 0 8 2048 0x130000, 0),
       (Read_blocks 1 0 12 2048 0x140000, 0)]\<rparr>"
proof -
  have "block_size_of m3 0xE0000 = 2048"
    by (simp add: block_size_of_def sb_log_block_size_def load_numeral read_disk_def disk_text)
  moreover have "sb_inode_size m3 0xE0000 = 128" "sb_inode_per_group m3 0xE0000 = 16" "bg_inode_table m4 0x130000 0 = 2"
    by (simp_all add: sb_inode_size_def sb_inode_per_group_def bg_inode_table_def load_numeral read_disk_def disk_text)
  ultimately show ?thesis using assms
  by (simp add: open_ext2_def read_block_def andthen_assoc steps)
qed

abbreviation m6 where "m6 \<equiv> read_disk ex_disk 16 2048 0x170000 m5"
abbreviation m7 where "m7 \<equiv> read_disk ex_disk 12 2048 0x140000 m6"
abbreviation m8 where "m8 \<equiv> read_disk ex_disk 20 2048 0x1A0000 m7"
abbreviation m9 where "m9 \<equiv> read_disk ex_disk 12 2048 0x140000 m8"
abbreviation m10 where "m10 \<equiv> read_disk ex_disk 24 2048 0x1D0000 m9"

lemma step_call_bind: "Option.bind (must ex_fw msg c \<lparr>e_mem = m, e_calls = cs\<rparr>) f =
   f (Inr (ex_out (length cs) c), \<lparr>e_mem = disk_mem (length cs) c m, e_calls = cs @ [(c, 0)]\<rparr>)"
  by (simp add: must_eq Let_def)

text \<open>A file of one block of the file system.\<close>

lemma run_file:
  assumes "inode_block_cnt m inode = 4" "inode_block m inode 0 = b" "length cs < 100"
    and "inode_block_cnt (read_disk ex_disk (4 + ucast b * 2048 div 512) 2048 (0x10000 * (of_nat (length cs) + 1)) m) inode = 4"
  shows "andthen (read_file ex_fw am rm ex_ext2 inode) q \<lparr>e_mem = m, e_calls = cs\<rparr> =
    q (0x10000 * (of_nat (length cs) + 1)) \<lparr>e_mem = read_disk ex_disk (4 + ucast b * 2048 div 512) 2048 (0x10000 * (of_nat (length cs) + 1)) m,
      e_calls = cs @ [(Allocate_pool 2048, 0), (Read_blocks 1 0 (4 + ucast b * 2048 div 512) 2048 (0x10000 * (of_nat (length cs) + 1)), 0)]\<rparr>"
proof -
   show ?thesis
  using assms
  apply (simp add: read_file_def andthen_assoc steps inode_bytes_def)
  apply (subst andthen_def)
  apply (subst read_file_from.simps)
  apply (simp add: read_block_def inode_bytes_def step_call_bind steps)
  apply (subst read_file_from.simps)
  apply (simp add: inode_bytes_def)
  done
qed

lemma step_search:
  "andthen (search_dir ex_fw msg name inode dir) q \<lparr>e_mem = m, e_calls = cs\<rparr> =
     Option.bind (find_entry ex_fw name m (ucast (inode_bytes m inode)) dir 0)
       (\<lambda>r. case r of None \<Rightarrow> Some (Inl (Halted msg), \<lparr>e_mem = m, e_calls = cs\<rparr>) | Some e \<Rightarrow> q e \<lparr>e_mem = m, e_calls = cs\<rparr>)"
  by (auto simp: andthen_def search_dir_def halt_def ret_def split: option.splits Option.bind_splits)

lemmas dir_eval = de_inode_def de_rec_len_def de_name_len_def text_eval load_numeral read_disk_def disk_text

lemma find_boot: "find_entry ex_fw ''boot'' m6 b 0x170000 0 = Some (Some 0x17000C)"
proof -
  have 1: "strncmp (bytes_at m6 (0x170000 + 8)) (cstr ''boot'') (Suc (Suc (Suc (Suc 0)))) \<noteq> 0" "de_name_len m6 0x170000 = 1" "de_rec_len m6 0x170000 = 12"
   and 2: "strncmp (bytes_at m6 (0x17000C + 8)) (cstr ''boot'') (Suc (Suc (Suc (Suc 0)))) = 0"
    by (simp_all add: dir_eval)
  from 1 have "find_entry ex_fw ''boot'' m6 b 0x170000 0 = find_entry ex_fw ''boot'' m6 b 0x17000C 1"
    by (subst find_entry.simps) simp
  also have "\<dots> = Some (Some 0x17000C)" using 2 by (subst find_entry.simps) simp
  finally show ?thesis .
qed

lemma find_kernel: "find_entry ex_fw ''kernel'' m8 b 0x1A0000 0 = Some (Some 0x1A0000)"
proof -
  have "strncmp (bytes_at m8 (0x1A0000 + 8)) (cstr ''kernel'') (Suc (Suc (Suc (Suc (Suc (Suc 0)))))) = 0"
    by (simp add: dir_eval)
  then show ?thesis by (subst find_entry.simps) simp
qed

lemma run_walk:
  assumes "length cs = 22"
  shows "andthen (walk_to_kernel ex_fw ex_ext2) q \<lparr>e_mem = m5, e_calls = cs\<rparr> =
    q (0x170000, 0x1A0000, 0x1D0000) \<lparr>e_mem = m10, e_calls = cs @
      [(Allocate_pool 2048, 0), (Read_blocks 1 0 16 2048 0x170000, 0), (Read_blocks 1 0 12 2048 0x140000, 0),
       (Allocate_pool 2048, 0), (Read_blocks 1 0 20 2048 0x1A0000, 0), (Read_blocks 1 0 12 2048 0x140000, 0),
       (Allocate_pool 2048, 0), (Read_blocks 1 0 24 2048 0x1D0000, 0)]\<rparr>"
proof -
  have mode: "inode_mode m5 0x140080 = 0x4000" 
    by (simp add: inode_mode_def load_numeral read_disk_def disk_text)
  have cnt: "inode_block_cnt m5 0x140080 = 4" "inode_block m5 0x140080 0 = 3" "inode_block_cnt m6 0x140080 = 4"
     "inode_block_cnt m7 0x140100 = 4" "inode_block m7 0x140100 0 = 4" "inode_block_cnt m8 0x140100 = 4"
     "inode_block_cnt m9 0x140180 = 4" "inode_block m9 0x140180 0 = 5" "inode_block_cnt m10 0x140180 = 4"
    by (simp_all add: inode_block_cnt_def inode_block_def load_numeral read_disk_def disk_text)
  have ino: "de_inode m6 0x17000C = 3" "de_inode m8 0x1A0000 = 4" "bg_inode_table m6 0x130000 0 = 2" "bg_inode_table m8 0x130000 0 = 2"
    by (simp_all add: dir_eval bg_inode_table_def)
  show ?thesis using assms
   by (simp add: walk_to_kernel_def root_inode_def mode cnt run_file andthen_assoc steps step_search find_boot find_kernel load_inode_def ino read_block_def)
qed

definition get_kernel_calls :: "(efi_call \<times> u64) list" where
  "get_kernel_calls = map (\<lambda>c. (c, 0))
     [Locate_block_ios, Allocate_pool 512,
      Open_block_io 0, Read_blocks 1 0 1 512 0x60000, Open_device_path 0, Locate_pci 1, Open_pci 1, Get_location 1,
      Allocate_pool 128, Allocate_pool 512, Read_blocks 1 0 2 128 0xD0000, Read_blocks 1 0 6 512 0xE0000,
      Free_pool 0xD0000, Free_pool 0x60000,
      Allocate_pool 2048, Allocate_pool 2048, Read_blocks 1 0 8 2048 0x130000, Read_blocks 1 0 12 2048 0x140000,
      Allocate_pool 2048, Read_blocks 1 0 16 2048 0x170000, Read_blocks 1 0 12 2048 0x140000,
      Allocate_pool 2048, Read_blocks 1 0 20 2048 0x1A0000, Read_blocks 1 0 12 2048 0x140000,
      Allocate_pool 2048, Read_blocks 1 0 24 2048 0x1D0000,
      Free_pool 0x130000, Free_pool 0xE0000, Free_pool 0x140000, Free_pool 0x170000, Free_pool 0x1A0000]"

lemma run_get_kernel:
  assumes "length cs = 4"
  shows "andthen (get_kernel ex_fw) q \<lparr>e_mem = ex_ram, e_calls = cs\<rparr> =
    q (0x1D0000, \<lparr>bd_seg = 0, bd_bus = 0, bd_dev = 3, bd_func = 0\<rparr>) \<lparr>e_mem = m10, e_calls = cs @ get_kernel_calls\<rparr>"
  using assms
  by (simp add: get_kernel_def andthen_assoc case_prod_unfold steps run_disk run_partition run_ext2 run_walk get_kernel_calls_def
      del: find_disk.simps)

abbreviation m11 where "m11 \<equiv> memcpy m10 0x240000 0x1D0040 56"

lemma m11: "m11 b = (if b - 0x240000 < 56 then m10 (0x1D0040 + (b - 0x240000)) else m10 b)"
  by (subst memcpy_apply) (auto simp: in_region_def word_less_nat_alt intro!: apartI)

abbreviation m12 where "m12 \<equiv> copy_segment m11 0x200000 0x1D0000 0x240000 2"

lemma run_elf:
  assumes "length cs = 35" "last_status \<lparr>e_mem = m10, e_calls = cs\<rparr> = 0"
  shows "andthen (parse_elf ex_fw 0x1D0000) q \<lparr>e_mem = m10, e_calls = cs\<rparr> =
    q 0x200000 \<lparr>e_mem = m12, e_calls = cs @ [(Allocate_pool 56, 0), (Allocate_pages 1 0x200000, 0)]\<rparr>"
proof -
  have h: "load_ehdr m10 0x1D0000 = \<lparr>e_ident = [0x7f, 0x45, 0x4c, 0x46, 2, 1, 0, 0, 0, 0, 0, 0, 0, 0, 0, 0], e_type = 2,
     e_machine = 62, e_version = 1, e_entry = 0x200000, e_phoff = 64, e_phentsize = 56, e_phnum = 1\<rparr>"
    by (simp add: load_ehdr_def load_numeral read_disk_def disk_text)
  have p: "load_phdr m11 0x240000 = \<lparr>p_type = 1, p_offset = 128, p_paddr = 0x200000, p_filesz = 2, p_memsz = 0x1000\<rparr>"
    by (simp add: load_phdr_def load_numeral m11 read_disk_def disk_text)
  have "load_segments ex_fw 0x1D0000 56 0x240038 0x240000 \<lparr>e_mem = m11, e_calls = ds\<rparr> =
     Some (Inr (), \<lparr>e_mem = m12, e_calls = ds @ [(Allocate_pages 1 0x200000, 0)]\<rparr>)" for ds
    apply (subst load_segments.simps)
    apply (simp add: load_segment_def steps p del: copy_segment.simps)
    apply (subst load_segments.simps)
    apply (simp add: set_mem_def)
    done
  then have seg: "andthen (load_segments ex_fw 0x1D0000 56 0x240038 0x240000) q' \<lparr>e_mem = m11, e_calls = ds\<rparr> =
     q' () \<lparr>e_mem = m12, e_calls = ds @ [(Allocate_pages 1 0x200000, 0)]\<rparr>" for ds q'
    by (simp add: andthen_def)
  have chk: "andthen (check_ehdr ex_fw h) q' \<lparr>e_mem = m10, e_calls = cs\<rparr> = q' () \<lparr>e_mem = m10, e_calls = cs\<rparr>" for h q'
    using assms by (simp add: check_ehdr_def andthen_def ret_def)
  show ?thesis using assms
    by (simp add: parse_elf_def h andthen_assoc steps phdr_bytes_def chk seg)
qed

lemma read_disk_below: "b < buf \<Longrightarrow> unat buf + unat sz \<le> 2 ^ 64 \<Longrightarrow> read_disk disk lba sz buf m b = m b"
  using not_in_region_below [of b buf "unat sz"] by (auto simp: read_disk_def in_region_def word_less_nat_alt)

lemma m12_low:
  assumes "b < 0x10000"
  shows "m12 b = ex_ram b"
proof -
  have le: "b < a" if "0x10000 \<le> a" for a using assms that by simp
  have "m12 b = m11 b" by (rule copy_segment_other) (simp_all add: not_in_region_below le)
  also have "\<dots> = m10 b" by (rule memcpy_other) (simp_all add: not_in_region_below le)
  also have "\<dots> = ex_ram b" by (simp add: read_disk_below le)
  finally show ?thesis .
qed

lemma add_bytes_numeral: "add_bytes m a r (numeral k) = add_bytes m a r (pred_numeral k) + m (a + of_nat (pred_numeral k))"
  by (simp add: numeral_eq_Suc)

lemma run_start:
  assumes "length cs = 37"
  shows "\<exists>ds m. start_kernel ex_fw ex_frame e bd \<lparr>e_mem = m12, e_calls = cs\<rparr> = Some (Inr (e, 0x7000), \<lparr>e_mem = m, e_calls = cs @ ds\<rparr>)"
proof -
  have x: "get_xsdt ex_fw 0 \<lparr>e_mem = m12, e_calls = ds\<rparr> = Some (Inr 0xA000, \<lparr>e_mem = m12, e_calls = ds\<rparr>)" for ds
  proof -
    have xsdp: "find_xsdp ex_fw 0 = 0x9000" by (simp add: find_xsdp_def guidcmp_def memcmp_iff)
    have "strncmp (bytes_at m12 0x9000) (cstr ''RSD PTR '') 8 = 0" "strncmp (bytes_at m12 0xA000) (cstr ''XSDT'') 4 = 0"
      by (simp_all add: text_eval m12_low ram_text del: copy_segment.simps)
    moreover have "add_bytes m12 0x9000 0 20 = 0" "add_bytes m12 0x9000 0 36 = 0" "add_bytes m12 0xA000 0 36 = 0"
      by (simp_all add: add_bytes_numeral m12_low ram_text del: copy_segment.simps)
    moreover have "load64 m12 (0x9000 + 24) = 0xA000" "load32 m12 (0xA000 + 4) = 36"
      by (simp_all add: load_numeral m12_low ram_text del: copy_segment.simps)
    ultimately show ?thesis by (simp add: get_xsdt_def xsdp steps del: copy_segment.simps)
  qed
  have y: "andthen (get_xsdt ex_fw 0) q \<lparr>e_mem = m12, e_calls = ds\<rparr> = q 0xA000 \<lparr>e_mem = m12, e_calls = ds\<rparr>" for q ds
    by (simp add: andthen_def x)
  show ?thesis using assms
    by (simp add: start_kernel_def get_memory_map_def ex_frame_def andthen_assoc steps y del: copy_segment.simps)
qed

lemma loader_run: "\<exists>st'. efi_main ex_fw ex_frame ex_start = Some (Inr (0x200000, 0x7000), st')"
  using run_start [of "[(Locate_gop, 0), (Query_mode 0, 0), (Query_mode 0, 0), (Set_mode 0, 0)] @ get_kernel_calls @ 
    [(Allocate_pool 56, 0), (Allocate_pages 1 0x200000, 0)]" "0x200000" "\<lparr>bd_seg = 0, bd_bus = 0, bd_dev = 3, bd_func = 0\<rparr>"] 
    by (auto simp: efi_main_def ex_start_def run_gop run_get_kernel run_elf get_kernel_calls_def last_status_def simp del: copy_segment.simps)

end
