(* ===== verification/Loader_Trace.thy ===== *)
theory Loader_Trace
  imports Loader_Example
begin

text \<open>
  What a run of the boot loader leaves in the log of its calls. \<open>logs P p\<close> says that \<open>p\<close> only
  appends calls that satisfy \<open>P\<close> when it gets to its end; the rules follow the structure of the
  loader, so that each part needs one step.
\<close>

section \<open>A rule for every construct\<close>

definition logs :: "(efi_call \<times> u64 \<Rightarrow> bool) \<Rightarrow> 'a loader \<Rightarrow> bool" where
  "logs P p \<longleftrightarrow> (\<forall>st x st'. p st = Some (Inr x, st') \<longrightarrow> (\<exists>cs. e_calls st' = e_calls st @ cs \<and> list_all P cs))"

named_theorems logs_intros "rules for the log of a part of the loader"

lemma logsD: "logs P p \<Longrightarrow> p st = Some (Inr x, st') \<Longrightarrow> \<exists>cs. e_calls st' = e_calls st @ cs \<and> list_all P cs"
  by (simp add: logs_def)

lemma logs_ret [logs_intros]: "logs P (ret x)"
  and logs_halt [logs_intros]: "logs P (halt msg)"
  and logs_stop [logs_intros]: "logs P (\<lambda>st. Some (Inl e, st))"
  and logs_get_mem [logs_intros]: "logs P get_mem"
  and logs_set_mem [logs_intros]: "logs P (set_mem m)"
  and logs_get_gop [logs_intros]: "logs P (get_gop fw)"
  by (auto simp: logs_def ret_def halt_def get_mem_def set_mem_def get_gop_def intro!: exI [of _ "[]"])

lemma logs_andthen [logs_intros]:
  assumes "logs P p" and "\<And>x. logs P (q x)"
  shows "logs P (andthen p q)"
  unfolding logs_def
proof (intro allI impI)
  fix st x st'
  assume "andthen p q st = Some (Inr x, st')"
  then obtain y st1 where "p st = Some (Inr y, st1)" "q y st1 = Some (Inr x, st')"
    by (auto simp: andthen_Some)
  with assms [THEN logsD] obtain cs ds
    where "e_calls st1 = e_calls st @ cs" "list_all P cs" "e_calls st' = e_calls st1 @ ds" "list_all P ds"
    by metis
  then show "\<exists>cs. e_calls st' = e_calls st @ cs \<and> list_all P cs" by (intro exI [of _ "cs @ ds"]) simp
qed

lemma logs_call: "(\<And>s. P (c, s)) \<Longrightarrow> logs P (call fw c)"
  by (simp add: logs_def call_def Let_def)

lemma logs_must: "(\<And>s. \<not> fw_error fw s \<Longrightarrow> P (c, s)) \<Longrightarrow> logs P (must fw msg c)"
  by (simp add: logs_def must_eq Let_def)

lemma logs_if [logs_intros]: "(b \<Longrightarrow> logs P p) \<Longrightarrow> (\<not> b \<Longrightarrow> logs P q) \<Longrightarrow> logs P (if b then p else q)"
  by simp

lemma logs_let [logs_intros]: "(\<And>x. x = v \<Longrightarrow> logs P (p x)) \<Longrightarrow> logs P (let x = v in p x)"
  by (simp add: Let_def)

lemma logs_case_prod [logs_intros]: "(\<And>a b. r = (a, b) \<Longrightarrow> logs P (p a b)) \<Longrightarrow> logs P (case r of (a, b) \<Rightarrow> p a b)"
  by (cases r) simp

section \<open>The calls whose failure the loader tolerates before it has the kernel\<close>

text \<open>
  A call that fails is the first query of the graphics mode, the opening of a disk, or the reading
  of one block of 512 bytes in the search of the disk and the partition.
\<close>

definition tolerated :: "efi_call \<Rightarrow> bool" where
  "tolerated c = (case c of Query_mode _ \<Rightarrow> True | Open_block_io _ \<Rightarrow> True
     | Read_blocks _ _ _ n _ \<Rightarrow> n = 512 | _ \<Rightarrow> False)"

definition ok_call :: "firmware \<Rightarrow> efi_call \<times> u64 \<Rightarrow> bool" where
  "ok_call fw = (\<lambda>(c, s). fw_error fw s \<longrightarrow> tolerated c)"

lemma ok_must [logs_intros]: "logs (ok_call fw) (must fw msg c)"
  by (rule logs_must) (simp add: ok_call_def)

lemma ok_tolerated [logs_intros]: "tolerated c \<Longrightarrow> logs (ok_call fw) (call fw c)"
  by (rule logs_call) (simp add: ok_call_def)

lemmas tolerated_simps = tolerated_def efi_call.case

lemma logs_find_mode [logs_intros]: "logs (ok_call fw) (find_mode fw i k)"
  by (induction k arbitrary: i) (auto intro!: logs_intros)

lemma logs_open_gop [logs_intros]: "logs (ok_call fw) (open_gop fw)"
  unfolding open_gop_def by (intro logs_intros) (simp add: tolerated_simps)

lemma logs_find_disk [logs_intros]: "logs (ok_call fw) (find_disk fw ios gpt i k)"
  by (induction k arbitrary: i) (auto intro!: logs_intros simp: tolerated_simps)

lemma logs_find_partition [logs_intros]: "logs (ok_call fw) (find_partition fw d t sb i k)"
  by (induction k arbitrary: i) (auto intro!: logs_intros simp: tolerated_simps)

lemma logs_read_block [logs_intros]: "logs (ok_call fw) (read_block fw msg x b buf)"
  unfolding read_block_def by (rule ok_must)

lemma logs_step:
  assumes "logs P p" and "Option.bind (p st) (\<lambda>(r, st). case r of Inl e \<Rightarrow> Some (Inl e, st) | Inr y \<Rightarrow> q y st) = Some (Inr x, st')"
    and "\<And>y st1. q y st1 = Some (Inr x, st') \<Longrightarrow> \<exists>cs. e_calls st' = e_calls st1 @ cs \<and> list_all P cs"
  shows "\<exists>cs. e_calls st' = e_calls st @ cs \<and> list_all P cs"
proof -
  obtain y st1 where "p st = Some (Inr y, st1)" "q y st1 = Some (Inr x, st')"
    using assms(2) andthen_Some [of p q st "Inr x" st'] by (auto simp: andthen_def)
  with logsD [OF assms(1)] assms(3) obtain cs ds
    where "e_calls st1 = e_calls st @ cs" "list_all P cs" "e_calls st' = e_calls st1 @ ds" "list_all P ds"
    by metis
  then show ?thesis by (intro exI [of _ "cs @ ds"]) simp
qed

lemma logs_read_file_from [logs_intros]:
  assumes "\<And>b a. logs P (rd b a)"
  shows "logs P (read_file_from rd bs inode buf i)"
proof -
  have "\<exists>cs. e_calls st' = e_calls st @ cs \<and> list_all P cs"
    if "read_file_from rd bs inode buf i st = Some y" "y = (Inr u, st')" "\<forall>b a. logs P (rd b a)" for st y u st'
    using that
  proof (induction rd bs inode buf i st y rule: read_file_from.raw_induct [rotated, consumes 1])
    case (1 rec rd bs inode buf i st y)
    show ?case
    proof (cases "i < ucast (inode_bytes (e_mem st) inode) div bs")
      case True
      have "logs P (rd (inode_block (e_mem st) inode i) (buf + bs * i))" using 1(4) by blast
      moreover have "Option.bind (rd (inode_block (e_mem st) inode i) (buf + bs * i) st)
        (\<lambda>(r, st). case r of Inl e \<Rightarrow> Some (Inl e, st) | Inr v \<Rightarrow> rec rd bs inode buf (i + 1) st) = Some (Inr u, st')"
        using 1(2,3) True by simp
      ultimately show ?thesis by (rule logs_step) (rule 1(1) [OF _ refl 1(4)])
    next
      case False
      with 1(2,3) show ?thesis by simp
    qed
  qed
  with assms show ?thesis by (auto simp: logs_def)
qed

lemma logs_read_file [logs_intros]: "logs (ok_call fw) (read_file fw am rm x inode)"
  unfolding read_file_def by (intro logs_intros)

lemma logs_search_dir [logs_intros]: "logs P (search_dir fw msg name inode dir)"
  by (auto simp: logs_def search_dir_def halt_def ret_def split: option.splits Option.bind_splits)

lemma logs_load_inode [logs_intros]: "logs (ok_call fw) (load_inode fw x ino)"
  unfolding load_inode_def by (intro logs_intros)

lemma logs_get_kernel [logs_intros]: "logs (ok_call fw) (get_kernel fw)"
  unfolding get_kernel_def open_partition_def open_ext2_def walk_to_kernel_def by (intro logs_intros)

lemma logs_check_ehdr [logs_intros]: "logs P (check_ehdr fw h)"
  by (auto simp: logs_def check_ehdr_def halt_def ret_def Let_def split: if_splits)

lemma logs_load_segment [logs_intros]: "logs (ok_call fw) (load_segment fw k p)"
  unfolding load_segment_def by (intro logs_intros)

lemma logs_load_segments [logs_intros]: "logs (ok_call fw) (load_segments fw k sz e p)"
proof -
  have "\<exists>cs. e_calls st' = e_calls st @ cs \<and> list_all (ok_call fw) cs"
    if "load_segments fw k sz e p st = Some y" "y = (Inr u, st')" for st y u st'
    using that
  proof (induction fw k sz e p st y rule: load_segments.raw_induct [rotated, consumes 1])
    case (1 rec fw k sz e p st y)
    show ?case
    proof (cases "p < e")
      case True
      have "Option.bind (load_segment fw k p st)
        (\<lambda>(r, st). case r of Inl e \<Rightarrow> Some (Inl e, st) | Inr v \<Rightarrow> rec fw k sz e (p + ucast sz) st) = Some (Inr u, st')"
        using 1(2,3) True by simp
      with logs_load_segment show ?thesis by (rule logs_step) (rule 1(1) [OF _ refl])
    next
      case False
      with 1(2,3) show ?thesis by simp
    qed
  qed
  then show ?thesis by (auto simp: logs_def)
qed

lemma logs_parse_elf [logs_intros]: "logs (ok_call fw) (parse_elf fw k)"
  unfolding parse_elf_def by (intro logs_intros)

section \<open>The end of a run\<close>

lemma get_xsdt_state: "get_xsdt fw x st = Some (Inr a, st') \<Longrightarrow> st' = st"
  by (auto simp: get_xsdt_def andthen_def get_mem_def halt_def ret_def Let_def split: if_splits)

lemma start_kernel_log:
  assumes "start_kernel fw fr entry bd st = Some (Inr r, st')"
  shows "\<exists>sz buf key s1 s2 s3 s4 s5.
     e_calls st' = e_calls st @
       [(Get_memory_map (f_mem_map_size fr) 0, s1), (Allocate_pool sz, s2),
        (Get_memory_map (sz + (fw_sizeof_descriptor fw + 8)) buf, s3),
        (Clear_console, s4), (Exit_boot_services key, s5)] \<and>
     \<not> fw_error fw s3 \<and>
     key = fw_out fw (length (e_calls st) + 2) (Get_memory_map (sz + (fw_sizeof_descriptor fw + 8)) buf) 1 \<and>
     r = (entry, f_bootinfo fr)"
proof -
  obtain mm st1 where 1: "get_memory_map fw (f_mem_map_size fr) st = Some (Inr mm, st1)"
    and 2: "andthen (get_xsdt fw (f_xsdp fr)) (\<lambda>xsdt.
       andthen (get_gop fw) (\<lambda>g. andthen get_mem (\<lambda>m.
       andthen (set_mem (store_bootinfo m (f_bootinfo fr)
         (make_bootinfo g (fst mm, fst (snd mm), snd (snd (snd mm))) xsdt bd))) (\<lambda>_.
       andthen (call fw Clear_console) (\<lambda>_.
       andthen (call fw (Exit_boot_services (fst (snd (snd mm))))) (\<lambda>_. ret (entry, f_bootinfo fr))))))) st1 = Some (Inr r, st')"
    using assms by (fastforce simp: start_kernel_def andthen_Some case_prod_unfold)
  obtain xsdt where 3: "get_xsdt fw (f_xsdp fr) st1 = Some (Inr xsdt, st1)"
    using 2 get_xsdt_state by (fastforce simp: andthen_Some)
  show ?thesis
    using 1 2 3
    by (auto simp: get_memory_map_def andthen_def call_eq must_eq get_gop_def get_mem_def set_mem_def ret_def Let_def
        split: if_splits)
qed



end
