(* ===== verification/Loader_Props.thy ===== *)
theory Loader_Props
  imports Loader_Trace
begin

text \<open>
  What the boot loader decides: the search of a directory, the check of the ELF header, the
  validation of the ACPI root table, and the structure that the kernel reads.
\<close>

section \<open>The search of a directory\<close>

text \<open>The address of the k-th entry, whether it has the name, and whether its name fits its record.\<close>

primrec entry_at :: "mem \<Rightarrow> u64 \<Rightarrow> nat \<Rightarrow> u64" where
  "entry_at m dir 0 = dir"
| "entry_at m dir (Suc k) = entry_at m dir k + ucast (de_rec_len m (entry_at m dir k))"

definition named :: "firmware \<Rightarrow> string \<Rightarrow> mem \<Rightarrow> u64 \<Rightarrow> bool" where
  "named fw name m a \<longleftrightarrow> fw_strncmpa fw (bytes_at m (a + 8)) (cstr name) (length name) = 0"

definition fits :: "mem \<Rightarrow> u64 \<Rightarrow> bool" where
  "fits m a \<longleftrightarrow> uint (de_name_len m a) \<le> uint (de_rec_len m a) - 8"

definition passed :: "firmware \<Rightarrow> string \<Rightarrow> mem \<Rightarrow> u64 \<Rightarrow> bool" where
  "passed fw name m a \<longleftrightarrow> \<not> named fw name m a \<and> fits m a"

text \<open>The entry at which the search ends: the first that is not passed, or the one after \<open>bound\<close>.\<close>

definition ends_at :: "firmware \<Rightarrow> string \<Rightarrow> mem \<Rightarrow> u64 \<Rightarrow> nat \<Rightarrow> nat \<Rightarrow> bool" where
  "ends_at fw name m dir bound k \<longleftrightarrow>
     (\<forall>j<k. passed fw name m (entry_at m dir j)) \<and> k \<le> bound + 1 \<and>
     (k = bound + 1 \<or> \<not> passed fw name m (entry_at m dir k))"

lemma find_entry_step:
  "find_entry fw name m bound tmp i =
     (if named fw name m tmp then Some (Some tmp)
      else if \<not> fits m tmp then find_entry fw name m bound tmp (i + 1)
      else if i > bound then Some None
      else find_entry fw name m bound (tmp + ucast (de_rec_len m tmp)) (i + 1))"
  by (subst find_entry.simps) (simp add: named_def fits_def)

lemma find_entry_stuck:
  assumes "\<not> named fw name m tmp" and "\<not> fits m tmp"
  shows "find_entry fw name m bound tmp i = None"
proof -
  have "find_entry fw name m bound tmp i = Some y \<Longrightarrow> named fw name m tmp \<or> fits m tmp" for y
  proof (induction fw name m bound tmp i y rule: find_entry.raw_induct [rotated, consumes 1])
    case (1 rec fw name m bound tmp i y)
    from 1(2) show ?case
      using 1(1) [of fw name m bound tmp "i + 1" y]
      by (fastforce simp: named_def fits_def split: if_splits)
  qed
  with assms show ?thesis by (cases "find_entry fw name m bound tmp i") auto
qed

lemma find_entry_passes:
  assumes "\<And>j. j < k \<Longrightarrow> passed fw name m (entry_at m dir j)" and "k \<le> unat bound + 1" and "unat bound + 1 < 2 ^ 64"
  shows "find_entry fw name m bound dir 0 = find_entry fw name m bound (entry_at m dir k) (of_nat k)"
  using assms(1,2)
proof (induction k)
  case (Suc k)
  have "passed fw name m (entry_at m dir k)" using Suc.prems(1) by simp
  moreover have "\<not> of_nat k > bound"
    using Suc.prems(2) assms(3) by (simp add: word_less_nat_alt)
  ultimately have "find_entry fw name m bound (entry_at m dir k) (of_nat k) =
      find_entry fw name m bound (entry_at m dir (Suc k)) (of_nat (Suc k))"
    by (subst find_entry_step) (simp add: passed_def add.commute)
  with Suc show ?case by simp
qed simp

lemma ends_at_exists: "\<exists>k. ends_at fw name m dir bound k"
proof (cases "\<forall>j \<le> bound. passed fw name m (entry_at m dir j)")
  case True
  then have "ends_at fw name m dir bound (bound + 1)" by (simp add: ends_at_def less_Suc_eq_le)
  then show ?thesis ..
next
  case False
  define k where "k = (LEAST j. \<not> passed fw name m (entry_at m dir j))"
  obtain j where "j \<le> bound" "\<not> passed fw name m (entry_at m dir j)" using False by blast
  then have "\<not> passed fw name m (entry_at m dir k)" unfolding k_def by (intro LeastI)
  moreover have "k \<le> bound"
    unfolding k_def using \<open>j \<le> bound\<close> \<open>\<not> passed fw name m (entry_at m dir j)\<close> by (meson Least_le order_trans)
  moreover have "\<forall>j<k. passed fw name m (entry_at m dir j)"
    unfolding k_def using not_less_Least by blast
  ultimately have "ends_at fw name m dir bound k" by (simp add: ends_at_def)
  then show ?thesis ..
qed

text \<open>Passed entries are at least eight bytes long, so the search moves on by that much.\<close>

lemma entry_at_advances:
  "(\<And>j. j < k \<Longrightarrow> passed fw name m (entry_at m dir j)) \<Longrightarrow>
     \<exists>d. entry_at m dir k = dir + of_nat d \<and> 8 * k \<le> d \<and> d < 65536 * k + 1"
proof (induction k)
  case (Suc k)
  then obtain d where d: "entry_at m dir k = dir + of_nat d" "8 * k \<le> d" "d < 65536 * k + 1" by auto
  define r where "r = unat (de_rec_len m (entry_at m dir k))"
  have "fits m (entry_at m dir k)" using Suc.prems [of k] by (simp add: passed_def)
  then have "8 \<le> uint (de_rec_len m (entry_at m dir k))"
    using unsigned_greater_eq [of "de_name_len m (entry_at m dir k)", where ?'a = int] unfolding fits_def by linarith
  moreover have "uint (de_rec_len m (entry_at m dir k)) = int r" by (simp add: r_def)
  ultimately have "8 \<le> r" by linarith
  moreover have "r < 65536" using unsigned_less [of "de_rec_len m (entry_at m dir k)", where ?'a = nat] by (simp add: r_def)
  moreover have "entry_at m dir (Suc k) = dir + of_nat (d + r)" by (simp add: d(1) r_def)
  ultimately show ?case using d(2,3) by (intro exI [of _ "d + r"]) simp
qed simp


text \<open>
  C15: the search of a directory ends at the first entry that has the name or does not fit its
  record. In the first case it is the result, in the second the search never ends. Only if it
  passes one more entry than the directory has bytes does it report that the name is missing, and
  then it has left the directory, because every entry it passed takes eight bytes or more.
\<close>

theorem search_of_a_directory:
  fixes bound :: u32
  shows "\<exists>k d. ends_at fw name m dir (unat bound) k \<and>
     entry_at m dir k = dir + of_nat d \<and> 8 * k \<le> d \<and> d < 2 ^ 64 \<and>
     find_entry fw name m (ucast bound) dir 0 =
       (let e = entry_at m dir k
        in if named fw name m e then Some (Some e) else if fits m e then Some None else None)"
proof -
  obtain k where k: "ends_at fw name m dir (unat bound) k" using ends_at_exists by blast
  have b: "unat bound < 2 ^ 32" using unsigned_less [of bound, where ?'a = nat] by simp
  from k have pre: "\<And>j. j < k \<Longrightarrow> passed fw name m (entry_at m dir j)" and le: "k \<le> unat bound + 1"
    by (auto simp: ends_at_def)
  obtain d where d: "entry_at m dir k = dir + of_nat d" "8 * k \<le> d" "d < 65536 * k + 1"
    using entry_at_advances [OF pre] by blast
  have "d < 2 ^ 64" using d(3) le b by simp
  have "find_entry fw name m (ucast bound) dir 0 = find_entry fw name m (ucast bound) (entry_at m dir k) (of_nat k)"
    using pre le b by (intro find_entry_passes) (simp_all add: unat_ucast_32_64)
  also have "\<dots> = (let e = entry_at m dir k in if named fw name m e then Some (Some e) else if fits m e then Some None else None)"
  proof (cases "named fw name m (entry_at m dir k) \<or> \<not> fits m (entry_at m dir k)")
    case True
    then show ?thesis
      by (cases "named fw name m (entry_at m dir k)") (subst find_entry_step, simp, simp add: find_entry_stuck)
  next
    case False
    with k have "k = unat bound + 1" by (auto simp: ends_at_def passed_def)
    moreover have "unat (of_nat k :: u64) = k" using b le by (intro unat_of_nat_64) simp
    ultimately have "ucast bound < (of_nat k :: u64)" by (simp only: word_less_nat_alt unat_ucast_32_64)
    with False show ?thesis by (subst find_entry_step) simp
  qed
  finally show ?thesis using k d \<open>d < 2 ^ 64\<close> by blast
qed

section \<open>The check of the ELF header\<close>

lemma last_status_must: "must fw msg c st = Some (Inr x, st') \<Longrightarrow> \<not> fw_error fw (last_status st')"
  by (auto simp: must_eq last_status_def Let_def split: if_splits)

text \<open>
  C38: the check of the ELF header rejects nothing. An invalid header sets the status to 1, which
  is no error code (those have the top bit set), and otherwise the status is that of the last
  call, which succeeded. So the loader goes on with any file.
\<close>

theorem any_elf_accepted:
  assumes "get_kernel fw st = Some (Inr r, st')" and "\<And>s. fw_error fw s \<longleftrightarrow> bit s 63"
  shows "check_ehdr fw ehdr st' = Some (Inr (), st')"
proof -
  have "\<not> fw_error fw (last_status st')"
    using assms(1) by (auto simp: get_kernel_def andthen_Some case_prod_unfold Let_def ret_def dest: last_status_must)
  then show ?thesis by (simp add: check_ehdr_def assms(2) ret_def)
qed

theorem any_elf_accepted_witness:
  "\<exists>st. check_ehdr ex_fw (load_ehdr (\<lambda>_. 0) 0) st = Some (Inr (), st) \<and> ehdr_invalid (load_ehdr (\<lambda>_. 0) 0)"
proof -
  obtain st' where "get_kernel ex_fw \<lparr>e_mem = ex_ram, e_calls = replicate 4 (Locate_gop, 0)\<rparr> = Some (Inr (0x1D0000, \<lparr>bd_seg = 0, bd_bus = 0, bd_dev = 3, bd_func = 0\<rparr>), st')"
    using run_get_kernel [of "replicate 4 (Locate_gop, 0)" ret] by (simp add: ret_def)
  then have "check_ehdr ex_fw (load_ehdr (\<lambda>_. 0) 0) st' = Some (Inr (), st')"
    by (rule any_elf_accepted) simp
  moreover have "ehdr_invalid (load_ehdr (\<lambda>_. 0) 0)"
    by (simp add: ehdr_invalid_def load_ehdr_def load_numeral)
  ultimately show ?thesis by blast
qed

end
