(* ===== verification/Loader_Files.thy ===== *)
theory Loader_Files
  imports Loader_Props
begin

text \<open>
  What the boot loader brings into memory: the blocks of a file of the ext2 file system, and the
  segments of the kernel file. What the firmware promises is stated as predicates on its record.
\<close>

section \<open>The promises of the firmware\<close>

text \<open>A read that succeeds fills the buffer with the sectors of the disk and changes nothing else.\<close>

definition reads_disk :: "firmware \<Rightarrow> (nat \<Rightarrow> u8) \<Rightarrow> bool" where
  "reads_disk fw disk \<longleftrightarrow> (\<forall>n d md lba sz buf m. let c = Read_blocks d md lba sz buf in
     \<not> fw_error fw (fw_status fw n c) \<longrightarrow> fw_mem fw n c m = read_disk disk lba sz buf m)"

text \<open>An allocation changes no byte outside what it allocates.\<close>

definition pool_keeps :: "firmware \<Rightarrow> bool" where
  "pool_keeps fw \<longleftrightarrow> (\<forall>n sz m b. let c = Allocate_pool sz in
     \<not> in_region (fw_out fw n c 0) (unat sz) b \<longrightarrow> fw_mem fw n c m b = m b)"

lemma read_disk_region:
  "read_disk disk lba sz buf m b = (if in_region buf (unat sz) b then disk (unat lba * 512 + unat (b - buf)) else m b)"
  by (simp add: read_disk_def in_region_def word_less_nat_alt)

section \<open>The blocks of a file\<close>

text \<open>The sector where a block of the file system starts, and the inode fields within its record.\<close>

definition block_lba :: "ext2 \<Rightarrow> u32 \<Rightarrow> u64" where
  "block_lba x b = x_start_lba x + ucast b * x_block_size x div lba_size"

lemma read_block_effect:
  assumes "reads_disk fw disk" and "read_block fw msg x b buf st = Some (Inr out, st')"
  shows "e_mem st' = read_disk disk (block_lba x b) (x_block_size x) buf (e_mem st)"
  using assms by (auto simp: read_block_def must_eq reads_disk_def block_lba_def Let_def split: if_splits)

lemma inode_cong:
  assumes "\<And>b. in_region inode 128 b \<Longrightarrow> m b = m' b"
  shows "inode_bytes m inode = inode_bytes m' inode"
    and "i < 22 \<Longrightarrow> inode_block m inode (of_nat i) = inode_block m' inode (of_nat i)"
proof -
  show "inode_bytes m inode = inode_bytes m' inode"
    by (simp add: inode_bytes_def inode_block_cnt_def field_cong [OF assms])
  assume "i < 22"
  then have "load_le 4 m (inode + of_nat (40 + i * 4)) = (load_le 4 m' (inode + of_nat (40 + i * 4)) :: u32)"
    by (intro load_field_cong [OF assms]) (assumption | linarith | simp)+
  then show "inode_block m inode (of_nat i) = inode_block m' inode (of_nat i)"
    by (simp add: inode_block_def add.assoc)
qed

text \<open>The part of a buffer that holds the blocks before the i-th, and what lies outside of it.\<close>

definition file_blocks :: "(nat \<Rightarrow> nat \<Rightarrow> u8) \<Rightarrow> nat \<Rightarrow> u64 \<Rightarrow> nat \<Rightarrow> mem \<Rightarrow> bool" where
  "file_blocks content bs buf n m \<longleftrightarrow> (\<forall>k<n. \<forall>j<bs. m (buf + of_nat (k * bs + j)) = content k j)"

definition same_outside :: "u64 \<Rightarrow> nat \<Rightarrow> mem \<Rightarrow> mem \<Rightarrow> bool" where
  "same_outside buf n m m' \<longleftrightarrow> (\<forall>b. \<not> in_region buf n b \<longrightarrow> m' b = m b)"

lemma read_next_block:
  assumes "file_blocks content (unat bs) buf i m" and "same_outside buf n m0 m"
    and "(i + 1) * unat bs \<le> n" and "n < 2 ^ 64"
    and "\<And>j. j < unat bs \<Longrightarrow> disk (unat lba * 512 + j) = content i j"
  shows "file_blocks content (unat bs) buf (i + 1) (read_disk disk lba bs (buf + of_nat (i * unat bs)) m)"
    and "same_outside buf n m0 (read_disk disk lba bs (buf + of_nat (i * unat bs)) m)"
proof -
  let ?m = "read_disk disk lba bs (buf + of_nat (i * unat bs)) m"
  show "same_outside buf n m0 ?m"
    using assms(2-4) in_region_part [of buf "i * unat bs" "unat bs" _ n]
    by (auto simp: same_outside_def read_disk_region)
  have "?m (buf + of_nat (k * unat bs + j)) = content k j" if "k < i + 1" "j < unat bs" for k j
  proof (cases "k = i")
    case True
    have "j < 2 ^ 64" using less_trans [OF that(2) unat_less_64] by simp
    then have "in_region (buf + of_nat (i * unat bs)) (unat bs) (buf + of_nat (i * unat bs) + of_nat j)"
      and "unat (of_nat j :: u64) = j"
      using that(2) by (simp only: in_region_offset, simp)
    then show ?thesis using assms(5) [OF that(2)] True
      by (simp add: read_disk_region add.assoc)
  next
    case False
    with that have k: "k < i" by simp
    then have "k * unat bs + unat bs \<le> i * unat bs" by (metis Suc_leI add.commute mult_Suc mult_le_mono1)
    moreover have "i * unat bs + unat bs \<le> n" using assms(3) by simp
    ultimately have "apart (buf + of_nat (i * unat bs)) (unat bs) (buf + of_nat (k * unat bs)) (unat bs)"
      using assms(4) by (intro apart_offset) linarith+
    then have "\<not> in_region (buf + of_nat (i * unat bs)) (unat bs) (buf + of_nat (k * unat bs) + of_nat j)"
      using that(2) by (simp add: apart_def)
    then show ?thesis using assms(1) k that(2) by (simp add: read_disk_region file_blocks_def add.assoc)
  qed
  then show "file_blocks content (unat bs) buf (i + 1) ?m" by (simp add: file_blocks_def)
qed


text \<open>From the i-th block to the last of the \<open>d\<close> blocks left.\<close>

lemma read_file_loop:
  assumes docs: "reads_disk fw disk"
    and inode: "\<And>b. in_region inode 128 b \<Longrightarrow> \<not> in_region buf n b"
    and n: "n = unat (inode_bytes m0 inode)" and d: "n div unat bs = i + d" "i + d \<le> 22"
    and bs: "bs = x_block_size x" "bs \<noteq> 0"
    and inv: "file_blocks (\<lambda>k j. disk (unat (block_lba x (inode_block m0 inode (of_nat k))) * 512 + j)) (unat bs) buf i (e_mem st)"
      "same_outside buf n m0 (e_mem st)"
    and run: "read_file_from (read_block fw msg x) bs inode buf (of_nat i) st = Some (Inr u, st')"
  shows "file_blocks (\<lambda>k j. disk (unat (block_lba x (inode_block m0 inode (of_nat k))) * 512 + j)) (unat bs) buf (i + d) (e_mem st') \<and>
     same_outside buf n m0 (e_mem st')"
  using d inv run
proof (induction d arbitrary: i st)
  case 0
  have same: "m0 b = e_mem st b" if "in_region inode 128 b" for b
    using 0(4) inode [OF that] by (simp add: same_outside_def)
  have "unat (ucast (inode_bytes (e_mem st) inode) div bs :: u64) = i"
    using 0(1) n inode_cong(1) [of inode m0 "e_mem st", OF same] by (simp add: unat_div unat_ucast_32_64)
  then have "\<not> of_nat i < ucast (inode_bytes (e_mem st) inode) div bs" 
    using 0(2) by (simp add: word_less_nat_alt)
  with 0(5) have "st' = st" by (subst (asm) read_file_from.simps) simp
  with 0(3,4) show ?case by simp
next
  case (Suc d)
  have same: "m0 b = e_mem st b" if "in_region inode 128 b" for b
    using Suc.prems(4) inode [OF that] by (simp add: same_outside_def)
  have "unat (ucast (inode_bytes (e_mem st) inode) div bs :: u64) = i + Suc d"
    using Suc.prems(1) n inode_cong(1) [of inode m0 "e_mem st", OF same] by (simp add: unat_div unat_ucast_32_64)
  then have more: "of_nat i < ucast (inode_bytes (e_mem st) inode) div bs" 
    using Suc.prems(2) by (simp add: word_less_nat_alt)
  let ?b = "inode_block m0 inode (of_nat i)"
  have blk: "inode_block (e_mem st) inode (of_nat i) = ?b"
    using inode_cong(2) [of inode m0 "e_mem st" i, OF same] Suc.prems(2) by simp
  have pos: "buf + bs * of_nat i = buf + of_nat (i * unat bs)" by (simp add: mult.commute)
  from Suc.prems(5) more obtain out st1 where 1: "read_block fw msg x ?b (buf + of_nat (i * unat bs)) st = Some (Inr out, st1)"
    and 2: "read_file_from (read_block fw msg x) bs inode buf (of_nat (i + 1)) st1 = Some (Inr u, st')"
    by (subst (asm) (2) read_file_from.simps)
      (auto simp: blk pos add.commute split: Option.bind_splits sum.splits)
  have m1: "e_mem st1 = read_disk disk (block_lba x ?b) bs (buf + of_nat (i * unat bs)) (e_mem st)"
    using read_block_effect [OF docs 1] bs by simp
  have "(i + 1) * unat bs \<le> n"
    using Suc.prems(1) mult_le_mono1 [of "i + 1" "n div unat bs" "unat bs"] div_times_less_eq_dividend [of n "unat bs"] by linarith
  moreover have "n < 2 ^ 64" using n unsigned_less [of "inode_bytes m0 inode", where ?'a = nat] by simp
  ultimately have "file_blocks (\<lambda>k j. disk (unat (block_lba x (inode_block m0 inode (of_nat k))) * 512 + j)) (unat bs) buf (i + 1) (e_mem st1)"
    "same_outside buf n m0 (e_mem st1)"
    unfolding m1 using read_next_block [OF Suc.prems(3,4)] by simp_all
  with Suc.IH [of "i + 1" st1] Suc.prems(1,2) 2 show ?case by simp
qed

text \<open>
  C14: reading a file brings its blocks into memory, one after the other: byte \<open>j\<close> of block \<open>k\<close> of
  the buffer is byte \<open>j\<close> of the disk from the sector where block \<open>k\<close> of the inode starts, for as many
  blocks as the block count of the inode makes, and no byte outside the buffer changes. The count includes the
  blocks that hold block numbers, and \<open>k\<close> runs through the fields of the inode in order, so from \<open>k = 12\<close> on
  what is read as data is a block of block numbers, and from 15 on the block number itself is
  another field. Firmware: reads fill their buffer from the disk, allocations change nothing else,
  and the buffer does not overlap the inode.
\<close>

theorem file_read:
  assumes "read_file fw alloc_msg read_msg x inode st = Some (Inr buf, st')"
    and "reads_disk fw disk" and "pool_keeps fw"
    and "\<And>b. in_region inode 128 b \<Longrightarrow> \<not> in_region buf (unat (inode_bytes (e_mem st) inode)) b"
    and "unat (inode_bytes (e_mem st) inode) div unat (x_block_size x) \<le> 22"
  shows "file_blocks (\<lambda>k j. disk (unat (block_lba x (inode_block (e_mem st) inode (of_nat k))) * 512 + j))
      (unat (x_block_size x)) buf (unat (inode_bytes (e_mem st) inode) div unat (x_block_size x)) (e_mem st') \<and>
    same_outside buf (unat (inode_bytes (e_mem st) inode)) (e_mem st) (e_mem st')"
proof -
  let ?n = "inode_bytes (e_mem st) inode"
  obtain out st1 where 1: "must fw alloc_msg (Allocate_pool (ucast ?n)) st = Some (Inr out, st1)" "buf = out 0"
    and bs: "x_block_size x \<noteq> 0"
    and 2: "read_file_from (read_block fw read_msg x) (x_block_size x) inode buf (of_nat 0) st1 = Some (Inr (), st')"
    using assms(1) by (auto simp: read_file_def andthen_Some get_mem_def ret_def split: if_splits)
  have "same_outside buf (unat ?n) (e_mem st) (e_mem st1)"
    using 1 assms(3) by (auto simp: must_eq same_outside_def pool_keeps_def unat_ucast_32_64 Let_def split: if_splits)
  from read_file_loop [OF assms(2) assms(4) refl _ _ refl bs _ this 2,
      of "unat ?n div unat (x_block_size x)"] assms(5)
  show ?thesis by (simp add: file_blocks_def)
qed

lemma reads_disk_example: "reads_disk ex_fw ex_disk"
  by (simp add: reads_disk_def disk_mem_def)

lemma pool_keeps_example: "pool_keeps ex_fw"
  by (simp add: pool_keeps_def disk_mem_def)

text \<open>The kernel file of the example.\<close>

theorem file_read_witness:
  "\<exists>st'. read_file ex_fw [] [] ex_ext2 0x140180 \<lparr>e_mem = m9, e_calls = []\<rparr> = Some (Inr 0x10000, st') \<and>
     file_blocks (\<lambda>k j. ex_disk (unat (block_lba ex_ext2 (inode_block m9 0x140180 (of_nat k))) * 512 + j)) 2048 0x10000 1 (e_mem st')"
proof -
  have c: "inode_block_cnt m9 0x140180 = 4" "inode_block m9 0x140180 0 = 5"
    "inode_block_cnt (read_disk ex_disk 24 2048 0x10000 m9) 0x140180 = 4"
    by (simp_all add: inode_block_cnt_def inode_block_def load_numeral read_disk_def disk_text)
  then obtain st' where run: "read_file ex_fw [] [] ex_ext2 0x140180 \<lparr>e_mem = m9, e_calls = []\<rparr> = Some (Inr 0x10000, st')"
    using run_file [where m = m9 and inode = "0x140180" and b = 5 and cs = "[]" and am = "[]" and rm = "[]" and q = ret] by (simp add: ret_def)
  have b: "inode_bytes (e_mem \<lparr>e_mem = m9, e_calls = []\<rparr>) 0x140180 = 2048" by (simp add: inode_bytes_def c)
  have "\<not> in_region 0x10000 2048 a" if "in_region 0x140180 128 a" for a :: u64
    using that in_region_nat [of "0x140180" 128 a] in_region_nat [of "0x10000" 2048 a] by auto
  from file_read [OF run reads_disk_example pool_keeps_example] this run show ?thesis unfolding b by fastforce
qed

end
