(* ===== verification/Loader_Elf.thy ===== *)
theory Loader_Elf
  imports Loader_Files
begin

text \<open>
  The segments of the kernel file in memory: what the copy loops of the boot loader do under a
  layout in which nothing that is still to be read is overwritten.
\<close>

section \<open>The copy of one segment\<close>

lemma load_phdr_shift:
  assumes "\<And>i. i < 48 \<Longrightarrow> m' (a' + of_nat i) = m (a + of_nat i)"
  shows "load_phdr m' a' = load_phdr m a"
proof -
  have "m' (a' + of_nat c + of_nat i) = m (a + of_nat c + of_nat i)" if "c + i < 48" for c i
    using assms [OF that] by (simp add: add.assoc)
  note shift = this [where c = "numeral p" for p, unfolded of_nat_numeral] this [where c = 0, unfolded semiring_1_class.of_nat_0 add_0_right]
  have "load_le 4 m' a' = (load_le 4 m a :: u32)" by (rule load_le_shift) (simp add: shift)
  moreover have "load64 m' (a' + 8) = load64 m (a + 8)" "load64 m' (a' + 24) = load64 m (a + 24)"
    "load64 m' (a' + 32) = load64 m (a + 32)" "load64 m' (a' + 40) = load64 m (a + 40)"
    by (rule load_le_shift, simp add: shift)+
  ultimately show ?thesis by (simp add: load_phdr_def)
qed

lemma load_phdr_cong: "(\<And>b. in_region a 48 b \<Longrightarrow> m' b = m b) \<Longrightarrow> load_phdr m' a = load_phdr m a"
  by (rule load_phdr_shift) simp

text \<open>The bytes of the segment arrive when the copy hits neither its header nor its source.\<close>

lemma copy_segment_copies:
  assumes n: "n < 2 ^ 64" and hdr: "\<And>b. in_region seg n b \<Longrightarrow> \<not> in_region p 48 b"
    and src: "\<And>j. j < n \<Longrightarrow> \<not> in_region seg n (k + (p_offset (load_phdr m p) + of_nat j))"
    and j: "j < n"
  shows "copy_segment m seg k p n (seg + of_nat j) = m (k + (p_offset (load_phdr m p) + of_nat j))"
proof -
  let ?src = "\<lambda>j. k + (p_offset (load_phdr m p) + of_nat j)"
  have "i \<le> n \<Longrightarrow> j < i \<Longrightarrow> copy_segment m seg k p i (seg + of_nat j) = m (?src j)" for i
  proof (induction i)
    case (Suc i)
    have same: "copy_segment m seg k p i b = m b" if "\<not> in_region seg n b" for b
      using that Suc.prems n in_region_mono [of seg i b n] by (intro copy_segment_other) auto
    have "load_phdr (copy_segment m seg k p i) p = load_phdr m p"
      using hdr by (intro load_phdr_cong same) blast
    moreover have "copy_segment m seg k p i (?src i) = m (?src i)"
      using src [of i] Suc.prems by (intro same) simp
    moreover have "seg + of_nat j \<noteq> seg + (of_nat i :: u64)" if "j \<noteq> i"
      using that Suc.prems n by (simp add: word_of_nat_eq_iff take_bit_nat_eq_self)
    ultimately show ?case using Suc by (cases "j = i") (auto simp: Let_def)
  qed simp
  with j show ?thesis by simp
qed

section \<open>The layout of the kernel file\<close>

definition loadable :: "Elf64_Phdr \<Rightarrow> bool" where
  "loadable p \<longleftrightarrow> p_type p = 1"

definition phdr_of :: "mem \<Rightarrow> u64 \<Rightarrow> nat \<Rightarrow> Elf64_Phdr" where
  "phdr_of m kf i = (let h = load_ehdr m kf in load_phdr m (kf + e_phoff h + of_nat (i * unat (e_phentsize h))))"

definition headers_size :: "mem \<Rightarrow> u64 \<Rightarrow> nat" where
  "headers_size m kf = (let h = load_ehdr m kf in unat (e_phnum h) * unat (e_phentsize h))"

text \<open>What a segment takes in memory: its pages and, if the file has more, its bytes of the file.\<close>

definition in_segment :: "Elf64_Phdr \<Rightarrow> u64 \<Rightarrow> bool" where
  "in_segment p b \<longleftrightarrow> in_region (p_paddr p) (unat ((p_memsz p + 0x1000 - 1) div 0x1000) * 4096) b \<or>
     in_region (p_paddr p) (unat (p_filesz p)) b"

text \<open>
  The file takes \<open>len\<close> bytes from \<open>kf\<close>; the program headers, not smaller than a header, lie in it, and so do the
  bytes of the segments; the buffer for the headers does not wrap, and buffer, file and segments
  are apart from each other.
\<close>

definition elf_layout :: "mem \<Rightarrow> u64 \<Rightarrow> nat \<Rightarrow> u64 \<Rightarrow> bool" where
  "elf_layout m kf len buf \<longleftrightarrow>
     (let h = load_ehdr m kf; n = unat (e_phnum h); sz = headers_size m kf; p = phdr_of m kf in
      48 \<le> unat (e_phentsize h) \<and> sz < 2 ^ 31 \<and> unat buf + sz < 2 ^ 64 \<and>
      (\<forall>j < sz. in_region kf len (kf + e_phoff h + of_nat j)) \<and>
      (\<forall>b. in_region kf len b \<longrightarrow> \<not> in_region buf sz b) \<and>
      (\<forall>i<n. loadable (p i) \<longrightarrow>
         (\<forall>j<unat (p_filesz (p i)). in_region kf len (kf + (p_offset (p i) + of_nat j))) \<and>
         (\<forall>b. in_segment (p i) b \<longrightarrow> \<not> in_region kf len b \<and> \<not> in_region buf sz b) \<and>
         (\<forall>k<n. k \<noteq> i \<longrightarrow> loadable (p k) \<longrightarrow> (\<forall>b. in_segment (p i) b \<longrightarrow> \<not> in_segment (p k) b))))"

text \<open>\<open>AllocatePages\<close> at an address gives that address and changes nothing outside of its pages.\<close>

definition pages_keep :: "firmware \<Rightarrow> bool" where
  "pages_keep fw \<longleftrightarrow> (\<forall>n k a m. let c = Allocate_pages k a in \<not> fw_error fw (fw_status fw n c) \<longrightarrow>
     fw_out fw n c 0 = a \<and> (\<forall>b. \<not> in_region a (unat k * 4096) b \<longrightarrow> fw_mem fw n c m b = m b))"

section \<open>The loop over the headers\<close>

text \<open>The first \<open>j\<close> headers are done.\<close>

definition segments_done :: "mem \<Rightarrow> u64 \<Rightarrow> nat \<Rightarrow> u64 \<Rightarrow> nat \<Rightarrow> mem \<Rightarrow> bool" where
  "segments_done m kf len buf j m' \<longleftrightarrow>
     (let h = load_ehdr m kf; n = unat (e_phnum h); sz = headers_size m kf; p = phdr_of m kf in
      (\<forall>b. in_region kf len b \<longrightarrow> m' b = m b) \<and>
      (\<forall>t < sz. m' (buf + of_nat t) = m (kf + e_phoff h + of_nat t)) \<and>
      (\<forall>i<j. loadable (p i) \<longrightarrow> (\<forall>t<unat (p_filesz (p i)). m' (p_paddr (p i) + of_nat t) = m (kf + (p_offset (p i) + of_nat t)))) \<and>
      (\<forall>b. \<not> in_region buf sz b \<longrightarrow> (\<forall>i<n. loadable (p i) \<longrightarrow> \<not> in_segment (p i) b) \<longrightarrow> m' b = m b))"

lemma header_copied:
  assumes "elf_layout m kf len buf" and "j < unat (e_phnum (load_ehdr m kf))"
    and "\<And>t. t < headers_size m kf \<Longrightarrow> m' (buf + of_nat t) = m (kf + e_phoff (load_ehdr m kf) + of_nat t)"
  shows "load_phdr m' (buf + of_nat (j * unat (e_phentsize (load_ehdr m kf)))) = phdr_of m kf j"
  unfolding phdr_of_def Let_def
proof (rule load_phdr_shift)
  let ?z = "unat (e_phentsize (load_ehdr m kf))"
  fix i :: nat assume "i < 48"
  then have "j * ?z + i < (j + 1) * ?z" using assms(1) by (simp add: elf_layout_def Let_def)
  also have "\<dots> \<le> headers_size m kf" using assms(2) unfolding headers_size_def Let_def by (intro mult_le_mono1) simp
  finally have "m' (buf + of_nat (j * ?z + i)) = m (kf + e_phoff (load_ehdr m kf) + of_nat (j * ?z + i))" by (rule assms(3))
  then show "m' (buf + of_nat (j * ?z) + of_nat i) = m (kf + e_phoff (load_ehdr m kf) + of_nat (j * ?z) + of_nat i)"
    by (simp add: add.assoc)
qed

text \<open>The memory after one loadable segment, from the memory before.\<close>

lemma load_segment_effect:
  assumes docs: "pages_keep fw" and run: "load_segment fw kf a st = Some (Inr u, st1)"
    and p: "load_phdr (e_mem st) a = p" "loadable p"
    and hdr: "\<And>b. in_segment p b \<Longrightarrow> \<not> in_region a 48 b"
    and src: "\<And>t. t < unat (p_filesz p) \<Longrightarrow> \<not> in_segment p (kf + (p_offset p + of_nat t))"
  shows "\<not> in_segment p b \<Longrightarrow> e_mem st1 b = e_mem st b"
    and "t < unat (p_filesz p) \<Longrightarrow> e_mem st1 (p_paddr p + of_nat t) = e_mem st (kf + (p_offset p + of_nat t))"
proof -
  define n where "n = length (e_calls st)"
  define c where "c = Allocate_pages ((p_memsz p + 0x1000 - 1) div 0x1000) (p_paddr p)"
  define m1 where "m1 = fw_mem fw n c (e_mem st)"
  have out: "fw_out fw n c 0 = p_paddr p" and keep: "\<not> in_segment p b \<Longrightarrow> m1 b = e_mem st b" for b
    using run p docs
    by (auto simp: load_segment_def loadable_def andthen_def get_mem_def must_eq pages_keep_def Let_def n_def c_def m1_def
        in_segment_def split: if_splits)
  have p1: "load_phdr m1 a = p" using hdr keep by (subst p(1) [symmetric]) (rule load_phdr_cong, blast)
  have m: "e_mem st1 = copy_segment m1 (p_paddr p) kf a (unat (p_filesz p))"
    using run p p1 out
    by (auto simp: load_segment_def loadable_def andthen_def get_mem_def set_mem_def must_eq Let_def n_def c_def m1_def
        split: if_splits)
  have seg: "in_region (p_paddr p) (unat (p_filesz p)) b \<Longrightarrow> in_segment p b" for b by (simp add: in_segment_def)
  show "e_mem st1 b = e_mem st b" if "\<not> in_segment p b"
    using that seg keep unsigned_less [of "p_filesz p", where ?'a = nat] unfolding m
    by (subst copy_segment_other) (auto simp: less_imp_le)
  show "e_mem st1 (p_paddr p + of_nat t) = e_mem st (kf + (p_offset p + of_nat t))" if t: "t < unat (p_filesz p)"
  proof -
    have "e_mem st1 (p_paddr p + of_nat t) = m1 (kf + (p_offset p + of_nat t))"
      unfolding m using seg hdr src t by (subst copy_segment_copies) (auto simp: p1)
    also have "\<dots> = e_mem st (kf + (p_offset p + of_nat t))" using src t by (intro keep)
    finally show ?thesis .
  qed
qed

text \<open>What the layout says of one segment, and of one header in the buffer.\<close>

lemma layout_segment:
  assumes "elf_layout m kf len buf" and "i < unat (e_phnum (load_ehdr m kf))" and "loadable (phdr_of m kf i)"
  shows "in_segment (phdr_of m kf i) b \<Longrightarrow> \<not> in_region kf len b"
    and "in_segment (phdr_of m kf i) b \<Longrightarrow> \<not> in_region buf (headers_size m kf) b"
    and "t < unat (p_filesz (phdr_of m kf i)) \<Longrightarrow> in_region kf len (kf + (p_offset (phdr_of m kf i) + of_nat t))"
    and "in_segment (phdr_of m kf i) b \<Longrightarrow> k < unat (e_phnum (load_ehdr m kf)) \<Longrightarrow> k \<noteq> i \<Longrightarrow>
      loadable (phdr_of m kf k) \<Longrightarrow> \<not> in_segment (phdr_of m kf k) b"
  using assms unfolding elf_layout_def Let_def by blast+

lemma header_in_buffer:
  assumes lay: "elf_layout m kf len buf" and j: "j < unat (e_phnum (load_ehdr m kf))"
    and b: "in_region (buf + of_nat (j * unat (e_phentsize (load_ehdr m kf)))) 48 b"
  shows "in_region buf (headers_size m kf) b"
proof (rule in_region_part [OF b])
  let ?z = "unat (e_phentsize (load_ehdr m kf))"
  have "j * ?z + 48 \<le> (j + 1) * ?z" using lay by (simp add: elf_layout_def Let_def)
  also have "\<dots> \<le> headers_size m kf" using j unfolding headers_size_def Let_def by (intro mult_le_mono1) simp
  finally show "j * ?z + 48 \<le> headers_size m kf" .
  show "headers_size m kf < 2 ^ 64" using lay by (simp add: elf_layout_def Let_def)
qed

lemma first_in_segment: "t < unat (p_filesz p) \<Longrightarrow> in_segment p (p_paddr p + of_nat t)"
  using less_trans [OF _ unat_less_64] by (auto simp: in_segment_def)

text \<open>The next segment, whose bytes have come into memory while all others stayed.\<close>

lemma segment_added:
  assumes lay: "elf_layout m kf len buf" and j: "j < unat (e_phnum (load_ehdr m kf))" and p: "loadable (phdr_of m kf j)"
    and inv: "segments_done m kf len buf j mm"
    and same: "\<And>b. \<not> in_segment (phdr_of m kf j) b \<Longrightarrow> mm' b = mm b"
    and new: "\<And>t. t < unat (p_filesz (phdr_of m kf j)) \<Longrightarrow>
      mm' (p_paddr (phdr_of m kf j) + of_nat t) = mm (kf + (p_offset (phdr_of m kf j) + of_nat t))"
  shows "segments_done m kf len buf (j + 1) mm'"
  unfolding segments_done_def Let_def
proof (intro conjI allI impI)
  let ?p = "phdr_of m kf" and ?sz = "headers_size m kf"
  note L = layout_segment [OF lay j p]
  have unread: "mm b = m b" if "in_region kf len b" for b using inv that by (simp add: segments_done_def Let_def)
  show "mm' b = m b" if "in_region kf len b" for b using that L(1) same unread by metis
  show "mm' (buf + of_nat t) = m (kf + e_phoff (load_ehdr m kf) + of_nat t)" if "t < ?sz" for t
  proof -
    have "in_region buf ?sz (buf + of_nat t)" using that lay by (subst in_region_offset) (auto simp: elf_layout_def Let_def)
    then show ?thesis using L(2) same inv that unfolding segments_done_def Let_def by metis
  qed
  show "mm' (p_paddr (?p i) + of_nat t) = m (kf + (p_offset (?p i) + of_nat t))"
    if "i < j + 1" "loadable (?p i)" "t < unat (p_filesz (?p i))" for i t
  proof (cases "i = j")
    case True
    with that(3) new unread L(3) show ?thesis by metis
  next
    case False
    with that(1) have i: "i < j" by simp
    with j that(2) False have "\<not> in_segment (?p j) (p_paddr (?p i) + of_nat t)"
      using L(4) [OF _ _ False that(2)] first_in_segment [OF that(3)] less_trans by blast
    with i that same inv show ?thesis by (simp add: segments_done_def Let_def)
  qed
  show "mm' b = m b" if "\<not> in_region buf ?sz b"
    "\<forall>i<unat (e_phnum (load_ehdr m kf)). loadable (?p i) \<longrightarrow> \<not> in_segment (?p i) b" for b
    using that same p j inv unfolding segments_done_def Let_def by metis
qed

lemma segments_step:
  assumes lay: "elf_layout m kf len buf" and docs: "pages_keep fw"
    and j: "j < unat (e_phnum (load_ehdr m kf))" and inv: "segments_done m kf len buf j (e_mem st)"
    and run: "load_segment fw kf (buf + of_nat (j * unat (e_phentsize (load_ehdr m kf)))) st = Some (Inr u, st1)"
  shows "segments_done m kf len buf (j + 1) (e_mem st1)"
proof -
  let ?a = "buf + of_nat (j * unat (e_phentsize (load_ehdr m kf)))" and ?p = "phdr_of m kf"
  have hd: "load_phdr (e_mem st) ?a = ?p j"
    using inv by (intro header_copied [OF lay j]) (simp add: segments_done_def Let_def)
  show ?thesis
  proof (cases "loadable (?p j)")
    case False
    then have "st1 = st" using run hd by (simp add: load_segment_def andthen_def get_mem_def ret_def loadable_def)
    with inv False show ?thesis by (auto simp: segments_done_def Let_def less_Suc_eq)
  next
    case True
    note L = layout_segment [OF lay j True] and part = header_in_buffer [OF lay j]
    note eff = load_segment_effect [OF docs run hd True]
    show ?thesis
    proof (rule segment_added [OF lay j True inv])
      show "e_mem st1 b = e_mem st b" if "\<not> in_segment (?p j) b" for b using eff(1) L part that by blast
      show "e_mem st1 (p_paddr (?p j) + of_nat t) = e_mem st (kf + (p_offset (?p j) + of_nat t))"
        if "t < unat (p_filesz (?p j))" for t
        using eff(2) L part that by blast
    qed
  qed
qed

section \<open>The whole file\<close>

lemma load_segment_returns:
  "(\<exists>msg st'. load_segment fw kf a st = Some (Inl (Halted msg), st')) \<or> (\<exists>u st'. load_segment fw kf a st = Some (Inr u, st'))"
  by (auto simp: load_segment_def andthen_def get_mem_def set_mem_def must_eq ret_def Let_def)

lemma phdr_bytes_eq:
  assumes "headers_size m kf < 2 ^ 31"
  shows "phdr_bytes (load_ehdr m kf) = of_nat (headers_size m kf)"
proof -
  let ?h = "load_ehdr m kf"
  let ?w = "ucast (e_phnum ?h) * ucast (e_phentsize ?h) :: u32"
  have u: "unat (ucast (x :: u16) :: u32) = unat x" for x
    using unsigned_less [of x, where ?'a = nat] by (simp add: unsigned_ucast_eq take_bit_nat_eq_self)
  have "?w = of_nat (headers_size m kf)" by (simp add: headers_size_def Let_def flip: u)
  then have w: "unat ?w = headers_size m kf" using assms by simp
  then have "uint ?w = int (headers_size m kf)" by (simp only: uint_nat)
  then have "sint ?w = int (headers_size m kf)"
    using assms unfolding sint_uint by (simp add: signed_take_bit_int_eq_self)
  then show ?thesis by (simp only: phdr_bytes_def scast_eq of_int_of_nat_eq)
qed

lemma segments_loop:
  assumes lay: "elf_layout m kf len buf" and docs: "pages_keep fw"
    and "unat (e_phnum (load_ehdr m kf)) = j + d" and "segments_done m kf len buf j (e_mem st)"
  shows "\<exists>r st'. load_segments fw kf (e_phentsize (load_ehdr m kf)) (buf + of_nat (headers_size m kf))
       (buf + of_nat (j * unat (e_phentsize (load_ehdr m kf)))) st = Some (r, st') \<and>
     (case r of Inl e \<Rightarrow> \<exists>msg. e = Halted msg | Inr _ \<Rightarrow> segments_done m kf len buf (j + d) (e_mem st'))"
  using assms(3,4)
proof (induction d arbitrary: j st)
  case 0
  then have "headers_size m kf = j * unat (e_phentsize (load_ehdr m kf))" by (simp add: headers_size_def Let_def)
  with 0(2) show ?case by (subst load_segments.simps) simp
next
  case (Suc d)
  let ?z = "unat (e_phentsize (load_ehdr m kf))"
  let ?a = "buf + of_nat (j * ?z)"
  have u: "unat (buf + of_nat k) = unat buf + k" if "k \<le> headers_size m kf" for k
    using that lay by (subst unat_add_small) (simp_all add: elf_layout_def Let_def)
  have "0 < ?z" using lay by (simp add: elf_layout_def Let_def)
  then have lt: "j * ?z < headers_size m kf"
    using Suc.prems(1) unfolding headers_size_def Let_def by (intro mult_less_mono1) simp
  have more: "?a < buf + of_nat (headers_size m kf)"
    using lt by (simp only: word_less_nat_alt u [OF less_imp_le [OF lt]] u [OF order_refl] nat_add_left_cancel_less)
  from load_segment_returns [of fw kf ?a st] show ?case
  proof (elim disjE exE)
    fix msg st' assume "load_segment fw kf ?a st = Some (Inl (Halted msg), st')"
    with more show ?thesis by (subst load_segments.simps) simp
  next
    fix u st1 assume run: "load_segment fw kf ?a st = Some (Inr u, st1)"
    have "segments_done m kf len buf (j + 1) (e_mem st1)"
      using Suc.prems by (intro segments_step [OF lay docs _ _ run]) simp_all
    from Suc.IH [OF _ this] Suc.prems(1) obtain r st' where
      rest: "load_segments fw kf (e_phentsize (load_ehdr m kf)) (buf + of_nat (headers_size m kf)) (buf + of_nat ((j + 1) * ?z)) st1 = Some (r, st')"
      "case r of Inl e \<Rightarrow> \<exists>msg. e = Halted msg | Inr _ \<Rightarrow> segments_done m kf len buf (j + 1 + d) (e_mem st')"
      by auto
    have nxt: "?a + ucast (e_phentsize (load_ehdr m kf)) = buf + of_nat ((j + 1) * ?z)" by (simp add: distrib_right)
    have one: "load_segments fw kf (e_phentsize (load_ehdr m kf)) (buf + of_nat (headers_size m kf)) ?a st =
        load_segments fw kf (e_phentsize (load_ehdr m kf)) (buf + of_nat (headers_size m kf)) (?a + ucast (e_phentsize (load_ehdr m kf))) st1"
      by (subst (1) load_segments.simps, insert run more, simp)
    have "j + 1 + d = j + Suc d" by simp
    with rest(2) have "case r of Inl e \<Rightarrow> \<exists>msg. e = Halted msg | Inr _ \<Rightarrow> segments_done m kf len buf (j + Suc d) (e_mem st')"
      by (simp only:)
    then show ?thesis using trans [OF one [unfolded nxt] rest(1)] by (intro exI conjI)
  qed
qed

text \<open>
  C4: the loading of the kernel file comes to its end. When no call fails, every loadable segment
  has its bytes of the file from its physical address on, the result is the entry point of the
  header, and outside of the segments and of the copy of the headers no byte has changed. The rest of a
  segment, from its size in the file to its size in memory, is what the allocation left there: the
  loader does not clear it. Firmware: an allocation changes nothing outside of what it
  allocates, and one at an address gives that address; the file, the copy of the headers
  and the segments are apart, as \<open>elf_layout\<close> says.
\<close>

theorem elf_loaded:
  assumes "pool_keeps fw" and "pages_keep fw" and "\<And>s. fw_error fw s \<longleftrightarrow> bit s 63" and "\<not> bit (last_status st) 63"
    and lay: "elf_layout (e_mem st) kf len
      (fw_out fw (length (e_calls st)) (Allocate_pool (phdr_bytes (load_ehdr (e_mem st) kf))) 0)"
  shows "\<exists>r st'. parse_elf fw kf st = Some (r, st') \<and>
     (case r of Inl e \<Rightarrow> \<exists>msg. e = Halted msg
      | Inr entry \<Rightarrow> entry = e_entry (load_ehdr (e_mem st) kf) \<and>
          segments_done (e_mem st) kf len (fw_out fw (length (e_calls st)) (Allocate_pool (phdr_bytes (load_ehdr (e_mem st) kf))) 0)
            (unat (e_phnum (load_ehdr (e_mem st) kf))) (e_mem st'))"
proof -
  let ?m = "e_mem st"
  let ?h = "load_ehdr ?m kf"
  let ?sz = "headers_size ?m kf"
  define c where "c = Allocate_pool (phdr_bytes ?h)"
  define n where "n = length (e_calls st)"
  define buf where "buf = fw_out fw n c 0"
  define m1 where "m1 = fw_mem fw n c ?m"
  have lay: "elf_layout ?m kf len buf" using lay by (simp add: buf_def n_def c_def)
  have sz: "?sz < 2 ^ 31" and big: "unat buf + ?sz < 2 ^ 64" using lay by (simp_all add: elf_layout_def Let_def)
  have bytes: "phdr_bytes ?h = of_nat ?sz" "unat (phdr_bytes ?h) = ?sz" using phdr_bytes_eq [OF sz] sz by simp_all
  have keep: "m1 b = ?m b" if "\<not> in_region buf ?sz b" for b
    using assms(1) that by (simp add: pool_keeps_def Let_def m1_def c_def buf_def bytes(2))
  have file_apart: "\<not> in_region buf ?sz b" if "in_region kf len b" for b using lay that by (simp add: elf_layout_def Let_def)
  have hdr_file: "in_region kf len (kf + e_phoff ?h + of_nat t)" if "t < ?sz" for t using lay that by (simp add: elf_layout_def Let_def)
  define m2 where "m2 = memcpy m1 buf (kf + e_phoff ?h) ?sz"
  have copied: "m2 (buf + of_nat t) = ?m (kf + e_phoff ?h + of_nat t)" if "t < ?sz" for t
  proof -
    have "m2 (buf + of_nat t) = m1 (kf + e_phoff ?h + of_nat t)"
      unfolding m2_def using that sz file_apart hdr_file by (intro memcpy_copies) (simp_all add: apart_def)
    then show ?thesis using keep file_apart hdr_file that by simp
  qed
  have others: "m2 b = ?m b" if "\<not> in_region buf ?sz b" for b
    using that keep sz unfolding m2_def by (subst memcpy_other) simp_all
  let ?st2 = "\<lparr>e_mem = m2, e_calls = e_calls st @ [(c, fw_status fw n c)]\<rparr>"
  have start: "segments_done ?m kf len buf 0 (e_mem ?st2)"
    using copied others file_apart by (simp add: segments_done_def Let_def)
  have "unat (e_phnum ?h) = 0 + unat (e_phnum ?h)" by simp
  from segments_loop [OF lay assms(2) this start] obtain r st' where
    loop: "load_segments fw kf (e_phentsize ?h) (buf + phdr_bytes ?h) buf ?st2 = Some (r, st')"
      "case r of Inl e \<Rightarrow> \<exists>msg. e = Halted msg | Inr _ \<Rightarrow> segments_done ?m kf len buf (unat (e_phnum ?h)) (e_mem st')"
    by (simp only: bytes(1) mult_0 semiring_1_class.of_nat_0 add_0_right add_0_left) blast
  have chk: "check_ehdr fw ?h st = Some (Inr (), st)"
    using assms(4) by (simp add: check_ehdr_def assms(3) ret_def)
  have "parse_elf fw kf st = (if fw_error fw (fw_status fw n c) then Some (Inl (Halted ''Could not allocate buffer for phdr buffer''), \<lparr>e_mem = m1, e_calls = e_calls st @ [(c, fw_status fw n c)]\<rparr>)
     else case load_segments fw kf (e_phentsize ?h) (buf + phdr_bytes ?h) buf ?st2 of
        None \<Rightarrow> None | Some (Inl e, st') \<Rightarrow> Some (Inl e, st') | Some (Inr _, st') \<Rightarrow> Some (Inr (e_entry ?h), st'))"
    by (simp add: parse_elf_def andthen_def get_mem_def set_mem_def chk must_eq ret_def Let_def bytes(2)
        flip: c_def n_def buf_def m1_def m2_def split: option.splits sum.splits)
  with loop show ?thesis
    by (cases "fw_error fw (fw_status fw n c)"; cases r) (auto simp flip: c_def n_def buf_def)
qed

lemma pages_keep_example: "pages_keep ex_fw"
  by (simp add: pages_keep_def disk_mem_def ex_out_def)

text \<open>The file of the example: one segment of two bytes at \<open>0x200000\<close>.\<close>

lemma example_ehdr: "load_ehdr m10 0x1D0000 = \<lparr>e_ident = [0x7f, 0x45, 0x4c, 0x46, 2, 1, 0, 0, 0, 0, 0, 0, 0, 0, 0, 0], e_type = 2,
     e_machine = 62, e_version = 1, e_entry = 0x200000, e_phoff = 64, e_phentsize = 56, e_phnum = 1\<rparr>"
  by (simp add: load_ehdr_def load_numeral read_disk_def disk_text)

lemma example_phdr: "phdr_of m10 0x1D0000 0 = \<lparr>p_type = 1, p_offset = 128, p_paddr = 0x200000, p_filesz = 2, p_memsz = 0x1000\<rparr>"
  by (simp add: phdr_of_def Let_def example_ehdr) (simp add: load_phdr_def load_numeral read_disk_def disk_text)

lemma example_layout: "elf_layout m10 0x1D0000 2048 0x240000"
proof -
  have k: "in_region 0x1D0000 2048 b \<longleftrightarrow> 0x1D0000 \<le> unat b \<and> unat b < 0x1D0800" for b :: u64
    using in_region_nat [of "0x1D0000" 2048 b] by simp
  have f: "in_region 0x240000 56 b \<longleftrightarrow> 0x240000 \<le> unat b \<and> unat b < 0x240038" for b :: u64
    using in_region_nat [of "0x240000" 56 b] by simp
  have "in_region 0x200000 4096 b \<longleftrightarrow> 0x200000 \<le> unat b \<and> unat b < 0x201000"
    "in_region 0x200000 2 b \<longleftrightarrow> 0x200000 \<le> unat b \<and> unat b < 0x200002" for b :: u64
    using in_region_nat [of "0x200000" 4096 b] in_region_nat [of "0x200000" 2 b] by simp_all
  then have s: "in_segment (phdr_of m10 0x1D0000 0) b \<longleftrightarrow> 0x200000 \<le> unat b \<and> unat b < 0x201000" for b
    unfolding example_phdr in_segment_def by auto
  have sz: "headers_size m10 0x1D0000 = 56" by (simp add: headers_size_def Let_def example_ehdr)
  have hdr: "in_region 0x1D0000 2048 (0x1D0040 + of_nat j :: u64)" if "j < 56" for j
  proof -
    have "in_region 0x1D0000 2048 (0x1D0000 + of_nat (64 + j) :: u64)" using that by (subst in_region_offset) simp_all
    then show ?thesis by simp
  qed
  have dat: "in_region 0x1D0000 2048 (0x1D0080 + of_nat j :: u64)" if "j < 2" for j
  proof -
    have "in_region 0x1D0000 2048 (0x1D0000 + of_nat (128 + j) :: u64)" using that by (subst in_region_offset) simp_all
    then show ?thesis by simp
  qed
  show ?thesis
    unfolding elf_layout_def Let_def sz using hdr dat s by (auto simp: example_ehdr k f example_phdr add.assoc [symmetric])
qed

theorem elf_loaded_witness:
  "\<exists>st r st'. elf_layout (e_mem st) 0x1D0000 2048 0x240000 \<and> parse_elf ex_fw 0x1D0000 st = Some (r, st') \<and>
     (case r of Inl e \<Rightarrow> \<exists>msg. e = Halted msg
      | Inr entry \<Rightarrow> entry = 0x200000 \<and> segments_done (e_mem st) 0x1D0000 2048 0x240000 1 (e_mem st'))"
proof -
  let ?st = "\<lparr>e_mem = m10, e_calls = replicate 35 (Locate_gop, 0)\<rparr>"
  have buf: "fw_out ex_fw (length (e_calls ?st)) (Allocate_pool (phdr_bytes (load_ehdr (e_mem ?st) 0x1D0000))) 0 = 0x240000"
    by (simp add: ex_out_def)
  have last: "\<not> bit (last_status ?st) 63" by (simp add: last_status_def)
  have err: "\<And>s. fw_error ex_fw s \<longleftrightarrow> bit s 63" by simp
  have "elf_layout (e_mem ?st) 0x1D0000 2048
      (fw_out ex_fw (length (e_calls ?st)) (Allocate_pool (phdr_bytes (load_ehdr (e_mem ?st) 0x1D0000))) 0)"
    unfolding buf using example_layout by simp
  from elf_loaded [OF pool_keeps_example pages_keep_example err last this] example_layout
  show ?thesis unfolding buf by (intro exI [of _ ?st]) (simp add: example_ehdr cong del: sum.case_cong_weak)
qed

end
