(* ===== verification/Loader_Search.thy ===== *)
theory Loader_Search
  imports Loader_Files
begin

text \<open>
  The searches of the boot loader: for a graphics mode, for the boot disk, and (in \<open>Loader_Disk\<close>) for
  the partition. They are one kind of loop, the locale \<open>search\<close>: visit the elements in order until
  one of them gives a result or stops the run.
\<close>

section \<open>Loops that search\<close>

locale search =
  fixes loop :: "nat \<Rightarrow> nat \<Rightarrow> 'a loader" and visit :: "nat \<Rightarrow> 'a option loader" and missing :: "'a loader"
  assumes loop_0: "loop i 0 = missing"
    and loop_Suc: "loop i (Suc k) = andthen (visit i) (\<lambda>r. case r of Some x \<Rightarrow> ret x | None \<Rightarrow> loop (Suc i) k)"
begin

text \<open>The elements that are passed over keep an invariant, and the first other one decides.\<close>

lemma reaches:
  assumes pass: "\<And>j st. i \<le> j \<Longrightarrow> j < n \<Longrightarrow> \<not> wanted j \<Longrightarrow> kept j st \<Longrightarrow> \<exists>st'. visit j st = Some (Inr None, st') \<and> kept (Suc j) st'"
    and n: "n = i + k" and st: "kept i st"
  shows "case filter wanted [i..<n] of
      [] \<Rightarrow> \<exists>st'. loop i k st = missing st' \<and> kept n st'
    | j # _ \<Rightarrow> \<exists>st'. kept j st' \<and>
        loop i k st = andthen (visit j) (\<lambda>r. case r of Some x \<Rightarrow> ret x | None \<Rightarrow> loop (Suc j) (n - Suc j)) st'"
  using pass n st
proof (induction k arbitrary: i st)
  case 0
  then show ?case using loop_0 by auto
next
  case (Suc k)
  have lt: "i < n" using Suc.prems(2) by simp
  then have i: "[i..<n] = i # [Suc i..<n]" by (rule upt_conv_Cons)
  show ?case
  proof (cases "wanted i")
    case True
    have "n - Suc i = k" using Suc.prems(2) by simp
    with True Suc.prems(3) show ?thesis unfolding i by (auto simp: loop_Suc)
  next
    case False
    obtain st' where st': "visit i st = Some (Inr None, st')" "kept (Suc i) st'"
      using Suc.prems(1) [OF le_refl lt False Suc.prems(3)] by blast
    then have "loop i (Suc k) st = loop (Suc i) k st'" by (simp add: loop_Suc andthen_def)
    moreover have "case filter wanted [Suc i..<n] of
        [] \<Rightarrow> \<exists>st''. loop (Suc i) k st' = missing st'' \<and> kept n st''
      | j # _ \<Rightarrow> \<exists>st''. kept j st'' \<and> loop (Suc i) k st' =
          andthen (visit j) (\<lambda>r. case r of Some x \<Rightarrow> ret x | None \<Rightarrow> loop (Suc j) (n - Suc j)) st''"
      using Suc.prems st'(2) by (intro Suc.IH) simp_all
    ultimately show ?thesis using False unfolding i by (simp cong del: list.case_cong_weak)
  qed
qed

lemma outcome:
  assumes "\<And>j st. i \<le> j \<Longrightarrow> j < n \<Longrightarrow> \<not> wanted j \<Longrightarrow> kept j st \<Longrightarrow> \<exists>st'. visit j st = Some (Inr None, st') \<and> kept (Suc j) st'"
    and take: "\<And>j st. i \<le> j \<Longrightarrow> j < n \<Longrightarrow> wanted j \<Longrightarrow> kept j st \<Longrightarrow>
      \<exists>st'. visit j st = Some (map_sum id Some (result j), st') \<and> found j st'"
    and "n = i + k" and "kept i st"
  shows "case filter wanted [i..<n] of
      [] \<Rightarrow> \<exists>st'. loop i k st = missing st' \<and> kept n st'
    | j # _ \<Rightarrow> \<exists>st'. loop i k st = Some (result j, st') \<and> found j st'"
proof (cases "filter wanted [i..<n]")
  case Nil
  with reaches [of i n wanted kept, OF assms(1,3,4)] show ?thesis by simp
next
  case (Cons j js)
  have "j \<in> set (filter wanted [i..<n])" unfolding Cons by simp
  then have j: "i \<le> j" "j < n" "wanted j" by simp_all
  obtain st' where st': "kept j st'" "loop i k st =
      andthen (visit j) (\<lambda>r. case r of Some x \<Rightarrow> ret x | None \<Rightarrow> loop (Suc j) (n - Suc j)) st'"
    using reaches [of i n wanted kept, OF assms(1,3,4)] Cons by auto
  obtain st'' where v: "visit j st' = Some (map_sum id Some (result j), st'')" "found j st''"
    using take [OF j st'(1)] by blast
  have "loop i k st = Some (result j, st'')"
    unfolding st'(2) andthen_def v(1) by (cases "result j") (simp_all add: ret_def)
  with v(2) show ?thesis unfolding Cons by auto
qed

end

lemma andthen_if: "andthen (if b then p else q) r = (if b then andthen p r else andthen q r)"
  by simp

lemma andthen_prod: "andthen (case x of (a, b) \<Rightarrow> f a b) r = (case x of (a, b) \<Rightarrow> andthen (f a b) r)"
  by (cases x) simp

lemmas andthen_norm = andthen_assoc andthen_if andthen_prod

section \<open>The graphics mode\<close>

definition visit_mode :: "firmware \<Rightarrow> nat \<Rightarrow> unit option loader" where
  "visit_mode fw j =
     andthen (must fw ''Could not get graphic mode'' (Query_mode (of_nat j))) (\<lambda>out.
     if out 0 = 1920 \<and> out 1 = 1080
     then andthen (must fw ''Could not set graphic mode'' (Set_mode (of_nat j))) (\<lambda>_. ret (Some ()))
     else ret None)"

interpretation modes: search "\<lambda>i. find_mode fw (of_nat i)" "visit_mode fw" "ret ()" for fw
  by unfold_locales (simp_all add: visit_mode_def andthen_norm add.commute cong: if_cong)

section \<open>The boot disk\<close>

text \<open>What the loader asks about a handle: the disk behind it, and where it is on the bus.\<close>

definition disk_address :: "firmware \<Rightarrow> u64 \<Rightarrow> boot_disk \<Rightarrow> (boot_disk \<times> BOOTDISK_ADDRESS) loader" where
  "disk_address fw handle d =
     andthen (must fw ''Could not locate DevicePathProtocol'' (Open_device_path handle)) (\<lambda>out.
     andthen (must fw ''Could not locate PciIoProtocol handle'' (Locate_pci (out 0))) (\<lambda>out.
     andthen (must fw ''Could not locate PciIoProtocol'' (Open_pci (out 0))) (\<lambda>out.
     andthen (must fw ''Could not get location of bootdisk'' (Get_location (out 0))) (\<lambda>out.
     ret (d, \<lparr>bd_seg = out 0, bd_bus = ucast (out 1), bd_dev = ucast (out 2), bd_func = ucast (out 3)\<rparr>)))))"

definition visit_disk :: "firmware \<Rightarrow> u64 \<Rightarrow> u64 \<Rightarrow> nat \<Rightarrow> (boot_disk \<times> BOOTDISK_ADDRESS) option loader" where
  "visit_disk fw block_ios gpt i =
     andthen get_mem (\<lambda>m. let handle = load64 m (block_ios + of_nat i * 8) in
     andthen (call fw (Open_block_io handle)) (\<lambda>(s, out). let block_io = out 0; media_id = fw_media fw block_io in
     if fw_error fw s then ret None
     else if fw_partition fw block_io then ret None
     else andthen (call fw (Read_blocks block_io media_id 1 lba_size gpt)) (\<lambda>(s, out).
     if fw_error fw s then ret None
     else andthen get_mem (\<lambda>m.
     if fw_strncmpa fw (bytes_at m gpt) (cstr ''EFI PART'') 8 \<noteq> 0 then ret None
     else andthen (disk_address fw handle \<lparr>d_block_io = block_io, d_media = media_id\<rparr>) (\<lambda>x. ret (Some x))))))"

interpretation disks: search "find_disk fw block_ios gpt" "visit_disk fw block_ios gpt" "halt ''Could not locate BlockIoProtocol of disk''" for fw block_ios gpt
  by unfold_locales (simp_all add: visit_disk_def disk_address_def andthen_norm Let_def cong: if_cong)

section \<open>Properties\<close>

text \<open>The search of the modes, the n-th call being its first: the status of each query, where it
  ends, and the calls up to there.\<close>

definition mode_status :: "firmware \<Rightarrow> nat \<Rightarrow> nat \<Rightarrow> u64" where
  "mode_status fw n j = fw_status fw (n + j) (Query_mode (of_nat j))"

definition mode_taken :: "firmware \<Rightarrow> nat \<Rightarrow> nat \<Rightarrow> bool" where
  "mode_taken fw n j \<longleftrightarrow> fw_error fw (mode_status fw n j) \<or>
     fw_out fw (n + j) (Query_mode (of_nat j)) 0 = 1920 \<and> fw_out fw (n + j) (Query_mode (of_nat j)) 1 = 1080"

definition mode_queries :: "firmware \<Rightarrow> nat \<Rightarrow> nat \<Rightarrow> (efi_call \<times> u64) list" where
  "mode_queries fw n k = map (\<lambda>j. (Query_mode (of_nat j), mode_status fw n j)) [0..<k]"

text \<open>C18: the loader asks for the modes in order up to the first that it cannot read or that has
  1920 by 1080 pixels; it stops with a message at the former, and sets the latter, and only
  it. When there is neither it sets no mode at all and goes on with the one the firmware left.\<close>

theorem mode_set:
  "let n = length (e_calls st); set_status = (\<lambda>j. fw_status fw (Suc (n + j)) (Set_mode (of_nat j))) in
   case filter (mode_taken fw n) [0..<k] of
     [] \<Rightarrow> \<exists>st'. find_mode fw 0 k st = Some (Inr (), st') \<and> e_calls st' = e_calls st @ mode_queries fw n k
   | j # _ \<Rightarrow> \<exists>st'. find_mode fw 0 k st = Some
         (if fw_error fw (mode_status fw n j) then Inl (Halted ''Could not get graphic mode'')
          else if fw_error fw (set_status j) then Inl (Halted ''Could not set graphic mode'') else Inr (), st') \<and>
       e_calls st' = e_calls st @ mode_queries fw n (Suc j) @
         (if fw_error fw (mode_status fw n j) then [] else [(Set_mode (of_nat j), set_status j)])"
proof -
  let ?n = "length (e_calls st)"
  let ?set = "\<lambda>j. fw_status fw (Suc (?n + j)) (Set_mode (of_nat j))"
  let ?kept = "\<lambda>j st'. e_calls st' = e_calls st @ mode_queries fw ?n j"
  let ?r = "\<lambda>j. if fw_error fw (mode_status fw ?n j) then Inl (Halted ''Could not get graphic mode'')
    else if fw_error fw (?set j) then Inl (Halted ''Could not set graphic mode'') else Inr ()"
  let ?found = "\<lambda>j st'. e_calls st' = e_calls st @ mode_queries fw ?n (Suc j) @
    (if fw_error fw (mode_status fw ?n j) then [] else [(Set_mode (of_nat j), ?set j)])"
  have 1: "\<exists>st'. visit_mode fw j s = Some (Inr None, st') \<and> ?kept (Suc j) st'" if "\<not> mode_taken fw ?n j" "?kept j s" for j s
    using that by (simp add: visit_mode_def must_eq andthen_def ret_def Let_def mode_taken_def mode_status_def mode_queries_def)
  have 2: "\<exists>st'. visit_mode fw j s = Some (map_sum id Some (?r j), st') \<and> ?found j st'" if "mode_taken fw ?n j" "?kept j s" for j s
    using that by (auto simp: visit_mode_def must_eq andthen_def ret_def Let_def mode_taken_def mode_status_def mode_queries_def)
  show ?thesis
    using modes.outcome [where fw = fw and i = 0 and n = k and k = k and st = st and wanted = "mode_taken fw ?n" and
        kept = ?kept and result = ?r and found = ?found, OF 1 2]
    by (simp add: mode_queries_def ret_def Let_def cong del: list.case_cong_weak)
qed

text \<open>
  Firmware in which opening a handle and reading a sector do not depend on when they are done: to
  open changes no memory, to read changes its buffer only, and fills it from the disk when
  it succeeds. Its comparison of strings is the one of C.
\<close>

definition disks_answer :: "firmware \<Rightarrow> (u64 \<Rightarrow> u32 \<Rightarrow> nat \<Rightarrow> u8) \<Rightarrow> bool" where
  "disks_answer fw disks \<longleftrightarrow>
     (\<forall>n h m. let c = Open_block_io h in
        fw_status fw n c = fw_status fw 0 c \<and> fw_out fw n c = fw_out fw 0 c \<and> fw_mem fw n c m = m) \<and>
     (\<forall>n d md lba sz buf m. let c = Read_blocks d md lba sz buf in
        fw_status fw n c = fw_status fw 0 c \<and>
        (\<not> fw_error fw (fw_status fw n c) \<longrightarrow> fw_mem fw n c m = read_disk (disks d md) lba sz buf m) \<and>
        (\<forall>b. \<not> in_region buf (unat sz) b \<longrightarrow> fw_mem fw n c m b = m b))"

definition compares :: "firmware \<Rightarrow> bool" where
  "compares fw \<longleftrightarrow> (\<forall>s t n. fw_strncmpa fw s t n = 0 \<longleftrightarrow> (\<forall>j<n. (\<forall>l<j. s l \<noteq> 0) \<longrightarrow> s j = t j))"

text \<open>The disk behind a handle, and whether it is one with a GPT: it can be opened and read, is no
  partition, and its second sector begins with the signature.\<close>

definition disk_of :: "firmware \<Rightarrow> u64 \<Rightarrow> boot_disk" where
  "disk_of fw h = (let b = fw_out fw 0 (Open_block_io h) 0 in \<lparr>d_block_io = b, d_media = fw_media fw b\<rparr>)"

definition gpt_disk :: "firmware \<Rightarrow> (u64 \<Rightarrow> u32 \<Rightarrow> nat \<Rightarrow> u8) \<Rightarrow> u64 \<Rightarrow> u64 \<Rightarrow> bool" where
  "gpt_disk fw disks gpt h \<longleftrightarrow> (let d = disk_of fw h in
     \<not> fw_error fw (fw_status fw 0 (Open_block_io h)) \<and> \<not> fw_partition fw (d_block_io d) \<and>
     \<not> fw_error fw (fw_status fw 0 (Read_blocks (d_block_io d) (d_media d) 1 512 gpt)) \<and>
     (\<forall>j<8. disks (d_block_io d) (d_media d) (512 + j) = cstr ''EFI PART'' j))"

lemma header_read:
  assumes "i < 512"
  shows "read_disk disk 1 512 gpt m (gpt + of_nat i) = disk (512 + i)"
proof -
  have "unat (of_nat i :: u64) = i" using assms by (simp add: unat_of_nat take_bit_nat_eq_self)
  with assms show ?thesis by (simp add: read_disk_region in_region_def)
qed

lemma gpt_signature:
  assumes "compares fw"
  shows "fw_strncmpa fw (bytes_at (read_disk disk 1 512 gpt m) gpt) (cstr ''EFI PART'') 8 = 0 \<longleftrightarrow>
    (\<forall>j<8. disk (512 + j) = cstr ''EFI PART'' j)" (is "?l \<longleftrightarrow> ?r")
proof -
  have nz: "cstr ''EFI PART'' j \<noteq> 0" if "j < 8" for j
  proof -
    have "\<forall>j\<in>set [0..<8]. cstr ''EFI PART'' j \<noteq> 0" by code_simp
    with that show ?thesis by simp
  qed
  have b: "bytes_at (read_disk disk 1 512 gpt m) gpt j = disk (512 + j)" if "j < 8" for j
    using that by (simp add: bytes_at_def header_read)
  have l: "?l \<longleftrightarrow> (\<forall>j<8. (\<forall>l<j. disk (512 + l) \<noteq> 0) \<longrightarrow> disk (512 + j) = cstr ''EFI PART'' j)"
    using assms b by (auto simp: compares_def)
  have "disk (512 + j) = cstr ''EFI PART'' j" if ?l "j < 8" for j
    using that(2)
  proof (induction j rule: less_induct)
    case (less j)
    then have "\<forall>l<j. disk (512 + l) \<noteq> 0" using nz by simp
    with less(2) that(1) l show ?case by blast
  qed
  with l show ?thesis by blast
qed

lemma handle_kept:
  assumes "apart gpt 512 block_ios (n * 8)" and "i < n" and "\<And>b. \<not> in_region gpt 512 b \<Longrightarrow> m' b = m b"
  shows "load64 m' (block_ios + of_nat i * 8) = load64 m (block_ios + of_nat i * 8)"
proof (rule load_le_cong)
  fix j :: nat assume "j < 8"
  then have "i * 8 + j < n * 8" using assms(2) by linarith
  then have "\<not> in_region gpt 512 (block_ios + of_nat (i * 8 + j))" using assms(1) unfolding apart_def by blast
  with assms(3) have "m' (block_ios + of_nat (i * 8 + j)) = m (block_ios + of_nat (i * 8 + j))" by blast
  then show "m' (block_ios + of_nat i * 8 + of_nat j) = m (block_ios + of_nat i * 8 + of_nat j)"
    by (simp add: add.assoc)
qed

text \<open>A visit of a handle: passed over, or only the questions about its address are left.\<close>

lemma visit_disk_step:
  assumes docs: "disks_answer fw disks" "compares fw"
    and h: "load64 (e_mem st) (block_ios + of_nat i * 8) = h"
  shows "\<exists>st'. (\<forall>b. \<not> in_region gpt 512 b \<longrightarrow> e_mem st' b = e_mem st b) \<and>
    (if gpt_disk fw disks gpt h
     then visit_disk fw block_ios gpt i st = andthen (disk_address fw h (disk_of fw h)) (\<lambda>x. ret (Some x)) st' \<and>
       (\<forall>i<512. e_mem st' (gpt + of_nat i) = disks (d_block_io (disk_of fw h)) (d_media (disk_of fw h)) (512 + i))
     else visit_disk fw block_ios gpt i st = Some (Inr None, st'))"
proof -
  let ?n = "length (e_calls st)" and ?o = "Open_block_io h" and ?d = "disk_of fw h"
  let ?r = "Read_blocks (d_block_io ?d) (d_media ?d) 1 512 gpt"
  let ?st1 = "\<lparr>e_mem = e_mem st, e_calls = e_calls st @ [(?o, fw_status fw 0 ?o)]\<rparr>"
  let ?st2 = "\<lparr>e_mem = fw_mem fw (Suc ?n) ?r (e_mem st), e_calls = e_calls ?st1 @ [(?r, fw_status fw 0 ?r)]\<rparr>"
  have o: "fw_status fw n ?o = fw_status fw 0 ?o" "fw_out fw n ?o = fw_out fw 0 ?o" "fw_mem fw n ?o m = m" for n m
    using docs(1) unfolding disks_answer_def Let_def by blast+
  have r: "fw_status fw n ?r = fw_status fw 0 ?r" for n using docs(1) unfolding disks_answer_def Let_def by blast
  have keep: "\<not> in_region gpt 512 b \<longrightarrow> fw_mem fw n ?r m b = m b" for n m b
    using docs(1) unfolding disks_answer_def Let_def by fastforce
  have v: "visit_disk fw block_ios gpt i st =
      (if fw_error fw (fw_status fw 0 ?o) \<or> fw_partition fw (d_block_io ?d) then Some (Inr None, ?st1)
       else if fw_error fw (fw_status fw 0 ?r) \<or> fw_strncmpa fw (bytes_at (e_mem ?st2) gpt) (cstr ''EFI PART'') 8 \<noteq> 0
       then Some (Inr None, ?st2)
       else andthen (disk_address fw h ?d) (\<lambda>x. ret (Some x)) ?st2)"
    unfolding visit_disk_def Let_def
    by (simp add: andthen_def get_mem_def call_eq ret_def Let_def h disk_of_def o(1,2) [of ?n] o(3) r [of "Suc ?n", unfolded disk_of_def Let_def, simplified])
  have m: "fw_mem fw n ?r m = read_disk (disks (d_block_io ?d) (d_media ?d)) 1 512 gpt m"
    if "\<not> fw_error fw (fw_status fw 0 ?r)" for n m
    using docs(1) that r unfolding disks_answer_def Let_def by metis
  have g: "gpt_disk fw disks gpt h \<longleftrightarrow> \<not> (fw_error fw (fw_status fw 0 ?o) \<or> fw_partition fw (d_block_io ?d)) \<and>
      \<not> (fw_error fw (fw_status fw 0 ?r) \<or> fw_strncmpa fw (bytes_at (e_mem ?st2) gpt) (cstr ''EFI PART'') 8 \<noteq> 0)"
  proof (cases "fw_error fw (fw_status fw 0 ?r)")
    case True
    then show ?thesis by (simp only: gpt_disk_def Let_def) simp
  next
    case False
    show ?thesis
      unfolding gpt_disk_def Let_def efi.select_convs m [OF False] gpt_signature [OF docs(2)] by blast
  qed
  have k: "\<forall>b. \<not> in_region gpt 512 b \<longrightarrow> e_mem ?st2 b = e_mem st b" using keep by simp
  show ?thesis
  proof (cases "fw_error fw (fw_status fw 0 ?o) \<or> fw_partition fw (d_block_io ?d)")
    case True
    then show ?thesis unfolding g v by (intro exI [of _ ?st1]) simp
  next
    case False
    have "\<forall>i<512. e_mem ?st2 (gpt + of_nat i) = disks (d_block_io ?d) (d_media ?d) (512 + i)"
      if "\<not> fw_error fw (fw_status fw 0 ?r)" using m [OF that] by (simp add: header_read)
    with False k show ?thesis unfolding g v by (intro exI [of _ ?st2]) simp
  qed
qed

text \<open>C16: the boot disk is the first handle that can be opened and read, is no partition and has the
  GPT signature: the search ends with the questions about the address of that handle, with the header
  of its table in the buffer and nothing else changed; without such a handle it stops with a
  message. Firmware: handles and sectors give the same whenever they are opened and read, and the
  buffer does not overlap the handles.\<close>

theorem disk_found:
  assumes "disks_answer fw disks" and "compares fw" and "apart gpt 512 block_ios (n * 8)"
  shows "let h = (\<lambda>i. load64 (e_mem st) (block_ios + of_nat i * 8)) in
    case filter (\<lambda>i. gpt_disk fw disks gpt (h i)) [0..<n] of
      [] \<Rightarrow> \<exists>st'. find_disk fw block_ios gpt 0 n st = Some (Inl (Halted ''Could not locate BlockIoProtocol of disk''), st')
    | j # _ \<Rightarrow> \<exists>st'. find_disk fw block_ios gpt 0 n st = disk_address fw (h j) (disk_of fw (h j)) st' \<and>
        (\<forall>i<512. e_mem st' (gpt + of_nat i) = disks (d_block_io (disk_of fw (h j))) (d_media (disk_of fw (h j))) (512 + i)) \<and>
        (\<forall>b. \<not> in_region gpt 512 b \<longrightarrow> e_mem st' b = e_mem st b)"
proof -
  let ?h = "\<lambda>i. load64 (e_mem st) (block_ios + of_nat i * 8)"
  let ?wanted = "\<lambda>i. gpt_disk fw disks gpt (?h i)"
  let ?kept = "\<lambda>_ :: nat. \<lambda>s. \<forall>b. \<not> in_region gpt 512 b \<longrightarrow> e_mem s b = e_mem st b"
  have same: "load64 (e_mem s) (block_ios + of_nat j * 8) = ?h j" if "j < n" "?kept j s" for j s
    using handle_kept [OF assms(3) that(1)] that(2) by blast
  have pass: "\<exists>st'. visit_disk fw block_ios gpt j s = Some (Inr None, st') \<and> ?kept (Suc j) st'"
    if "j < n" "\<not> ?wanted j" "?kept j s" for j s
    using visit_disk_step [OF assms(1,2) same [OF that(1,3)], of gpt] that(2,3) by auto
  have st0: "?kept 0 st" by simp
  note R = disks.reaches [where i = 0 and n = n and k = n and st = st and kept = ?kept and wanted = ?wanted,
      OF pass add_0 [symmetric] st0]
  show ?thesis
  proof (cases "filter ?wanted [0..<n]")
    case Nil
    from R show ?thesis unfolding Let_def Nil list.case halt_def by blast
  next
    case (Cons j js)
    have "j \<in> set (filter ?wanted [0..<n])" unfolding Cons by simp
    then have j: "j < n" "?wanted j" unfolding set_filter by simp_all
    from R have "\<exists>s. ?kept j s \<and> find_disk fw block_ios gpt 0 n st =
        andthen (visit_disk fw block_ios gpt j) (\<lambda>r. case r of Some x \<Rightarrow> ret x | None \<Rightarrow> find_disk fw block_ios gpt (Suc j) (n - Suc j)) s"
      unfolding Cons list.case .
    then obtain s where s: "?kept j s" "find_disk fw block_ios gpt 0 n st =
        andthen (visit_disk fw block_ios gpt j) (\<lambda>r. case r of Some x \<Rightarrow> ret x | None \<Rightarrow> find_disk fw block_ios gpt (Suc j) (n - Suc j)) s"
      by (elim exE conjE)
    obtain s' where s': "visit_disk fw block_ios gpt j s = andthen (disk_address fw (?h j) (disk_of fw (?h j))) (\<lambda>x. ret (Some x)) s'"
      "\<forall>i<512. e_mem s' (gpt + of_nat i) = disks (d_block_io (disk_of fw (?h j))) (d_media (disk_of fw (?h j))) (512 + i)"
      "\<forall>b. \<not> in_region gpt 512 b \<longrightarrow> e_mem s' b = e_mem s b"
      using visit_disk_step [OF assms(1,2) same [OF j(1) s(1)], of gpt] j(2) by (simp only: if_True) blast
    have "find_disk fw block_ios gpt 0 n st = disk_address fw (?h j) (disk_of fw (?h j)) s'"
      unfolding s(2) andthen_def [of "visit_disk _ _ _ _"] s'(1) by (simp add: andthen_def ret_def split: sum.split Option.bind_split)
    with s' s(1) show ?thesis unfolding Cons Let_def by auto
  qed
qed

text \<open>Two handles on the example disk, the first of which is a partition.\<close>

theorem disk_found_witness:
  "\<exists>st'. find_disk (ex_fw\<lparr>fw_out := \<lambda>n c. case c of Open_block_io h \<Rightarrow> (\<lambda>_. h) | _ \<Rightarrow> ex_out n c, fw_partition := \<lambda>b. b = 1\<rparr>)
     0x8000 0x20000 0 2 \<lparr>e_mem = (\<lambda>a. if a = 0x8000 then 1 else if a = 0x8008 then 2 else 0), e_calls = []\<rparr> =
     Some (Inr (\<lparr>d_block_io = 2, d_media = 0\<rparr>, \<lparr>bd_seg = 0, bd_bus = 0, bd_dev = 3, bd_func = 0\<rparr>), st')"
proof -
  let ?fw = "ex_fw\<lparr>fw_out := \<lambda>n c. case c of Open_block_io h \<Rightarrow> (\<lambda>_. h) | _ \<Rightarrow> ex_out n c, fw_partition := \<lambda>b. b = 1\<rparr>"
  let ?m = "\<lambda>a. if a = 0x8000 then 1 else if a = 0x8008 then 2 else (0 :: u8)"
  have 1: "disks_answer ?fw (\<lambda>_ _. ex_disk)"
    by (auto simp: disks_answer_def ex_fw_def Let_def disk_mem_def read_disk_region)
  have 2: "compares ?fw" by (simp add: compares_def ex_fw_def strncmp_0_iff)
  have 3: "apart 0x20000 512 0x8000 (2 * 8)" using apartI [of 512 "0x8000" "0x20000" 16] by simp
  have h: "load64 ?m 0x8000 = 1" "load64 ?m (0x8000 + 8) = 2" by (simp_all add: load_numeral)
  have d: "disk_of ?fw a = \<lparr>d_block_io = a, d_media = 0\<rparr>" for a by (simp add: disk_of_def ex_fw_def)
  have "\<forall>j\<in>set [0..<8]. ex_disk (512 + j) = cstr ''EFI PART'' j" by (simp add: disk_text cstr_def)
  then have g: "\<forall>j<8. ex_disk (512 + j) = cstr ''EFI PART'' j" by simp
  have p: "gpt_disk ?fw (\<lambda>_ _. ex_disk) 0x20000 a = (a \<noteq> 1)" for a
    using g by (simp add: gpt_disk_def d Let_def)
  have "filter (\<lambda>i. gpt_disk ?fw (\<lambda>_ _. ex_disk) 0x20000 (load64 ?m (0x8000 + of_nat i * 8))) [0..<2] = [1]"
    using h by (simp add: p upt_rec)
  with disk_found [OF 1 2 3, of "\<lparr>e_mem = ?m, e_calls = []\<rparr>"] h(2)
  obtain st' where "find_disk ?fw 0x8000 0x20000 0 2 \<lparr>e_mem = ?m, e_calls = []\<rparr> = disk_address ?fw 2 (disk_of ?fw 2) st'"
    by (simp add: Let_def) blast
  then show ?thesis by (simp add: disk_address_def d must_eq andthen_def ret_def Let_def) (simp add: ex_fw_def ex_out_def)
qed

end
