(* ===== verification/Loader_Disk.thy ===== *)
theory Loader_Disk
  imports Loader_Search
begin

text \<open>
  The search of the boot loader for the partition with the kernel: which entry of the partition
  table it takes.
\<close>

text \<open>A read, also one that fails, changes nothing outside of its buffer.\<close>

definition reads_within :: "firmware \<Rightarrow> bool" where
  "reads_within fw \<longleftrightarrow> (\<forall>n d md lba sz buf m b. \<not> in_region buf (unat sz) b \<longrightarrow>
     fw_mem fw n (Read_blocks d md lba sz buf) m b = m b)"

text \<open>The i-th entry of the table is taken if the read of its super block succeeds, as the call
  number \<open>n + i\<close>, and the disk has the magic number there.\<close>

definition super_block :: "boot_disk \<Rightarrow> mem \<Rightarrow> u64 \<Rightarrow> u64 \<Rightarrow> nat \<Rightarrow> efi_call" where
  "super_block d m part_tbl sb i = Read_blocks (d_block_io d) (d_media d) (part_start_lba m part_tbl i + 2) 512 sb"

definition ext2_entry :: "firmware \<Rightarrow> (nat \<Rightarrow> u8) \<Rightarrow> boot_disk \<Rightarrow> mem \<Rightarrow> u64 \<Rightarrow> u64 \<Rightarrow> nat \<Rightarrow> nat \<Rightarrow> bool" where
  "ext2_entry fw disk d m part_tbl sb n i \<longleftrightarrow>
     \<not> fw_error fw (fw_status fw (n + i) (super_block d m part_tbl sb i)) \<and>
     (let a = unat (part_start_lba m part_tbl i + 2) * 512 in disk (a + 56) = 0x53 \<and> disk (a + 57) = 0xef)"

lemma magic_bytes: "sb_magic m sb = 0xef53 \<longleftrightarrow> m (sb + 56) = 0x53 \<and> m (sb + 57) = 0xef"
proof
  assume *: "sb_magic m sb = 0xef53"
  have d: "(8 + i) div 8 = 1" "(8 + i) mod 8 = i" if "i < 8" for i :: nat using that by presburger+
  have "m (sb + 56) = ucast (sb_magic m sb)" "m (sb + 57) = ucast (drop_bit 8 (sb_magic m sb))"
    by (rule bit_word_eqI; simp add: sb_magic_def bit_ucast_iff bit_drop_bit_eq bit_load_le d add.commute [of sb])+
  with * show "m (sb + 56) = 0x53 \<and> m (sb + 57) = 0xef" by simp
next
  assume "m (sb + 56) = 0x53 \<and> m (sb + 57) = 0xef"
  then show "sb_magic m sb = 0xef53" by (simp add: sb_magic_def load_numeral add.commute [of sb])
qed

lemma read_magic:
  "sb_magic (read_disk disk lba 512 sb m) sb = 0xef53 \<longleftrightarrow>
     disk (unat lba * 512 + 56) = 0x53 \<and> disk (unat lba * 512 + 57) = 0xef"
  by (simp add: magic_bytes read_disk_def)

lemma entry_kept:
  assumes "apart sb 512 part_tbl (n * 128)" and "i < n" and "\<And>b. \<not> in_region sb 512 b \<Longrightarrow> m' b = m b"
  shows "part_start_lba m' part_tbl i = part_start_lba m part_tbl i"
  unfolding part_start_lba_def
proof (rule load_le_cong)
  fix j :: nat assume "j < 8"
  then have "i * 128 + 32 + j < n * 128" using assms(2) by linarith
  then have "\<not> in_region sb 512 (part_tbl + of_nat (i * 128 + 32 + j))" using assms(1) unfolding apart_def by blast
  with assms(3) have "m' (part_tbl + of_nat (i * 128 + 32 + j)) = m (part_tbl + of_nat (i * 128 + 32 + j))" by blast
  then show "m' (part_tbl + of_nat i * 128 + 32 + of_nat j) = m (part_tbl + of_nat i * 128 + 32 + of_nat j)"
    by (simp add: add.assoc)
qed

text \<open>The loop over the entries, as a \<open>search\<close>.\<close>

definition visit_partition :: "firmware \<Rightarrow> boot_disk \<Rightarrow> u64 \<Rightarrow> u64 \<Rightarrow> nat \<Rightarrow> u64 option loader" where
  "visit_partition fw d part_tbl sb i =
     andthen get_mem (\<lambda>m.
     andthen (call fw (Read_blocks (d_block_io d) (d_media d) (part_start_lba m part_tbl i + 2) 512 sb)) (\<lambda>(s, out).
     if fw_error fw s then ret None
     else andthen get_mem (\<lambda>m. if sb_magic m sb = 0xef53 then ret (Some (part_start_lba m part_tbl i)) else ret None)))"

interpretation partitions: search "find_partition fw d part_tbl sb" "visit_partition fw d part_tbl sb"
    "halt ''Could not load primary partition''" for fw d part_tbl sb
  by unfold_locales (simp_all add: visit_partition_def andthen_norm cong: if_cong)

text \<open>A visit, as the call number \<open>c + i\<close>, when the memory outside the buffer is that of \<open>m\<close>.\<close>

lemma visit_partition_step:
  assumes docs: "reads_disk fw disk" "reads_within fw"
    and tbl: "apart sb 512 part_tbl (n * 128)"
    and i: "i < n" and "length (e_calls st) = c + i" and st: "\<forall>b. \<not> in_region sb 512 b \<longrightarrow> e_mem st b = m b"
  shows "\<exists>st'. visit_partition fw d part_tbl sb i st =
      Some (Inr (if ext2_entry fw disk d m part_tbl sb c i then Some (part_start_lba m part_tbl i) else None), st') \<and>
    length (e_calls st') = c + Suc i \<and> (\<forall>b. \<not> in_region sb 512 b \<longrightarrow> e_mem st' b = m b)"
proof -
  let ?c = "super_block d m part_tbl sb i"
  let ?m1 = "fw_mem fw (c + i) ?c (e_mem st)" and ?s = "fw_status fw (c + i) ?c"
  let ?st1 = "\<lparr>e_mem = ?m1, e_calls = e_calls st @ [(?c, ?s)]\<rparr>"
  have same: "?m1 b = m b" if "\<not> in_region sb 512 b" for b
    using docs(2) st that by (simp add: reads_within_def super_block_def)
  have lba: "part_start_lba (e_mem st) part_tbl i = part_start_lba m part_tbl i"
    "part_start_lba ?m1 part_tbl i = part_start_lba m part_tbl i"
    using entry_kept [OF tbl i] st same by blast+
  have m1: "?m1 = read_disk disk (part_start_lba m part_tbl i + 2) 512 sb (e_mem st)" if "\<not> fw_error fw ?s"
    using docs(1) that unfolding reads_disk_def super_block_def Let_def by blast
  have sc: "Read_blocks (d_block_io d) (d_media d) (part_start_lba (e_mem st) part_tbl i + 2) 512 sb = ?c"
    by (simp add: super_block_def lba)
  have "visit_partition fw d part_tbl sb i st =
      Some (Inr (if ext2_entry fw disk d m part_tbl sb c i then Some (part_start_lba m part_tbl i) else None), ?st1)"
  proof (cases "fw_error fw ?s")
    case True
    then show ?thesis by (simp add: visit_partition_def andthen_def get_mem_def call_eq ret_def assms(5) ext2_entry_def sc Let_def)
  next
    case False
    then have "sb_magic ?m1 sb = 0xef53 \<longleftrightarrow> ext2_entry fw disk d m part_tbl sb c i"
      by (simp add: m1 read_magic ext2_entry_def Let_def)
    with False show ?thesis
      by (simp add: visit_partition_def andthen_def get_mem_def call_eq ret_def assms(5) sc lba(2) Let_def)
  qed
  with same assms(5) show ?thesis by simp
qed

text \<open>
  C17: the loader takes the first entry of the partition table, used or not and of whatever type,
  whose super block can be read and has the magic number of ext2, and stops with a message when
  there is none. Firmware: reads fill their buffer from the disk and change nothing else, also when
  they fail, and the buffer of the super block does not overlap the table.
\<close>

theorem partition_found:
  assumes "reads_disk fw disk" and "reads_within fw" and "apart sb 512 part_tbl (n * 128)"
  shows "case filter (ext2_entry fw disk d (e_mem st) part_tbl sb (length (e_calls st))) [0..<n] of
      [] \<Rightarrow> \<exists>st'. find_partition fw d part_tbl sb 0 n st = Some (Inl (Halted ''Could not load primary partition''), st')
    | j # _ \<Rightarrow> \<exists>st'. find_partition fw d part_tbl sb 0 n st = Some (Inr (part_start_lba (e_mem st) part_tbl j), st')"
proof -
  let ?m = "e_mem st" and ?c = "length (e_calls st)"
  let ?kept = "\<lambda>i s. length (e_calls s) = ?c + i \<and> (\<forall>b. \<not> in_region sb 512 b \<longrightarrow> e_mem s b = ?m b)"
  note visit = visit_partition_step [OF assms(1,2,3), of _ _ ?c ?m d]
  have 1: "\<exists>st'. visit_partition fw d part_tbl sb j s = Some (Inr None, st') \<and> ?kept (Suc j) st'"
    if "j < n" "\<not> ext2_entry fw disk d ?m part_tbl sb ?c j" "?kept j s" for j s
    using visit [of j s] that by simp
  have 2: "\<exists>st'. visit_partition fw d part_tbl sb j s = Some (map_sum id Some (Inr (part_start_lba ?m part_tbl j)), st') \<and> True"
    if "j < n" "ext2_entry fw disk d ?m part_tbl sb ?c j" "?kept j s" for j s
    using visit [of j s] that by (simp only: if_True map_sum.simps) blast
  have st0: "?kept 0 st" by simp
  note R = partitions.outcome [where i = 0 and n = n and k = n and st = st and kept = ?kept and
      wanted = "ext2_entry fw disk d ?m part_tbl sb ?c" and found = "\<lambda>_ _. True", OF 1 2 add_0 [symmetric] st0]
  show ?thesis
  proof (cases "filter (ext2_entry fw disk d ?m part_tbl sb ?c) [0..<n]")
    case Nil
    from R show ?thesis unfolding Nil list.case halt_def by blast
  next
    case (Cons j js)
    from R show ?thesis unfolding Cons list.case by blast
  qed
qed

text \<open>Two entries on the example disk, the first of which is empty.\<close>

theorem partition_found_witness:
  "\<exists>st'. find_partition ex_fw \<lparr>d_block_io = 0, d_media = 0\<rparr> 0xD0000 0xE0000 0 2
     \<lparr>e_mem = (\<lambda>a. if a = 0xD00A0 then 4 else 0), e_calls = []\<rparr> = Some (Inr 4, st')"
proof -
  let ?st = "\<lparr>e_mem = (\<lambda>a. if a = 0xD00A0 then 4 else 0 :: u8), e_calls = []\<rparr>" and ?d = "\<lparr>d_block_io = 0, d_media = 0\<rparr>"
  have 1: "reads_disk ex_fw ex_disk" "reads_within ex_fw"
    by (simp_all add: reads_disk_def reads_within_def disk_mem_def read_disk_region)
  have 2: "apart 0xE0000 512 0xD0000 (2 * 128)" using apartI [of 512 "0xD0000" "0xE0000" 256] by simp
  have lba: "part_start_lba (e_mem ?st) 0xD0000 0 = 0" "part_start_lba (e_mem ?st) 0xD0000 1 = 4"
    by (simp_all add: part_start_lba_def load_numeral)
  have "filter (ext2_entry ex_fw ex_disk ?d (e_mem ?st) 0xD0000 0xE0000 (length (e_calls ?st))) [0..<2] = [1]"
    using lba by (simp add: ext2_entry_def upt_rec disk_text)
  with partition_found [OF 1 2, of ?d ?st] lba(2) show ?thesis by simp
qed

end
