(* ===== verification/Handover.thy ===== *)
theory Handover
  imports Loader_Props Kernel_Props
begin

text \<open>
  From the boot loader to the kernel: when the ACPI root table is accepted, and what the kernel
  reads of the structure the loader leaves.
\<close>

section \<open>The ACPI root table\<close>

lemma add_bytes_sum: "add_bytes m a r n = r + (\<Sum>i<n. m (a + of_nat i))"
  by (induction n) (simp_all add: add.assoc)

text \<open>The pointer has its signature and two zero checksums, the table it leads to a third.\<close>

definition valid_xsdp :: "firmware \<Rightarrow> mem \<Rightarrow> u64 \<Rightarrow> bool" where
  "valid_xsdp fw m a \<longleftrightarrow> fw_strncmpa fw (bytes_at m a) (cstr ''RSD PTR '') 8 = 0 \<and>
     (\<Sum>i<20. m (a + of_nat i)) = 0 \<and> (\<Sum>i<36. m (a + of_nat i)) = 0"

definition valid_xsdt :: "firmware \<Rightarrow> mem \<Rightarrow> u64 \<Rightarrow> bool" where
  "valid_xsdt fw m a \<longleftrightarrow> fw_strncmpa fw (bytes_at m a) (cstr ''XSDT'') 4 = 0 \<and>
     (\<Sum>i<unat (load32 m (a + 4)). m (a + of_nat i)) = 0"

text \<open>The last table of the configuration that has the ACPI 2.0 identifier.\<close>

lemma find_xsdp_last:
  "find_xsdp fw xsdp =
     (case filter (\<lambda>(g, _). guidcmp (fw_acpi20 fw) g) (rev (fw_tables fw)) of [] \<Rightarrow> xsdp | (_, tbl) # _ \<Rightarrow> tbl)"
proof -
  have "foldl (\<lambda>x (g, t). if guidcmp a g then t else x) x ts =
      (case filter (\<lambda>(g, _). guidcmp a g) (rev ts) of [] \<Rightarrow> x | (_, t) # _ \<Rightarrow> t)" for a x ts
    by (induction ts rule: rev_induct) auto
  then show ?thesis by (simp add: find_xsdp_def)
qed


section \<open>The structure for the kernel\<close>

text \<open>The last part of the loader, step by step.\<close>

lemma start_kernel_end:
  assumes "start_kernel fw fr entry bd st = Some (Inr r, st')"
  obtains mem_map sz mem_map_key desc_size xsdt st1 x y where
    "get_memory_map fw (f_mem_map_size fr) st = Some (Inr (mem_map, sz, mem_map_key, desc_size), st1)"
    "get_xsdt fw (f_xsdp fr) st1 = Some (Inr xsdt, st1)" "r = (entry, f_bootinfo fr)"
    "let n = length (e_calls st1) in
       e_mem st' = fw_mem fw (n + 1) (Exit_boot_services mem_map_key) (fw_mem fw n Clear_console
         (store_bootinfo (e_mem st1) (f_bootinfo fr) (make_bootinfo (fw_gop fw n) (mem_map, sz, desc_size) xsdt bd)))"
    "e_calls st' = e_calls st1 @ [x, y]"
proof -
  obtain a s k d st1 where 1: "get_memory_map fw (f_mem_map_size fr) st = Some (Inr (a, s, k, d), st1)"
    and 2: "andthen (get_xsdt fw (f_xsdp fr)) (\<lambda>xsdt.
       andthen (get_gop fw) (\<lambda>g. andthen get_mem (\<lambda>m.
       andthen (set_mem (store_bootinfo m (f_bootinfo fr) (make_bootinfo g (a, s, d) xsdt bd))) (\<lambda>_.
       andthen (call fw Clear_console) (\<lambda>_.
       andthen (call fw (Exit_boot_services k)) (\<lambda>_. ret (entry, f_bootinfo fr))))))) st1 = Some (Inr r, st')"
    using assms by (fastforce simp: start_kernel_def andthen_Some case_prod_unfold)
  obtain xsdt where x: "get_xsdt fw (f_xsdp fr) st1 = Some (Inr xsdt, st1)"
    using 2 get_xsdt_state by (fastforce simp: andthen_Some)
  show thesis
    by (rule that [OF 1 x])
      (use 2 in \<open>auto simp: andthen_def x call_eq get_gop_def get_mem_def set_mem_def ret_def Let_def\<close>)
qed

text \<open>The memory map is what the last call of the three gave.\<close>

lemma get_memory_map_last:
  assumes "get_memory_map fw mem_map_size st = Some (Inr (mem_map, sz, key, desc_size), st')"
  shows "e_calls st' \<noteq> []" and "\<exists>n. fst (last (e_calls st')) = Get_memory_map n mem_map"
    and "desc_size = fw_out fw (length (e_calls st') - 1) (fst (last (e_calls st'))) 2"
  using assms by (auto simp: get_memory_map_def andthen_def call_eq must_eq ret_def Let_def split: if_splits)

text \<open>What the firmware promises of the caller's stack: the last two calls leave \<open>BootInfo\<close> alone.\<close>

definition spares_bootinfo :: "firmware \<Rightarrow> frame \<Rightarrow> bool" where
  "spares_bootinfo fw fr \<longleftrightarrow> (\<forall>n m b key. in_region (f_bootinfo fr) SIZEOF_BOOTINFO b \<longrightarrow>
     fw_mem fw n Clear_console m b = m b \<and> fw_mem fw n (Exit_boot_services key) m b = m b)"

text \<open>What lies at \<open>BootInfo\<close> when the loader jumps.\<close>

lemma loader_leaves_bootinfo:
  assumes run: "efi_main fw fr st = Some (Inr (entry, bi), st')" and stack: "spares_bootinfo fw fr"
  obtains st1 st2 st3 st4 kernel_file disk mem_map sz key desc_size xsdt x y where
    "open_gop fw st = Some (Inr (), st1)" "get_kernel fw st1 = Some (Inr (kernel_file, disk), st2)"
    "parse_elf fw kernel_file st2 = Some (Inr entry, st3)"
    "get_memory_map fw (f_mem_map_size fr) st3 = Some (Inr (mem_map, sz, key, desc_size), st4)"
    "get_xsdt fw (f_xsdp fr) st4 = Some (Inr xsdt, st4)" "bi = f_bootinfo fr" "e_calls st' = e_calls st4 @ [x, y]"
    "load_bootinfo (e_mem st') bi = make_bootinfo (fw_gop fw (length (e_calls st4))) (mem_map, sz, desc_size) xsdt disk"
proof -
  obtain st1 st2 st3 kf bd e where r: "open_gop fw st = Some (Inr (), st1)" "get_kernel fw st1 = Some (Inr (kf, bd), st2)"
    "parse_elf fw kf st2 = Some (Inr e, st3)" "start_kernel fw fr e bd st3 = Some (Inr (entry, bi), st')"
    using run by (auto simp: efi_main_def andthen_Some case_prod_unfold)
  from start_kernel_end [OF r(4)] obtain mem_map sz key desc_size xsdt st4 x y where
    s: "get_memory_map fw (f_mem_map_size fr) st3 = Some (Inr (mem_map, sz, key, desc_size), st4)"
      "get_xsdt fw (f_xsdp fr) st4 = Some (Inr xsdt, st4)" "(entry, bi) = (e, f_bootinfo fr)" "e_calls st' = e_calls st4 @ [x, y]"
    and m: "let n = length (e_calls st4) in
       e_mem st' = fw_mem fw (n + 1) (Exit_boot_services key) (fw_mem fw n Clear_console
         (store_bootinfo (e_mem st4) (f_bootinfo fr) (make_bootinfo (fw_gop fw n) (mem_map, sz, desc_size) xsdt bd)))"
    by metis
  have "load_bootinfo (e_mem st') (f_bootinfo fr) =
      make_bootinfo (fw_gop fw (length (e_calls st4))) (mem_map, sz, desc_size) xsdt bd"
    unfolding m [unfolded Let_def]
    by (subst load_bootinfo_store [symmetric], rule load_bootinfo_cong) (use stack in \<open>simp add: spares_bootinfo_def\<close>)
  with s r(1-3) show thesis by (intro that) simp_all
qed

text \<open>
  C2: the kernel starts with what the loader found. If the loader jumps and the two calls after
  \<open>BootInfo\<close> is filled leave its bytes alone, \<open>_start\<close> gets the address of that structure and reads
  from it the frame buffer of the graphics protocol, the memory map with the size and descriptor
  size that were read last, the ACPI root table that was accepted and the location of the disk
  from which the kernel was read.
\<close>

theorem kernel_reads_what_loader_found:
  assumes run: "efi_main fw fr st = Some (Inr (entry, bi), st')"
    and stack: "spares_bootinfo fw fr"
    and kernel: "mem (k_mach k) = e_mem st'"
  shows "\<exists>st1 st2 st3 st4 kernel_file disk g mem_map sz key desc_size xsdt.
     open_gop fw st = Some (Inr (), st1) \<and> get_kernel fw st1 = Some (Inr (kernel_file, disk), st2) \<and>
     parse_elf fw kernel_file st2 = Some (Inr entry, st3) \<and>
     get_memory_map fw (f_mem_map_size fr) st3 = Some (Inr (mem_map, sz, key, desc_size), st4) \<and>
     get_xsdt fw (f_xsdp fr) st4 = Some (Inr xsdt, st4) \<and> g = fw_gop fw (length (e_calls st4)) \<and>
     bi = f_bootinfo fr \<and>
     read_bootinfo bi k = k\<lparr>
       k_graphics := \<lparr>framebuffer_base = gop_base g, framebuffer_size = gop_size g, g_width = gop_hres g,
         g_height = gop_vres g, pixels_per_scanline = gop_pps g, g_x = 0, g_y = 0\<rparr>,
       k_mmap := \<lparr>mm_map = mem_map, mm_size = sz, mm_desc_size = desc_size\<rparr>,
       k_xsdt := xsdt, k_bootdisk := disk\<rparr>"
proof -
  obtain st1 st2 st3 st4 kernel_file disk mem_map sz key desc_size xsdt x y where
    r: "open_gop fw st = Some (Inr (), st1)" "get_kernel fw st1 = Some (Inr (kernel_file, disk), st2)"
    "parse_elf fw kernel_file st2 = Some (Inr entry, st3)"
    "get_memory_map fw (f_mem_map_size fr) st3 = Some (Inr (mem_map, sz, key, desc_size), st4)"
    "get_xsdt fw (f_xsdp fr) st4 = Some (Inr xsdt, st4)" "bi = f_bootinfo fr" "e_calls st' = e_calls st4 @ [x, y]"
    and b: "load_bootinfo (e_mem st') bi = make_bootinfo (fw_gop fw (length (e_calls st4))) (mem_map, sz, desc_size) xsdt disk"
    using loader_leaves_bootinfo [OF run stack] .
  have "read_bootinfo bi k = (let g = fw_gop fw (length (e_calls st4)) in k\<lparr>
       k_graphics := \<lparr>framebuffer_base = gop_base g, framebuffer_size = gop_size g, g_width = gop_hres g,
         g_height = gop_vres g, pixels_per_scanline = gop_pps g, g_x = 0, g_y = 0\<rparr>,
       k_mmap := \<lparr>mm_map = mem_map, mm_size = sz, mm_desc_size = desc_size\<rparr>,
       k_xsdt := xsdt, k_bootdisk := disk\<rparr>)"
    by (simp add: read_bootinfo_def kernel b make_bootinfo_def Let_def)
  with r(1-6) show ?thesis unfolding Let_def by (intro exI conjI) (assumption | rule refl)+
qed

theorem kernel_reads_what_loader_found_witness:
  "\<exists>st' k mem_map s d xsdt disk.
     efi_main ex_fw ex_frame ex_start = Some (Inr (0x200000, 0x7000), st') \<and> mem (k_mach k) = e_mem st' \<and>
     read_bootinfo 0x7000 k = k\<lparr>
       k_graphics := \<lparr>framebuffer_base = 0xC0000000, framebuffer_size = 0x7E9000, g_width = 1920,
         g_height = 1080, pixels_per_scanline = 1920, g_x = 0, g_y = 0\<rparr>,
       k_mmap := \<lparr>mm_map = mem_map, mm_size = s, mm_desc_size = d\<rparr>,
       k_xsdt := xsdt, k_bootdisk := disk\<rparr>"
proof -
  obtain st' where run: "efi_main ex_fw ex_frame ex_start = Some (Inr (0x200000, 0x7000), st')" using loader_run by blast
  define k where "k = ex_kernel\<lparr>k_mach := (k_mach ex_kernel)\<lparr>mem := e_mem st'\<rparr>\<rparr>"
  have k: "mem (k_mach k) = e_mem st'" by (simp add: k_def)
  have "spares_bootinfo ex_fw ex_frame" by (simp add: spares_bootinfo_def disk_mem_def)
  from kernel_reads_what_loader_found [OF run this k] obtain g mem_map xsdt disk n s d where
    "g = fw_gop ex_fw n" "read_bootinfo 0x7000 k = k\<lparr>
       k_graphics := \<lparr>framebuffer_base = gop_base g, framebuffer_size = gop_size g, g_width = gop_hres g,
         g_height = gop_vres g, pixels_per_scanline = gop_pps g, g_x = 0, g_y = 0\<rparr>,
       k_mmap := \<lparr>mm_map = mem_map, mm_size = s, mm_desc_size = d\<rparr>,
       k_xsdt := xsdt, k_bootdisk := disk\<rparr>"
    by (elim exE conjE) (rule that, assumption+)
  then have "read_bootinfo 0x7000 k = k\<lparr>
       k_graphics := \<lparr>framebuffer_base = 0xC0000000, framebuffer_size = 0x7E9000, g_width = 1920,
         g_height = 1080, pixels_per_scanline = 1920, g_x = 0, g_y = 0\<rparr>,
       k_mmap := \<lparr>mm_map = mem_map, mm_size = s, mm_desc_size = d\<rparr>,
       k_xsdt := xsdt, k_bootdisk := disk\<rparr>"
    by (simp add: ex_gop_def)
  with run k show ?thesis by (intro exI conjI)
qed

end
