(* ===== verification/Layout.thy ===== *)
theory Layout
  imports Memory "HOL-Library.Sublist"
begin

text \<open>
  The layout of a packed C structure, from its declaration: its members in order with their widths in
  bits. A packed structure has no padding; on this machine the first bit-field of a unit takes the
  lowest bits, and the first byte of an integer is its lowest. A member is named by a path of
  member names and array indices, and its value is the number its bits make.
\<close>

section \<open>Declarations\<close>

datatype ctype = Bits nat | Array nat ctype | Struct "(string \<times> ctype) list"

abbreviation uint8_t :: ctype where "uint8_t \<equiv> Bits 8"
abbreviation uint16_t :: ctype where "uint16_t \<equiv> Bits 16"
abbreviation uint32_t :: ctype where "uint32_t \<equiv> Bits 32"
abbreviation uint64_t :: ctype where "uint64_t \<equiv> Bits 64"
abbreviation pointer :: ctype where "pointer \<equiv> Bits 64"

primrec width :: "ctype \<Rightarrow> nat" where
  "width (Bits n) = n"
| "width (Array n t) = n * width t"
| "width (Struct ms) = sum_list (map snd (map (map_prod id width) ms))"

abbreviation sizeof :: "ctype \<Rightarrow> nat" where "sizeof t \<equiv> width t div 8"

named_theorems decl_simps "the declarations of the program"

text \<open>The bit where a member begins, and its type.\<close>

fun member_at :: "nat \<Rightarrow> (string \<times> ctype) list \<Rightarrow> string \<Rightarrow> (nat \<times> ctype) option" where
  "member_at pos [] f = None"
| "member_at pos ((g, t) # ms) f = (if f = g then Some (pos, t) else member_at (pos + width t) ms f)"

datatype sel = Mem string | Nth nat

fun locate :: "ctype \<Rightarrow> sel list \<Rightarrow> (nat \<times> nat) option" where
  "locate t [] = Some (0, width t)"
| "locate (Struct ms) (Mem f # p) =
     (case member_at 0 ms f of None \<Rightarrow> None
      | Some (pos, t) \<Rightarrow> map_option (\<lambda>(q, w). (pos + q, w)) (locate t p))"
| "locate (Array n t) (Nth i # p) =
     (if i < n then map_option (\<lambda>(q, w). (i * width t + q, w)) (locate t p) else None)"
| "locate t (s # p) = None"

text \<open>What a declaration must have for its members to be told apart and to be where the compiler puts
  them: different names, no empty bit-field, and arrays and structures of whole bytes at whole bytes.\<close>

fun whole_bytes :: "nat \<Rightarrow> (string \<times> ctype) list \<Rightarrow> bool" where
  "whole_bytes pos [] = True"
| "whole_bytes pos ((f, Bits n) # ms) = whole_bytes (pos + n) ms"
| "whole_bytes pos ((f, t) # ms) = (pos mod 8 = 0 \<and> width t mod 8 = 0 \<and> whole_bytes (pos + width t) ms)"

primrec well_declared :: "ctype \<Rightarrow> bool" where
  "well_declared (Bits n) = (0 < n)"
| "well_declared (Array n t) = well_declared t"
| "well_declared (Struct ms) = (distinct (map fst ms) \<and> whole_bytes 0 ms \<and>
     list_all snd (map (map_prod id well_declared) ms))"

section \<open>Values in memory\<close>

definition mem_bit :: "mem \<Rightarrow> u64 \<Rightarrow> nat \<Rightarrow> bool" where
  "mem_bit m a i = bit (m (a + of_nat (i div 8))) (i mod 8)"

definition bits_at :: "mem \<Rightarrow> u64 \<Rightarrow> nat \<Rightarrow> nat \<Rightarrow> nat" where
  "bits_at m a pos w = horner_sum of_bool 2 (map (mem_bit m a) [pos..<pos + w])"

definition value_of :: "ctype \<Rightarrow> sel list \<Rightarrow> mem \<Rightarrow> u64 \<Rightarrow> nat option" where
  "value_of t p m a = map_option (\<lambda>(pos, w). bits_at m a pos w) (locate t p)"

lemma bit_bits_at: "bit (bits_at m a pos w) i \<longleftrightarrow> i < w \<and> mem_bit m a (pos + i)"
  by (auto simp: bits_at_def bit_horner_sum_bit_iff nth_append)

text \<open>A load, and a field of a load, as the value at a position.\<close>

lemma mem_bit_load:
  "j < 8 * k \<Longrightarrow> j < LENGTH('a) \<Longrightarrow> mem_bit m a (8 * off + j) = bit (load_le k m (a + of_nat off) :: 'a::len word) j"
  by (simp add: mem_bit_def bit_load_le add.assoc)

lemma load_bits:
  assumes "s + w \<le> 8 * k" and "s + w \<le> LENGTH('a)"
  shows "unat (take_bit w (drop_bit s (load_le k m (a + of_nat off) :: 'a::len word))) = bits_at m a (8 * off + s) w"
proof (rule bit_eqI)
  fix i
  have "mem_bit m a (8 * off + (s + i)) = bit (load_le k m (a + of_nat off) :: 'a word) (s + i)" if "i < w"
    using that assms by (intro mem_bit_load) linarith+
  then show "bit (unat (take_bit w (drop_bit s (load_le k m (a + of_nat off) :: 'a word)))) i \<longleftrightarrow> bit (bits_at m a (8 * off + s) w) i"
    by (auto simp: bit_bits_at bit_unsigned_iff bit_take_bit_iff bit_drop_bit_eq add.assoc dest: bit_imp_le_length)
qed

lemma load_whole:
  "8 * k = LENGTH('a) \<Longrightarrow> unat (load_le k m (a + of_nat off) :: 'a::len word) = bits_at m a (8 * off) (8 * k)"
  using load_bits [where 'a = 'a, of 0 "8 * k" k m a off] by simp

text \<open>The members of whole bytes, at whole bytes.\<close>

lemma bits_whole:
  assumes "pos mod 8 = 0"
  shows "bits_at m a pos 8 = unat (m (a + of_nat (pos div 8)))"
    and "bits_at m a pos 16 = unat (load16 m (a + of_nat (pos div 8)))"
    and "bits_at m a pos 32 = unat (load32 m (a + of_nat (pos div 8)))"
    and "bits_at m a pos 64 = unat (load64 m (a + of_nat (pos div 8)))"
proof -
  have p: "8 * (pos div 8) = pos" using assms by presburger
  note L = load_whole [of _ m a "pos div 8", unfolded p]
  show "bits_at m a pos 8 = unat (m (a + of_nat (pos div 8)))"
    using L [of 1, where 'a = 8] by simp
  show "bits_at m a pos 16 = unat (load16 m (a + of_nat (pos div 8)))" using L [of 2, where 'a = 16] by simp
  show "bits_at m a pos 32 = unat (load32 m (a + of_nat (pos div 8)))" using L [of 4, where 'a = 32] by simp
  show "bits_at m a pos 64 = unat (load64 m (a + of_nat (pos div 8)))" using L [of 8, where 'a = 64] by simp
qed

lemma bits_at_cong: "(\<And>i. pos \<le> i \<Longrightarrow> i < pos + w \<Longrightarrow> mem_bit m a i = mem_bit m' b i) \<Longrightarrow> bits_at m a pos w = bits_at m' b pos w"
  unfolding bits_at_def by (rule arg_cong [where f = "horner_sum of_bool 2"]) simp

lemma bits_at_less: "bits_at m a pos w < 2 ^ w"
  using horner_sum_of_bool_2_less [of "map (mem_bit m a) [pos..<pos + w]"] by (simp add: bits_at_def)

section \<open>Members do not overlap\<close>

lemma member_at_ge: "member_at pos ms f = Some (q, t) \<Longrightarrow> pos \<le> q \<and> q + width t \<le> pos + width (Struct ms)"
  by (induction pos ms f rule: member_at.induct) (auto split: if_splits)

lemma locate_within: "locate t p = Some (pos, w) \<Longrightarrow> pos + w \<le> width t"
proof (induction t p arbitrary: pos w rule: locate.induct)
  case (2 ms f p)
  then obtain q t' pos' where m: "member_at 0 ms f = Some (q, t')" "locate t' p = Some (pos', w)" "pos = q + pos'"
    by (auto split: option.splits)
  with 2(1) [of "(q, t')" q t'] member_at_ge [OF m(1)] show ?case by fastforce
next
  case (3 n t i p)
  then obtain pos' where m: "i < n" "locate t p = Some (pos', w)" "pos = i * width t + pos'" by (auto split: if_splits)
  with 3(1) have "pos' + w \<le> width t" by blast
  moreover have "(i + 1) * width t \<le> n * width t" using m(1) by (intro mult_le_mono1) simp
  ultimately show ?case using m by simp
qed auto

definition apart_bits :: "nat \<times> nat \<Rightarrow> nat \<times> nat \<Rightarrow> bool" where
  "apart_bits x y \<longleftrightarrow> fst x + snd x \<le> fst y \<or> fst y + snd y \<le> fst x"

lemma member_at_apart:
  "member_at pos ms f = Some (q, t) \<Longrightarrow> member_at pos ms g = Some (q', t') \<Longrightarrow> f \<noteq> g \<Longrightarrow>
   q + width t \<le> q' \<or> q' + width t' \<le> q"
proof (induction pos ms f rule: member_at.induct)
  case (2 pos h t0 ms f)
  then show ?case
    using member_at_ge [of "pos + width t0" ms f q t] member_at_ge [of "pos + width t0" ms g q' t'] by (auto split: if_splits)
qed simp

text \<open>Two paths, neither of which leads into the other, name members that share no bit.\<close>

lemma locate_apart:
  "locate t p = Some x \<Longrightarrow> locate t q = Some y \<Longrightarrow> parallel p q \<Longrightarrow> apart_bits x y"
proof (induction t p arbitrary: q x y rule: locate.induct)
  case (1 t)
  then show ?case by simp
next
  case (2 ms f p)
  then obtain s q' where q: "q = s # q'" by (cases q) auto
  with 2 obtain g where s: "s = Mem g" by (cases s) auto
  from 2(2) obtain o1 t1 x1 where f: "member_at 0 ms f = Some (o1, t1)" "locate t1 p = Some x1" "x = (o1 + fst x1, snd x1)"
    by (auto split: option.splits)
  from 2(3) obtain o2 t2 y1 where g: "member_at 0 ms g = Some (o2, t2)" "locate t2 q' = Some y1" "y = (o2 + fst y1, snd y1)"
    by (auto simp: q s split: option.splits)
  show ?case
  proof (cases "f = g")
    case True
    with 2(4) have "parallel p q'" by (auto simp: q s parallel_def)
    with 2(1) [of "(o1, t1)" o1 t1] f g True show ?thesis by (auto simp: apart_bits_def)
  next
    case False
    with member_at_apart [OF f(1) g(1)] locate_within [of t1 p "fst x1" "snd x1"] locate_within [of t2 q' "fst y1" "snd y1"] f g
    show ?thesis by (auto simp: apart_bits_def)
  qed
next
  case (3 n t i p)
  then obtain s q' where q: "q = s # q'" by (cases q) auto
  with 3 obtain j where s: "s = Nth j" by (cases s) auto
  from 3(2) obtain x1 where f: "i < n" "locate t p = Some x1" "x = (i * width t + fst x1, snd x1)" by (auto split: if_splits)
  from 3(3) obtain y1 where g: "locate t q' = Some y1" "y = (j * width t + fst y1, snd y1)" by (auto simp: q s split: if_splits)
  show ?case
  proof (cases "i = j")
    case True
    with 3(4) have "parallel p q'" by (auto simp: q s parallel_def)
    with 3(1) f g True show ?thesis by (auto simp: apart_bits_def)
  next
    case False
    have "(i + 1) * width t \<le> j * width t \<or> (j + 1) * width t \<le> i * width t"
      using False by (metis Suc_eq_plus1 Suc_leI linorder_neqE_nat mult_le_mono1)
    with locate_within [of t p "fst x1" "snd x1"] locate_within [of t q' "fst y1" "snd y1"] f g
    show ?thesis by (auto simp: apart_bits_def)
  qed
qed auto

end
