(* ===== verification/Decl_Disk.thy ===== *)
theory Decl_Disk
  imports Layout
begin

text \<open>
  The packed structures of the boot loader, of its hand-over and of the disk: \<open>boot/efi/inc\<close>,
  \<open>boot/kernel/bootinfo.h\<close>, the kernel's copies under \<open>fs\<close>, and \<open>boot/kernel/proc.h\<close>. The ELF structures are
  not declared packed; their members are aligned, so there is no padding either.
\<close>

section \<open>boot/efi/inc\<close>

definition GPT_HEADER :: ctype where [decl_simps]:
  "GPT_HEADER = Struct [(''sign'', Array 8 uint8_t), (''rev'', uint32_t), (''header_size'', uint32_t),
     (''header_chksum'', uint32_t), (''reserved'', uint32_t), (''header_lba'', uint64_t),
     (''backup_header_lba'', uint64_t), (''part_start_lba'', uint64_t), (''part_end_lba'', uint64_t),
     (''disk_guid'', Array 16 uint8_t), (''part_tbl_start_lba'', uint64_t), (''part_entry_num'', uint32_t),
     (''gpt_entry_size'', uint32_t), (''part_tbl_chksum'', uint32_t)]"

definition GPT_PARTITION_ENTRY :: ctype where [decl_simps]:
  "GPT_PARTITION_ENTRY = Struct [(''part_type_guid'', Array 16 uint8_t), (''part_guid'', Array 16 uint8_t),
     (''part_start_lba'', uint64_t), (''part_end_lba'', uint64_t), (''part_attr'', uint64_t),
     (''part_name'', Array 36 uint16_t)]"

definition EXT2_SUPERBLOCK :: ctype where [decl_simps]:
  "EXT2_SUPERBLOCK = Struct [(''inode_cnt'', uint32_t), (''block_cnt'', uint32_t), (''r_block_cnt'', uint32_t),
     (''free_block_cnt'', uint32_t), (''free_inode_cnt'', uint32_t), (''first_data_block'', uint32_t),
     (''log_block_size'', uint32_t), (''log_frag_size'', uint32_t), (''block_per_group'', uint32_t),
     (''frag_per_group'', uint32_t), (''inode_per_group'', uint32_t), (''mtime'', uint32_t),
     (''wtime'', uint32_t), (''mnt_cnt'', uint16_t), (''max_mnt_cnt'', uint16_t), (''magic'', uint16_t),
     (''state'', uint16_t), (''error'', uint16_t), (''minor_rev_level'', uint16_t), (''last_chk'', uint32_t),
     (''chk_interval'', uint32_t), (''creator_os'', uint32_t), (''rev_level'', uint32_t),
     (''def_resuid'', uint16_t), (''def_resgid'', uint16_t), (''first_inode'', uint32_t),
     (''inode_size'', uint16_t), (''block_group_nr'', uint16_t), (''feature_compat'', uint32_t),
     (''feature_incompat'', uint32_t), (''feature_ro_compat'', uint32_t), (''uuid'', Array 16 uint8_t),
     (''vol_name'', Array 16 uint8_t), (''last_mnt'', Array 64 uint8_t), (''algo_bitmap'', uint32_t),
     (''prealloc_block'', uint8_t), (''prealloc_dir_block'', uint8_t), (''align'', Array 2 uint8_t),
     (''journal_uuid'', Array 16 uint8_t), (''journal_inode_num'', uint32_t), (''journal_dev'', uint32_t),
     (''last_orphan'', uint32_t), (''hash_seed'', Array 4 uint32_t), (''def_hash_ver'', uint8_t),
     (''res0'', Array 3 uint8_t), (''def_mnt_opt'', uint32_t), (''first_meta_bg'', uint32_t),
     (''res1'', Array 760 uint8_t)]"

definition EXT2_BLOCK_GROUP_DESCRIPTOR :: ctype where [decl_simps]:
  "EXT2_BLOCK_GROUP_DESCRIPTOR = Struct [(''block_bitmap'', uint32_t), (''inode_bitmap'', uint32_t),
     (''inode_table'', uint32_t), (''free_block_cnt'', uint16_t), (''free_inode_cnt'', uint16_t),
     (''used_dir_cnt'', uint16_t), (''align'', uint16_t), (''res0'', Array 12 uint8_t)]"

definition EXT2_INODE :: ctype where [decl_simps]:
  "EXT2_INODE = Struct [(''mode'', uint16_t), (''uid'', uint16_t), (''size'', uint32_t), (''atime'', uint32_t),
     (''ctime'', uint32_t), (''mtime'', uint32_t), (''dtime'', uint32_t), (''gid'', uint16_t),
     (''link_cnt'', uint16_t), (''block_cnt'', uint32_t), (''flag'', uint32_t), (''osd1'', uint32_t),
     (''block'', Array 15 uint32_t), (''gen'', uint32_t), (''file_acl'', uint32_t), (''dir_acl'', uint32_t),
     (''faddr'', uint32_t), (''osd2'', Array 3 uint32_t)]"

definition EXT2_DIRECTORY_ENTRY :: ctype where [decl_simps]:
  "EXT2_DIRECTORY_ENTRY = Struct [(''inode'', uint32_t), (''rec_len'', uint16_t), (''name_len'', uint8_t),
     (''file_type'', uint8_t), (''name'', Array 255 uint8_t)]"

definition Elf64_Ehdr_decl :: ctype where [decl_simps]:
  "Elf64_Ehdr_decl = Struct [(''e_ident'', Array 16 uint8_t), (''e_type'', uint16_t), (''e_machine'', uint16_t),
     (''e_version'', uint32_t), (''e_entry'', uint64_t), (''e_phoff'', uint64_t), (''e_shoff'', uint64_t),
     (''e_flags'', uint32_t), (''e_ehsize'', uint16_t), (''e_phentsize'', uint16_t), (''e_phnum'', uint16_t),
     (''e_shentsize'', uint16_t), (''e_shnum'', uint16_t), (''e_shstrndx'', uint16_t)]"

definition Elf64_Phdr_decl :: ctype where [decl_simps]:
  "Elf64_Phdr_decl = Struct [(''p_type'', uint32_t), (''p_flags'', uint32_t), (''p_offset'', uint64_t),
     (''p_vaddr'', uint64_t), (''p_paddr'', uint64_t), (''p_filesz'', uint64_t), (''p_memsz'', uint64_t),
     (''p_align'', uint64_t)]"

definition ACPI_SDT_HEADER_efi :: ctype where [decl_simps]:
  "ACPI_SDT_HEADER_efi = Struct [(''sign'', Array 4 uint8_t), (''len'', uint32_t), (''rev'', uint8_t),
     (''chksum'', uint8_t), (''oem_id'', Array 6 uint8_t), (''oem_table_id'', Array 8 uint8_t),
     (''oem_rev'', uint32_t), (''creator_id'', uint32_t), (''creator_rev'', uint32_t)]"

definition ACPI_XSDP_efi :: ctype where [decl_simps]:
  "ACPI_XSDP_efi = Struct [(''sign'', Array 8 uint8_t), (''chksum'', uint8_t), (''oemid'', Array 6 uint8_t),
     (''rev'', uint8_t), (''rsdt_addr'', uint32_t), (''len'', uint32_t), (''xsdt_addr'', uint64_t),
     (''ext_chksum'', uint8_t), (''res'', Array 3 uint8_t)]"

definition ACPI_XSDT_efi :: ctype where [decl_simps]:
  "ACPI_XSDT_efi = Struct [(''header'', ACPI_SDT_HEADER_efi), (''entry'', pointer)]"

definition MEMORY_DESCRIPTOR_efi :: ctype where [decl_simps]:
  "MEMORY_DESCRIPTOR_efi = Struct [(''type'', uint32_t), (''pad'', uint32_t), (''phys_addr'', uint64_t),
     (''vir_addr'', uint64_t), (''num_pages'', uint64_t), (''attr'', uint64_t)]"

definition GRAPHICS_OUTPUT_PROTOCOL_efi :: ctype where [decl_simps]:
  "GRAPHICS_OUTPUT_PROTOCOL_efi = Struct [(''framebuffer_base'', uint64_t), (''framebuffer_size'', uint64_t),
     (''width'', uint32_t), (''height'', uint32_t), (''pixels_per_scanline'', uint32_t)]"

definition MEMORY_MAP_efi :: ctype where [decl_simps]:
  "MEMORY_MAP_efi = Struct [(''map'', pointer), (''size'', uint64_t), (''desc_size'', uint64_t)]"

definition BOOTDISK_ADDRESS_efi :: ctype where [decl_simps]:
  "BOOTDISK_ADDRESS_efi = Struct [(''seg'', uint64_t), (''bus'', uint8_t), (''dev'', uint8_t),
     (''func'', uint8_t)]"

definition BOOTINFO_efi :: ctype where [decl_simps]:
  "BOOTINFO_efi = Struct [(''gop'', GRAPHICS_OUTPUT_PROTOCOL_efi), (''mem_map'', MEMORY_MAP_efi),
     (''xsdt_addr'', uint64_t), (''bootdisk_addr'', BOOTDISK_ADDRESS_efi)]"

section \<open>boot/kernel/bootinfo.h and boot/kernel/proc.h\<close>

definition MEMORY_DESCRIPTOR :: ctype where [decl_simps]:
  "MEMORY_DESCRIPTOR = Struct [(''type'', uint32_t), (''pad'', uint32_t), (''phys_addr'', uint64_t),
     (''vir_addr'', uint64_t), (''num_pages'', uint64_t), (''attr'', uint64_t)]"

definition GRAPHICS_OUTPUT_PROTOCOL_decl :: ctype where [decl_simps]:
  "GRAPHICS_OUTPUT_PROTOCOL_decl = Struct [(''framebuffer_base'', uint64_t), (''framebuffer_size'', uint64_t),
     (''width'', uint32_t), (''height'', uint32_t), (''pixels_per_scanline'', uint32_t)]"

definition MEMORY_MAP_decl :: ctype where [decl_simps]:
  "MEMORY_MAP_decl = Struct [(''map'', pointer), (''size'', uint64_t), (''desc_size'', uint64_t)]"

definition BOOTDISK_ADDRESS_decl :: ctype where [decl_simps]:
  "BOOTDISK_ADDRESS_decl = Struct [(''seg'', uint64_t), (''bus'', uint8_t), (''dev'', uint8_t),
     (''func'', uint8_t)]"

definition BOOTINFO_decl :: ctype where [decl_simps]:
  "BOOTINFO_decl = Struct [(''gop'', GRAPHICS_OUTPUT_PROTOCOL_decl), (''mem_map'', MEMORY_MAP_decl),
     (''xsdt_addr'', uint64_t), (''bootdisk_addr'', BOOTDISK_ADDRESS_decl)]"

definition PROCESS :: ctype where [decl_simps]:
  "PROCESS = Struct [(''pid'', uint64_t), (''page_tbl'', pointer), (''entry'', pointer),
     (''usr_stack'', pointer)]"

section \<open>The kernel's copies of the disk layouts\<close>

definition GPT_HEADER_fs :: ctype where [decl_simps]:
  "GPT_HEADER_fs = Struct [(''sign'', Array 8 uint8_t), (''rev'', uint32_t), (''header_size'', uint32_t),
     (''header_chksum'', uint32_t), (''reserved'', uint32_t), (''header_lba'', uint64_t),
     (''backup_header_lba'', uint64_t), (''part_start_lba'', uint64_t), (''part_end_lba'', uint64_t),
     (''disk_guid'', Array 16 uint8_t), (''part_tbl_start_lba'', uint64_t), (''part_entry_num'', uint32_t),
     (''gpt_entry_size'', uint32_t), (''part_tbl_chksum'', uint32_t)]"

definition GPT_PARTITION_ENTRY_fs :: ctype where [decl_simps]:
  "GPT_PARTITION_ENTRY_fs = Struct [(''part_type_guid'', Array 16 uint8_t), (''part_guid'', Array 16 uint8_t),
     (''part_start_lba'', uint64_t), (''part_end_lba'', uint64_t), (''part_attr'', uint64_t),
     (''part_name'', Array 36 uint16_t)]"

definition EXT2_SUPERBLOCK_fs :: ctype where [decl_simps]:
  "EXT2_SUPERBLOCK_fs = Struct [(''inode_cnt'', uint32_t), (''block_cnt'', uint32_t),
     (''r_block_cnt'', uint32_t), (''free_block_cnt'', uint32_t), (''free_inode_cnt'', uint32_t),
     (''first_data_block'', uint32_t), (''log_block_size'', uint32_t), (''log_frag_size'', uint32_t),
     (''block_per_group'', uint32_t), (''frag_per_group'', uint32_t), (''inode_per_group'', uint32_t),
     (''mtime'', uint32_t), (''wtime'', uint32_t), (''mnt_cnt'', uint16_t), (''max_mnt_cnt'', uint16_t),
     (''magic'', uint16_t), (''state'', uint16_t), (''error'', uint16_t), (''minor_rev_level'', uint16_t),
     (''last_chk'', uint32_t), (''chk_interval'', uint32_t), (''creator_os'', uint32_t),
     (''rev_level'', uint32_t), (''def_resuid'', uint16_t), (''def_resgid'', uint16_t),
     (''first_inode'', uint32_t), (''inode_size'', uint16_t), (''block_group_nr'', uint16_t),
     (''feature_compat'', uint32_t), (''feature_incompat'', uint32_t), (''feature_ro_compat'', uint32_t),
     (''uuid'', Array 16 uint8_t), (''vol_name'', Array 16 uint8_t), (''last_mnt'', Array 64 uint8_t),
     (''algo_bitmap'', uint32_t), (''prealloc_block'', uint8_t), (''prealloc_dir_block'', uint8_t),
     (''align'', Array 2 uint8_t), (''journal_uuid'', Array 16 uint8_t), (''journal_inode_num'', uint32_t),
     (''journal_dev'', uint32_t), (''last_orphan'', uint32_t), (''hash_seed'', Array 4 uint32_t),
     (''def_hash_ver'', uint8_t), (''res0'', Array 3 uint8_t), (''def_mnt_opt'', uint32_t),
     (''first_meta_bg'', uint32_t), (''res1'', Array 760 uint8_t)]"

definition EXT2_BLOCK_GROUP_DESCRIPTOR_fs :: ctype where [decl_simps]:
  "EXT2_BLOCK_GROUP_DESCRIPTOR_fs = Struct [(''block_bitmap'', uint32_t), (''inode_bitmap'', uint32_t),
     (''inode_table'', uint32_t), (''free_block_cnt'', uint16_t), (''free_inode_cnt'', uint16_t),
     (''used_dir_cnt'', uint16_t), (''align'', uint16_t), (''res0'', Array 12 uint8_t)]"

definition EXT2_INODE_fs :: ctype where [decl_simps]:
  "EXT2_INODE_fs = Struct [(''mode'', uint16_t), (''uid'', uint16_t), (''size'', uint32_t),
     (''atime'', uint32_t), (''ctime'', uint32_t), (''mtime'', uint32_t), (''dtime'', uint32_t),
     (''gid'', uint16_t), (''link_cnt'', uint16_t), (''block_cnt'', uint32_t), (''flag'', uint32_t),
     (''osd1'', uint32_t), (''block'', Array 15 uint32_t), (''gen'', uint32_t), (''file_acl'', uint32_t),
     (''dir_acl'', uint32_t), (''faddr'', uint32_t), (''osd2'', Array 3 uint32_t)]"

definition EXT2_DIRECTORY_ENTRY_fs :: ctype where [decl_simps]:
  "EXT2_DIRECTORY_ENTRY_fs = Struct [(''inode'', uint32_t), (''rec_len'', uint16_t), (''name_len'', uint8_t),
     (''file_type'', uint8_t), (''name'', Array 255 uint8_t)]"

end
