(* ===== verification/Decl_Devices.thy ===== *)
theory Decl_Devices
  imports Layout
begin

text \<open>
  The packed structures that the device headers declare: \<open>dev/nvme/nvme.h\<close>, \<open>dev/acpi/acpi.h\<close>,
  \<open>dev/pci/pcie.h\<close> and \<open>dev/ahci/ahci.h\<close>, member by member. The code reads and writes only some of
  them; where it does, \<open>Layout_Props\<close> and \<open>Nvme_Fields\<close> relate its offsets to these declarations.
  The last member of a structure may be an array without a length, here one of length 0.
\<close>

section \<open>dev/nvme/nvme.h\<close>

definition NVME_CONTROLLER_CAPABILITIES :: ctype where [decl_simps]:
  "NVME_CONTROLLER_CAPABILITIES = Struct [(''mqes'', Bits 16), (''cqr'', Bits 1), (''ams'', Bits 2),
     (''res0'', Bits 5), (''to'', Bits 8), (''dstrd'', Bits 4), (''nssrs'', Bits 1), (''css'', Bits 8),
     (''bps'', Bits 1), (''cps'', Bits 2), (''mpsmin'', Bits 4), (''mpsmax'', Bits 4), (''pmrs'', Bits 1),
     (''cmbs'', Bits 1), (''nsss'', Bits 1), (''crms'', Bits 2), (''nsses'', Bits 1), (''res1'', Bits 2)]"

definition NVME_SPECIFICATION_VERSION_DESCRIPTOR :: ctype where [decl_simps]:
  "NVME_SPECIFICATION_VERSION_DESCRIPTOR = Struct [(''ter'', Bits 8), (''mnr'', Bits 8), (''mjr'', Bits 16)]"

definition NVME_INTERRUPT_MASK_SET :: ctype where [decl_simps]:
  "NVME_INTERRUPT_MASK_SET = Struct [(''ivms'', Bits 32)]"

definition NVME_INTERRUPT_MASK_CLEAR :: ctype where [decl_simps]:
  "NVME_INTERRUPT_MASK_CLEAR = Struct [(''ivmc'', Bits 32)]"

definition NVME_CONTROLLER_CONFIGURATION :: ctype where [decl_simps]:
  "NVME_CONTROLLER_CONFIGURATION = Struct [(''en'', Bits 1), (''res0'', Bits 3), (''css'', Bits 3),
     (''mps'', Bits 4), (''ams'', Bits 3), (''shn'', Bits 2), (''iosqes'', Bits 4), (''iocqes'', Bits 4),
     (''crime'', Bits 1), (''res1'', Bits 7)]"

definition NVME_CONTROLLER_STATUS :: ctype where [decl_simps]:
  "NVME_CONTROLLER_STATUS = Struct [(''rdy'', Bits 1), (''cfs'', Bits 1), (''shst'', Bits 2),
     (''nssro'', Bits 1), (''pp'', Bits 1), (''st'', Bits 1), (''res'', Bits 25)]"

definition NVME_NVM_SUBSYSTEM_RESET :: ctype where [decl_simps]:
  "NVME_NVM_SUBSYSTEM_RESET = Struct [(''nssrc'', Bits 32)]"

definition NVME_ADMIN_QUEUE_ATTRIBUTES :: ctype where [decl_simps]:
  "NVME_ADMIN_QUEUE_ATTRIBUTES = Struct [(''asqs'', Bits 12), (''res0'', Bits 4), (''acqs'', Bits 12),
     (''res1'', Bits 4)]"

definition NVME_ADMIN_SUBMISSION_QUEUE_BASE_ADDRESS :: ctype where [decl_simps]:
  "NVME_ADMIN_SUBMISSION_QUEUE_BASE_ADDRESS = Struct [(''res'', Bits 12), (''asqb'', Bits 52)]"

definition NVME_ADMIN_COMPLETION_QUEUE_BASE_ADDRESS :: ctype where [decl_simps]:
  "NVME_ADMIN_COMPLETION_QUEUE_BASE_ADDRESS = Struct [(''res'', Bits 12), (''acqb'', Bits 52)]"

definition NVME_CONTROLLER_MEMORY_BUFFER_LOCATION :: ctype where [decl_simps]:
  "NVME_CONTROLLER_MEMORY_BUFFER_LOCATION = Struct [(''bir'', Bits 3), (''cqmms'', Bits 1), (''cqpds'', Bits 1),
     (''cdpmls'', Bits 1), (''cdpcils'', Bits 1), (''cdmmms'', Bits 1), (''cqda'', Bits 1), (''res'', Bits 3),
     (''ofst'', Bits 20)]"

definition NVME_CONTROLLER_MEMORY_BUFFER_SIZE :: ctype where [decl_simps]:
  "NVME_CONTROLLER_MEMORY_BUFFER_SIZE = Struct [(''sqs'', Bits 1), (''cqs'', Bits 1), (''lists'', Bits 1),
     (''rds'', Bits 1), (''wds'', Bits 1), (''res'', Bits 3), (''szu'', Bits 4), (''sz'', Bits 20)]"

definition NVME_BOOT_PARTITION_INFORMATION :: ctype where [decl_simps]:
  "NVME_BOOT_PARTITION_INFORMATION = Struct [(''bpsz'', Bits 15), (''res0'', Bits 9), (''brs'', Bits 2),
     (''res1'', Bits 5), (''abpid'', Bits 1)]"

definition NVME_BOOT_PARTITION_READ_SELECT :: ctype where [decl_simps]:
  "NVME_BOOT_PARTITION_READ_SELECT = Struct [(''bprsz'', Bits 10), (''bprof'', Bits 20), (''res'', Bits 1),
     (''bpid'', Bits 1)]"

definition NVME_BOOT_PARTITION_MEMORY_BUFFER_LOCATION :: ctype where [decl_simps]:
  "NVME_BOOT_PARTITION_MEMORY_BUFFER_LOCATION = Struct [(''res'', Bits 12), (''bmbba'', Bits 52)]"

definition NVME_CONTROLLER_MEMORY_BUFFER_MEMORY_SPCAE_CONTROL :: ctype where [decl_simps]:
  "NVME_CONTROLLER_MEMORY_BUFFER_MEMORY_SPCAE_CONTROL = Struct [(''cre'', Bits 1), (''cmse'', Bits 1),
     (''res'', Bits 10), (''cba'', Bits 52)]"

definition NVME_CONTROLLER_MEMORY_BUFFER_STATUS :: ctype where [decl_simps]:
  "NVME_CONTROLLER_MEMORY_BUFFER_STATUS = Struct [(''cbai'', Bits 1), (''res'', Bits 31)]"

definition NVME_CONTROLLER_MEMORY_BUFFER_ELASTICITY_BUFFER_SIZE :: ctype where [decl_simps]:
  "NVME_CONTROLLER_MEMORY_BUFFER_ELASTICITY_BUFFER_SIZE = Struct [(''cmbszu'', Bits 4), (''cmbrbb'', Bits 1),
     (''res'', Bits 3), (''cmbwbz'', Bits 24)]"

definition NVME_CONTROLLER_MEMORY_BUFFER_SUSTAINED_WRITE_THROUGHPUT :: ctype where [decl_simps]:
  "NVME_CONTROLLER_MEMORY_BUFFER_SUSTAINED_WRITE_THROUGHPUT = Struct [(''cmbswtu'', Bits 4), (''res'', Bits 4),
     (''cmbswtv'', Bits 24)]"

definition NVME_NVM_SUBSYSTEM_SHUTDOWN :: ctype where [decl_simps]:
  "NVME_NVM_SUBSYSTEM_SHUTDOWN = Struct [(''nssc'', Bits 32)]"

definition NVME_CONTROLLER_READY_TIMEOUTS :: ctype where [decl_simps]:
  "NVME_CONTROLLER_READY_TIMEOUTS = Struct [(''crwmt'', Bits 16), (''crimt'', Bits 16)]"

definition NVME_PERSISTENT_MEMORY_REGION_CAPABILITIES :: ctype where [decl_simps]:
  "NVME_PERSISTENT_MEMORY_REGION_CAPABILITIES = Struct [(''res0'', Bits 3), (''rds'', Bits 1),
     (''wds'', Bits 1), (''bir'', Bits 3), (''pmrtu'', Bits 2), (''pmrwbm'', Bits 4), (''res1'', Bits 2),
     (''pmrto'', Bits 8), (''cmss'', Bits 1), (''res2'', Bits 7)]"

definition NVME_PERSISTENT_MEMORY_REGION_CONTROL :: ctype where [decl_simps]:
  "NVME_PERSISTENT_MEMORY_REGION_CONTROL = Struct [(''en'', Bits 1), (''res'', Bits 31)]"

definition NVME_PERSISTENT_MEMORY_REGION_STATUS :: ctype where [decl_simps]:
  "NVME_PERSISTENT_MEMORY_REGION_STATUS = Struct [(''err'', Bits 8), (''nrdy'', Bits 1), (''hsts'', Bits 3),
     (''cbai'', Bits 1), (''res'', Bits 19)]"

definition NVME_PERSISTENT_MEMORY_REGION_ELASTICITY_BUFFER_SIZE :: ctype where [decl_simps]:
  "NVME_PERSISTENT_MEMORY_REGION_ELASTICITY_BUFFER_SIZE = Struct [(''pmrszu'', Bits 4), (''pmrrbb'', Bits 1),
     (''res'', Bits 3), (''pmrwbs'', Bits 24)]"

definition NVME_PERSISTENT_MEMORY_REGION_SUSTAINED_WRITE_THROUGHPUT :: ctype where [decl_simps]:
  "NVME_PERSISTENT_MEMORY_REGION_SUSTAINED_WRITE_THROUGHPUT = Struct [(''pmrswtu'', Bits 4), (''res'', Bits 4),
     (''pmrswtv'', Bits 24)]"

definition NVME_PERSISTENT_MEMORY_REGION_MEMORY_SPACE_CONTROL_LOWER :: ctype where [decl_simps]:
  "NVME_PERSISTENT_MEMORY_REGION_MEMORY_SPACE_CONTROL_LOWER = Struct [(''res0'', Bits 1), (''cmse'', Bits 1),
     (''res1'', Bits 10), (''cba'', Bits 20)]"

definition NVME_PERSISTENT_MEMORY_REGION_MEMORY_SPACE_CONTROL_UPPER :: ctype where [decl_simps]:
  "NVME_PERSISTENT_MEMORY_REGION_MEMORY_SPACE_CONTROL_UPPER = Struct [(''cba'', Bits 32)]"

definition NVME_CONTROLLER_REGISTERS :: ctype where [decl_simps]:
  "NVME_CONTROLLER_REGISTERS = Struct [(''cap'', NVME_CONTROLLER_CAPABILITIES),
     (''vs'', NVME_SPECIFICATION_VERSION_DESCRIPTOR), (''intms'', NVME_INTERRUPT_MASK_SET),
     (''intmc'', NVME_INTERRUPT_MASK_CLEAR), (''cc'', NVME_CONTROLLER_CONFIGURATION), (''res0'', uint32_t),
     (''csts'', NVME_CONTROLLER_STATUS), (''nssr'', NVME_NVM_SUBSYSTEM_RESET),
     (''aqa'', NVME_ADMIN_QUEUE_ATTRIBUTES), (''asq'', NVME_ADMIN_SUBMISSION_QUEUE_BASE_ADDRESS),
     (''acq'', NVME_ADMIN_COMPLETION_QUEUE_BASE_ADDRESS), (''cmbloc'', NVME_CONTROLLER_MEMORY_BUFFER_LOCATION),
     (''cmbsz'', NVME_CONTROLLER_MEMORY_BUFFER_SIZE), (''bpinfo'', NVME_BOOT_PARTITION_INFORMATION),
     (''bprsel'', NVME_BOOT_PARTITION_READ_SELECT), (''bpmbl'', NVME_BOOT_PARTITION_MEMORY_BUFFER_LOCATION),
     (''cmbmsc'', NVME_CONTROLLER_MEMORY_BUFFER_MEMORY_SPCAE_CONTROL),
     (''cmbsts'', NVME_CONTROLLER_MEMORY_BUFFER_STATUS),
     (''cmbebs'', NVME_CONTROLLER_MEMORY_BUFFER_ELASTICITY_BUFFER_SIZE),
     (''cmbswtp'', NVME_CONTROLLER_MEMORY_BUFFER_SUSTAINED_WRITE_THROUGHPUT),
     (''nssd'', NVME_NVM_SUBSYSTEM_SHUTDOWN), (''crto'', NVME_CONTROLLER_READY_TIMEOUTS),
     (''res1'', Array 0xd94 uint8_t), (''pmrcap'', NVME_PERSISTENT_MEMORY_REGION_CAPABILITIES),
     (''pmrctl'', NVME_PERSISTENT_MEMORY_REGION_CONTROL), (''pmrsts'', NVME_PERSISTENT_MEMORY_REGION_STATUS),
     (''pmrebs'', NVME_PERSISTENT_MEMORY_REGION_ELASTICITY_BUFFER_SIZE),
     (''pmrswtp'', NVME_PERSISTENT_MEMORY_REGION_SUSTAINED_WRITE_THROUGHPUT),
     (''pmrmscl'', NVME_PERSISTENT_MEMORY_REGION_MEMORY_SPACE_CONTROL_LOWER),
     (''pmrmscu'', NVME_PERSISTENT_MEMORY_REGION_MEMORY_SPACE_CONTROL_UPPER), (''res2'', Array 0x1e4 uint8_t)]"

definition NVME_COMMAND_COMMON_DWORD_0 :: ctype where [decl_simps]:
  "NVME_COMMAND_COMMON_DWORD_0 = Struct [(''opc'', Bits 8), (''fuse'', Bits 2), (''res'', Bits 4),
     (''psdt'', Bits 2), (''cid'', Bits 16)]"

definition NVME_COMMAND_COMMON :: ctype where [decl_simps]:
  "NVME_COMMAND_COMMON = Struct [(''cdw0'', NVME_COMMAND_COMMON_DWORD_0), (''nsid'', uint32_t),
     (''cdw2'', uint32_t), (''cdw3'', uint32_t), (''mptr'', uint64_t), (''prp1'', uint64_t),
     (''prp2'', uint64_t), (''cdw10'', uint32_t), (''cdw11'', uint32_t), (''cdw12'', uint32_t),
     (''cdw13'', uint32_t), (''cdw14'', uint32_t), (''cdw15'', uint32_t)]"

definition NVME_COMMAND_IDENTIFY_DWORD_10 :: ctype where [decl_simps]:
  "NVME_COMMAND_IDENTIFY_DWORD_10 = Struct [(''cns'', uint8_t), (''res'', uint8_t), (''cntid'', uint16_t)]"

definition NVME_COMMAND_IDENTIFY_DWORD_11 :: ctype where [decl_simps]:
  "NVME_COMMAND_IDENTIFY_DWORD_11 = Struct [(''cnssid'', uint16_t), (''res'', uint8_t), (''csi'', uint8_t)]"

definition NVME_COMMAND_IDENTIFY_decl :: ctype where [decl_simps]:
  "NVME_COMMAND_IDENTIFY_decl = Struct [(''cdw0'', NVME_COMMAND_COMMON_DWORD_0), (''nsid'', uint32_t),
     (''cdw2'', uint32_t), (''cdw3'', uint32_t), (''mptr'', uint64_t), (''prp1'', uint64_t),
     (''prp2'', uint64_t), (''cdw10'', NVME_COMMAND_IDENTIFY_DWORD_10),
     (''cdw11'', NVME_COMMAND_IDENTIFY_DWORD_11), (''cdw12'', uint32_t), (''cdw13'', uint32_t),
     (''cdw14'', uint32_t), (''cdw15'', uint32_t)]"

definition NVME_CQE_COMMON_DWORD_2 :: ctype where [decl_simps]:
  "NVME_CQE_COMMON_DWORD_2 = Struct [(''sqhd'', uint16_t), (''sqid'', uint16_t)]"

definition NVME_CQE_COMMON_DWORD_3 :: ctype where [decl_simps]:
  "NVME_CQE_COMMON_DWORD_3 = Struct [(''cid'', Bits 16), (''p'', Bits 1), (''sc'', Bits 8), (''sct'', Bits 3),
     (''crd'', Bits 2), (''m'', Bits 1), (''dnr'', Bits 1)]"

definition NVME_CQE_COMMON :: ctype where [decl_simps]:
  "NVME_CQE_COMMON = Struct [(''cdw0'', uint32_t), (''cdw1'', uint32_t), (''cdw2'', NVME_CQE_COMMON_DWORD_2),
     (''cdw3'', NVME_CQE_COMMON_DWORD_3)]"

definition NVME_IDENTIFY_CONTROLLER_DATA_STRUCTURE :: ctype where [decl_simps]:
  "NVME_IDENTIFY_CONTROLLER_DATA_STRUCTURE = Struct [(''vid'', uint16_t), (''ssvid'', uint16_t),
     (''sn'', Array 20 uint8_t), (''mn'', Array 40 uint8_t), (''fr'', Array 8 uint8_t), (''rab'', uint8_t),
     (''ieee'', Array 3 uint8_t), (''cmic'', uint8_t), (''mdts'', uint8_t), (''cntlid'', uint16_t),
     (''ver'', uint32_t), (''rtd3r'', uint32_t), (''rtd3e'', uint32_t), (''oaes'', uint32_t),
     (''ctratt'', uint32_t), (''rrls'', uint16_t), (''bpcap'', uint8_t), (''res0'', uint8_t),
     (''nssl'', uint32_t), (''res1'', uint16_t), (''plsi'', uint8_t), (''cntrltype'', uint8_t),
     (''fguid'', Array 16 uint8_t), (''crdt1'', uint16_t), (''crdt2'', uint16_t), (''crdt3'', uint16_t),
     (''crcap'', uint8_t), (''ciu'', uint8_t), (''cirn'', uint64_t), (''res2'', Array 96 uint8_t),
     (''res3'', Array 13 uint8_t), (''nvmsr'', uint8_t), (''vwci'', uint8_t), (''mec'', uint8_t),
     (''oacs'', uint16_t), (''acl'', uint8_t), (''aerl'', uint8_t), (''frmw'', uint8_t), (''lpa'', uint8_t),
     (''elpe'', uint8_t), (''npss'', uint8_t), (''avscc'', uint8_t), (''apsta'', uint8_t),
     (''wctemp'', uint16_t), (''cctemp'', uint16_t), (''mtfa'', uint16_t), (''hmpre'', uint32_t),
     (''hmmin'', uint32_t), (''tnvmcap'', Array 16 uint8_t), (''unvmcap'', Array 16 uint8_t),
     (''rpmbs'', uint32_t), (''edstt'', uint16_t), (''dsto'', uint8_t), (''fwug'', uint8_t),
     (''kas'', uint16_t), (''hctma'', uint16_t), (''mntmt'', uint16_t), (''mxtmt'', uint16_t),
     (''sanicap'', uint32_t), (''hmminds'', uint32_t), (''hmmaxd'', uint16_t), (''nsetidmax'', uint16_t),
     (''endgidmax'', uint16_t), (''anatt'', uint8_t), (''anacap'', uint8_t), (''anagrpmax'', uint32_t),
     (''nanagrpid'', uint32_t), (''pels'', uint32_t), (''did'', uint16_t), (''kpioc'', uint8_t),
     (''res4'', uint8_t), (''mptfawr'', uint16_t), (''res5'', Array 6 uint8_t), (''megcap'', Array 16 uint8_t),
     (''tmpthha'', uint8_t), (''mupa'', uint8_t), (''cqt'', uint16_t), (''cdpa'', uint16_t),
     (''mup'', uint16_t), (''ipmsr'', uint16_t), (''msmt'', uint16_t), (''res6'', Array 116 uint8_t),
     (''sqes'', uint8_t), (''cqes'', uint8_t), (''maxcmd'', uint16_t), (''nn'', uint32_t), (''oncs'', uint16_t),
     (''fuses'', uint16_t), (''fna'', uint8_t), (''vwc'', uint8_t), (''awun'', uint16_t), (''awupf'', uint16_t),
     (''icsvscc'', uint8_t), (''nwpc'', uint8_t), (''acwu'', uint16_t), (''cdfs'', uint16_t),
     (''sgls'', uint32_t), (''mnan'', uint32_t), (''maxdna'', Array 16 uint8_t), (''maxcna'', uint32_t),
     (''oaqd'', uint32_t), (''rhiri'', uint8_t), (''hirt'', uint8_t), (''cmmrtd'', uint16_t),
     (''nmmrtd'', uint16_t), (''minmrtg'', uint8_t), (''maxmrtg'', uint8_t), (''trattr'', uint8_t),
     (''res7'', uint8_t), (''mcudmq'', uint16_t), (''mnsudmq'', uint16_t), (''mcmr'', uint16_t),
     (''nmcmr'', uint16_t), (''mcdqpc'', uint16_t), (''res8'', Array 180 uint8_t),
     (''subnqn'', Array 256 uint8_t), (''res9'', Array 768 uint8_t), (''ioccsz'', uint32_t),
     (''iorcsz'', uint32_t), (''icdoff'', uint16_t), (''fcatt'', uint8_t), (''msdbd'', uint8_t),
     (''ofcs'', uint16_t), (''dctype'', uint8_t), (''ccrl'', uint8_t), (''res10'', Array 240 uint8_t),
     (''psd'', Array 32 (Array 32 uint8_t)), (''vs'', Array 1024 uint8_t)]"

section \<open>dev/acpi/acpi.h\<close>

definition ACPI_SDT_HEADER :: ctype where [decl_simps]:
  "ACPI_SDT_HEADER = Struct [(''sign'', Array 4 uint8_t), (''len'', uint32_t), (''rev'', uint8_t),
     (''chksum'', uint8_t), (''oem_id'', Array 6 uint8_t), (''oem_table_id'', Array 8 uint8_t),
     (''oem_rev'', uint32_t), (''creator_id'', uint32_t), (''creator_rev'', uint32_t)]"

definition ACPI_XSDP :: ctype where [decl_simps]:
  "ACPI_XSDP = Struct [(''sign'', Array 8 uint8_t), (''chksum'', uint8_t), (''oemid'', Array 6 uint8_t),
     (''rev'', uint8_t), (''rsdt_addr'', uint32_t), (''len'', uint32_t), (''xsdt_addr'', uint64_t),
     (''ext_chksum'', uint8_t), (''res'', Array 3 uint8_t)]"

definition ACPI_XSDT :: ctype where [decl_simps]:
  "ACPI_XSDT = Struct [(''header'', ACPI_SDT_HEADER), (''entry'', Array 0 uint64_t)]"

definition APIC_PROCESSOR_LOCAL_APIC :: ctype where [decl_simps]:
  "APIC_PROCESSOR_LOCAL_APIC = Struct [(''type'', uint8_t), (''len'', uint8_t), (''acpi_proc_uid'', uint8_t),
     (''apic_id'', uint8_t), (''flags'', uint32_t)]"

definition APIC_IO_APIC :: ctype where [decl_simps]:
  "APIC_IO_APIC = Struct [(''type'', uint8_t), (''len'', uint8_t), (''io_apic_id'', uint8_t),
     (''reserved'', uint8_t), (''io_apic_addr'', uint32_t), (''global_sys_int_base'', uint32_t)]"

definition APIC_INTERRUPT_SOURCE_OVERRIDE :: ctype where [decl_simps]:
  "APIC_INTERRUPT_SOURCE_OVERRIDE = Struct [(''type'', uint8_t), (''len'', uint8_t), (''bus'', uint8_t),
     (''src'', uint8_t), (''global_sys_int'', uint32_t), (''flags'', uint16_t)]"

definition APIC_NMI_SOURCE :: ctype where [decl_simps]:
  "APIC_NMI_SOURCE = Struct [(''type'', uint8_t), (''len'', uint8_t), (''flags'', uint16_t),
     (''global_sys_int'', uint32_t)]"

definition APIC_LOCAL_APIC_NMI :: ctype where [decl_simps]:
  "APIC_LOCAL_APIC_NMI = Struct [(''type'', uint8_t), (''len'', uint8_t), (''acpi_proc_uid'', uint8_t),
     (''flags'', uint16_t), (''local_apic_lint'', uint8_t)]"

definition APIC_LOCAL_APIC_ADDRESS_OVERRIDE :: ctype where [decl_simps]:
  "APIC_LOCAL_APIC_ADDRESS_OVERRIDE = Struct [(''type'', uint8_t), (''len'', uint8_t), (''reserved'', uint16_t),
     (''local_apic_addr'', uint64_t)]"

definition APIC_IO_SAPIC :: ctype where [decl_simps]:
  "APIC_IO_SAPIC = Struct [(''type'', uint8_t), (''len'', uint8_t), (''io_apic_id'', uint8_t),
     (''reserved'', uint8_t), (''global_sys_int_base'', uint32_t), (''io_sapic_addr'', uint64_t)]"

definition APIC_LOCAL_SAPIC :: ctype where [decl_simps]:
  "APIC_LOCAL_SAPIC = Struct [(''type'', uint8_t), (''len'', uint8_t), (''acpi_proc_id'', uint8_t),
     (''local_sapic_id'', uint8_t), (''local_sapic_eid'', uint8_t), (''reserved'', Array 3 uint8_t),
     (''flags'', uint32_t), (''acpi_proc_uid_value'', uint32_t)]"

definition APIC_PLATFORM_INTERRUPT_SOURCE :: ctype where [decl_simps]:
  "APIC_PLATFORM_INTERRUPT_SOURCE = Struct [(''type'', uint8_t), (''len'', uint8_t), (''flags'', uint16_t),
     (''int_type'', uint8_t), (''proc_id'', uint8_t), (''proc_eid'', uint8_t), (''io_sapic_vector'', uint8_t),
     (''global_sys_int'', uint32_t), (''platform_int_src_flags'', uint32_t)]"

definition APIC_PROCESSOR_LOCAL_X2_APIC :: ctype where [decl_simps]:
  "APIC_PROCESSOR_LOCAL_X2_APIC = Struct [(''type'', uint8_t), (''len'', uint8_t), (''reserved'', uint16_t),
     (''x2_apic_id'', uint32_t), (''flags'', uint32_t), (''apic_proc_uid'', uint32_t)]"

definition APIC_STRUCTURE :: ctype where [decl_simps]:
  "APIC_STRUCTURE = Struct [(''proc_local_apic'', APIC_PROCESSOR_LOCAL_APIC), (''io_apic'', APIC_IO_APIC),
     (''int_src_override'', APIC_INTERRUPT_SOURCE_OVERRIDE), (''nmi_src'', APIC_NMI_SOURCE),
     (''local_apic_nmi'', APIC_LOCAL_APIC_NMI),
     (''local_apic_addr_override'', APIC_LOCAL_APIC_ADDRESS_OVERRIDE),
     (''proc_local_x2_apic'', APIC_PROCESSOR_LOCAL_X2_APIC)]"

definition ACPI_MADT :: ctype where [decl_simps]:
  "ACPI_MADT = Struct [(''header'', ACPI_SDT_HEADER), (''local_apic_addr'', uint32_t), (''flags'', uint32_t),
     (''apic_struct'', APIC_STRUCTURE)]"

definition ACPI_MCFG_CONFIGURATION_SPACE_ENTRY :: ctype where [decl_simps]:
  "ACPI_MCFG_CONFIGURATION_SPACE_ENTRY = Struct [(''base_addr'', uint64_t), (''pci_seg_group_num'', uint16_t),
     (''pci_num_start'', uint8_t), (''pci_num_end'', uint8_t), (''res'', uint32_t)]"

definition ACPI_MCFG :: ctype where [decl_simps]:
  "ACPI_MCFG = Struct [(''header'', ACPI_SDT_HEADER), (''res'', uint64_t),
     (''config_space'', Array 0 ACPI_MCFG_CONFIGURATION_SPACE_ENTRY)]"

section \<open>dev/pci/pcie.h and dev/ahci/ahci.h\<close>

definition PCIE_CONFIGURATION_SPACE_BASE_ADDRESS_REGISTER_MEMORY :: ctype where [decl_simps]:
  "PCIE_CONFIGURATION_SPACE_BASE_ADDRESS_REGISTER_MEMORY = Struct [(''mem_io'', Bits 1), (''mem_type'', Bits 2),
     (''prefetchable'', Bits 1), (''base_addr'', Bits 28)]"

definition PCIE_CONFIGURATION_SPACE_BASE_ADDRESS_REGISTER_IO :: ctype where [decl_simps]:
  "PCIE_CONFIGURATION_SPACE_BASE_ADDRESS_REGISTER_IO = Struct [(''mem_io'', Bits 1), (''res'', Bits 1),
     (''base_addr'', Bits 30)]"

definition PCIE_CONFIGURATION_SPACE_HEADER_decl :: ctype where [decl_simps]:
  "PCIE_CONFIGURATION_SPACE_HEADER_decl = Struct [(''vendor_id'', uint16_t), (''device_id'', uint16_t),
     (''command'', uint16_t), (''status'', uint16_t), (''rev_id'', uint8_t), (''prog_if'', uint8_t),
     (''subclass'', uint8_t), (''base_class'', uint8_t), (''cache_line_size'', uint8_t),
     (''latency_timer'', uint8_t), (''header_type'', uint8_t), (''bist'', uint8_t),
     (''type_specific0'', Array 36 uint8_t), (''capabilities_ptr'', uint8_t),
     (''type_specific1'', Array 7 uint8_t), (''interrupt_line'', uint8_t), (''interrupt_pin'', uint8_t),
     (''type_specific2'', Array 2 uint8_t)]"

definition PCIE_CONFIGURATION_SPACE_HEADER_TYPE_0 :: ctype where [decl_simps]:
  "PCIE_CONFIGURATION_SPACE_HEADER_TYPE_0 = Struct [(''vendor_id'', uint16_t), (''device_id'', uint16_t),
     (''command'', uint16_t), (''status'', uint16_t), (''rev_id'', uint8_t), (''prog_if'', uint8_t),
     (''subclass'', uint8_t), (''base_class'', uint8_t), (''cache_line_size'', uint8_t),
     (''latency_timer'', uint8_t), (''header_type'', uint8_t), (''bist'', uint8_t), (''base_addr0'', uint32_t),
     (''base_addr1'', uint32_t), (''base_addr2'', uint32_t), (''base_addr3'', uint32_t),
     (''base_addr4'', uint32_t), (''base_addr5'', uint32_t), (''card_bus_ptr'', uint32_t),
     (''subsys_vendor_id'', uint16_t), (''subsys_id'', uint16_t), (''expansion_rom_base_addr'', uint32_t),
     (''capabilities_ptr'', uint8_t), (''res'', Array 7 uint8_t), (''interrupt_line'', uint8_t),
     (''interrupt_pin'', uint8_t), (''min_gnt'', uint8_t), (''max_lat'', uint8_t)]"

definition PCIE_CONFIGURATION_SPACE_HEADER_TYPE_1 :: ctype where [decl_simps]:
  "PCIE_CONFIGURATION_SPACE_HEADER_TYPE_1 = Struct [(''vendor_id'', uint16_t), (''device_id'', uint16_t),
     (''command'', uint16_t), (''status'', uint16_t), (''rev_id'', uint8_t), (''prog_if'', uint8_t),
     (''subclass'', uint8_t), (''base_class'', uint8_t), (''cache_line_size'', uint8_t),
     (''primary_latency_timer'', uint8_t), (''header_type'', uint8_t), (''bist'', uint8_t),
     (''base_addr0'', uint32_t), (''base_addr1'', uint32_t), (''primary_bus_num'', uint8_t),
     (''secondary_bus_num'', uint8_t), (''subordinate_bus_num'', uint8_t), (''secondary_latency_num'', uint8_t),
     (''io_base'', uint8_t), (''io_limit'', uint8_t), (''secondary_status'', uint16_t),
     (''memory_base'', uint16_t), (''memory_limit'', uint16_t), (''prefetchable_memory_base'', uint16_t),
     (''prefetchable_memory_limit'', uint16_t), (''prefetchable_memory_base_upper_32_bits'', uint32_t),
     (''prefetchable_memory_limit_upper_32_bits'', uint32_t), (''io_base_upper_16_bits'', uint16_t),
     (''io_limit_upper_16_bits'', uint16_t), (''capabilities_ptr'', uint8_t), (''res'', Array 3 uint8_t),
     (''expansion_rom_base_addr'', uint32_t), (''interrupt_line'', uint8_t), (''interrupt_pin'', uint8_t),
     (''bridge_cntl'', uint16_t)]"

definition AHCI_PCI_HEADER :: ctype where [decl_simps]:
  "AHCI_PCI_HEADER = Struct [(''vendor_id'', uint16_t), (''device_id'', uint16_t), (''command'', uint16_t),
     (''status'', uint16_t), (''rev_id'', uint8_t), (''class_code'', Bits 24), (''cache_line_size'', uint8_t),
     (''latency_timer'', uint8_t), (''header_type'', uint8_t), (''bist'', uint8_t),
     (''base_addr'', Array 20 uint8_t), (''ahci_base_addr'', uint32_t), (''res0'', uint32_t),
     (''subsys_vendor_id'', uint16_t), (''subsys_id'', uint16_t), (''expansion_rom_base_addr'', uint32_t),
     (''capabilities_ptr'', uint8_t), (''res1'', Array 7 uint8_t), (''interrupt_line'', uint8_t),
     (''interrupt_pin'', uint8_t), (''min_gnt'', uint8_t), (''max_lat'', uint8_t)]"

end
