(* ===== verification/Decl_Processor.thy ===== *)
theory Decl_Processor
  imports Layout
begin

text \<open>
  The structures that the processor reads, as \<open>boot/kernel/paging.h\<close>, \<open>gdt.h\<close> and \<open>idt.h\<close> declare them: the
  entries of the page tables, the segment descriptors, the gates, and the operands of \<open>lgdt\<close> and \<open>lidt\<close>. The
  tables themselves are also aligned to a page, which is no part of a layout.
\<close>

definition PAGE_TABLE_ENTRY_decl :: ctype where [decl_simps]:
  "PAGE_TABLE_ENTRY_decl = Struct [(''p'', Bits 1), (''rw'', Bits 1), (''us'', Bits 1), (''pwt'', Bits 1),
     (''pcd'', Bits 1), (''a'', Bits 1), (''avl0'', Bits 1), (''ps'', Bits 1), (''avl1'', Bits 4),
     (''addr'', Bits 40), (''avl2'', Bits 11), (''xd'', Bits 1)]"

definition PAGE_TABLE :: ctype where [decl_simps]:
  "PAGE_TABLE = Struct [(''entries'', Array 512 PAGE_TABLE_ENTRY_decl)]"

definition GDTR :: ctype where [decl_simps]:
  "GDTR = Struct [(''size'', uint16_t), (''offs'', uint64_t)]"

definition SEGMENT_DESCRIPTOR_decl :: ctype where [decl_simps]:
  "SEGMENT_DESCRIPTOR_decl = Struct [(''lim0'', Bits 16), (''base0'', Bits 16), (''base1'', Bits 8),
     (''a'', Bits 8), (''lim1'', Bits 4), (''flag'', Bits 4), (''base2'', Bits 8)]"

definition GDT :: ctype where [decl_simps]:
  "GDT = Struct [(''null'', SEGMENT_DESCRIPTOR_decl), (''kernel_code'', SEGMENT_DESCRIPTOR_decl),
     (''kernel_data'', SEGMENT_DESCRIPTOR_decl), (''user_code'', SEGMENT_DESCRIPTOR_decl),
     (''user_data'', SEGMENT_DESCRIPTOR_decl)]"

definition GATE_DESCRIPTOR_decl :: ctype where [decl_simps]:
  "GATE_DESCRIPTOR_decl = Struct [(''offs0'', Bits 16), (''seg'', Bits 16), (''ist'', Bits 3),
     (''zero0'', Bits 5), (''type'', Bits 4), (''zero1'', Bits 1), (''dpl'', Bits 2), (''p'', Bits 1),
     (''offs1'', Bits 16), (''offs2'', Bits 32), (''zero2'', Bits 32)]"

definition IDT_decl :: ctype where [decl_simps]:
  "IDT_decl = Struct [(''ignore'', GATE_DESCRIPTOR_decl), (''timer'', GATE_DESCRIPTOR_decl),
     (''keyboard'', GATE_DESCRIPTOR_decl), (''spurious_irq'', GATE_DESCRIPTOR_decl),
     (''int_2b'', GATE_DESCRIPTOR_decl), (''pf'', GATE_DESCRIPTOR_decl), (''df'', GATE_DESCRIPTOR_decl),
     (''gp'', GATE_DESCRIPTOR_decl)]"

definition IDTR_decl :: ctype where [decl_simps]:
  "IDTR_decl = Struct [(''size'', uint16_t), (''offs'', uint64_t)]"

end
