(* ===== verification/Layout_Props.thy ===== *)
theory Layout_Props
  imports Decl_Disk Decl_Devices Decl_Processor Ext2 Elf_Load Bootinfo Boot_Memory Pcie Kernel_Nvme
begin

text \<open>
  The declared structures against the code that uses them: their sizes, and the offsets at which
  the loads of the model find their members.
\<close>

section \<open>Well-formed declarations\<close>

text \<open>The declarations with the size in bytes that the code, a constant or a comment gives.\<close>

definition declared_sizes :: "(ctype \<times> nat) list" where
  "declared_sizes =
     [(GPT_HEADER, 92), (GPT_PARTITION_ENTRY, 0x80), (EXT2_SUPERBLOCK, 1024), (EXT2_BLOCK_GROUP_DESCRIPTOR, 32),
      (EXT2_INODE, 128), (EXT2_DIRECTORY_ENTRY, 263), (Elf64_Ehdr_decl, 64), (Elf64_Phdr_decl, 56),
      (ACPI_SDT_HEADER, 36), (ACPI_XSDP, 36), (ACPI_XSDT, 36), (APIC_PROCESSOR_LOCAL_APIC, 8), (APIC_IO_APIC, 12),
      (APIC_INTERRUPT_SOURCE_OVERRIDE, 10), (APIC_NMI_SOURCE, 8), (APIC_LOCAL_APIC_NMI, 6),
      (APIC_LOCAL_APIC_ADDRESS_OVERRIDE, 12), (APIC_IO_SAPIC, 16), (APIC_PLATFORM_INTERRUPT_SOURCE, 16),
      (APIC_PROCESSOR_LOCAL_X2_APIC, 16), (ACPI_MCFG, 44), (ACPI_MCFG_CONFIGURATION_SPACE_ENTRY, 16),
      (PCIE_CONFIGURATION_SPACE_HEADER_decl, 64), (PCIE_CONFIGURATION_SPACE_HEADER_TYPE_0, 64),
      (PCIE_CONFIGURATION_SPACE_HEADER_TYPE_1, 64), (AHCI_PCI_HEADER, 64), (NVME_CONTROLLER_REGISTERS, 0x1000),
      (NVME_COMMAND_COMMON, 64), (NVME_COMMAND_IDENTIFY_decl, 64), (NVME_CQE_COMMON, 16),
      (NVME_IDENTIFY_CONTROLLER_DATA_STRUCTURE, 4096), (MEMORY_DESCRIPTOR, 40), (BOOTINFO_decl, SIZEOF_BOOTINFO),
      (PAGE_TABLE_ENTRY_decl, 8), (PAGE_TABLE, 0x1000), (SEGMENT_DESCRIPTOR_decl, 8), (GDT, 40), (GDTR, 10),
      (GATE_DESCRIPTOR_decl, 16), (IDT_decl, 128), (IDTR_decl, 10)]"

lemma sizes_ok: "list_all (\<lambda>(t, n). well_declared t \<and> width t = 8 * n) declared_sizes"
  by (simp add: declared_sizes_def decl_simps)

section \<open>Loads at the declared places\<close>

text \<open>A list of members of the object at \<open>a\<close> with the values that the model loads for them.\<close>

definition agree :: "ctype \<Rightarrow> mem \<Rightarrow> u64 \<Rightarrow> (sel list \<times> nat) list \<Rightarrow> bool" where
  "agree t m a vs \<longleftrightarrow> list_all (\<lambda>(p, v). value_of t p m a = Some v) vs"

lemmas agree_simps = agree_def value_of_def decl_simps bits_whole

lemma disk_members:
  "agree GPT_HEADER m a [([Mem ''part_tbl_start_lba''], unat (gpt_part_tbl_start_lba m a)),
     ([Mem ''part_entry_num''], unat (gpt_part_entry_num m a))]"
  "agree EXT2_SUPERBLOCK m a [([Mem ''log_block_size''], unat (sb_log_block_size m a)),
     ([Mem ''inode_per_group''], unat (sb_inode_per_group m a)), ([Mem ''magic''], unat (sb_magic m a)),
     ([Mem ''inode_size''], unat (sb_inode_size m a))]"
  "agree EXT2_INODE m a [([Mem ''mode''], unat (inode_mode m a)), ([Mem ''block_cnt''], unat (inode_block_cnt m a))]"
  "agree EXT2_DIRECTORY_ENTRY m a [([Mem ''inode''], unat (de_inode m a)), ([Mem ''rec_len''], unat (de_rec_len m a)),
     ([Mem ''name_len''], unat (de_name_len m a))]"
  by (simp_all add: agree_simps gpt_part_tbl_start_lba_def gpt_part_entry_num_def sb_log_block_size_def
      sb_inode_per_group_def sb_magic_def sb_inode_size_def inode_mode_def inode_block_cnt_def
      de_inode_def de_rec_len_def de_name_len_def)

lemma elf_members:
  "agree Elf64_Ehdr_decl m a [([Mem ''e_type''], unat (e_type (load_ehdr m a))),
     ([Mem ''e_machine''], unat (e_machine (load_ehdr m a))), ([Mem ''e_version''], unat (e_version (load_ehdr m a))),
     ([Mem ''e_entry''], unat (e_entry (load_ehdr m a))), ([Mem ''e_phoff''], unat (e_phoff (load_ehdr m a))),
     ([Mem ''e_phentsize''], unat (e_phentsize (load_ehdr m a))), ([Mem ''e_phnum''], unat (e_phnum (load_ehdr m a)))]"
  "agree Elf64_Phdr_decl m a [([Mem ''p_type''], unat (p_type (load_phdr m a))),
     ([Mem ''p_offset''], unat (p_offset (load_phdr m a))), ([Mem ''p_paddr''], unat (p_paddr (load_phdr m a))),
     ([Mem ''p_filesz''], unat (p_filesz (load_phdr m a))), ([Mem ''p_memsz''], unat (p_memsz (load_phdr m a)))]"
  by (simp_all add: agree_simps load_ehdr_def load_phdr_def)

lemma bootinfo_members:
  "agree BOOTINFO_decl m a (let b = load_bootinfo m a in
     [([Mem ''gop'', Mem ''framebuffer_base''], unat (gop_framebuffer_base (bi_gop b))),
      ([Mem ''gop'', Mem ''framebuffer_size''], unat (gop_framebuffer_size (bi_gop b))),
      ([Mem ''gop'', Mem ''width''], unat (gop_width (bi_gop b))), ([Mem ''gop'', Mem ''height''], unat (gop_height (bi_gop b))),
      ([Mem ''gop'', Mem ''pixels_per_scanline''], unat (gop_pixels_per_scanline (bi_gop b))),
      ([Mem ''mem_map'', Mem ''map''], unat (mm_map (bi_mem_map b))), ([Mem ''mem_map'', Mem ''size''], unat (mm_size (bi_mem_map b))),
      ([Mem ''mem_map'', Mem ''desc_size''], unat (mm_desc_size (bi_mem_map b))), ([Mem ''xsdt_addr''], unat (bi_xsdt_addr b)),
      ([Mem ''bootdisk_addr'', Mem ''seg''], unat (bd_seg (bi_bootdisk_addr b))),
      ([Mem ''bootdisk_addr'', Mem ''bus''], unat (bd_bus (bi_bootdisk_addr b))),
      ([Mem ''bootdisk_addr'', Mem ''dev''], unat (bd_dev (bi_bootdisk_addr b))),
      ([Mem ''bootdisk_addr'', Mem ''func''], unat (bd_func (bi_bootdisk_addr b)))])"
  "agree MEMORY_DESCRIPTOR m a [([Mem ''type''], unat (desc_type m a)), ([Mem ''phys_addr''], unat (desc_phys m a)),
     ([Mem ''num_pages''], unat (desc_pages m a))]"
  by (simp_all add: agree_simps load_bootinfo_def load_gop_def load_mem_map_def load_bootdisk_def Let_def add.assoc
      desc_type_def desc_phys_def desc_pages_def)

lemma device_members:
  "agree ACPI_SDT_HEADER m a [([Mem ''len''], unat (sdt_len m a))]"
  "agree ACPI_MCFG_CONFIGURATION_SPACE_ENTRY m a [([Mem ''base_addr''], unat (mcfg_base m a)),
     ([Mem ''pci_num_start''], unat (mcfg_start m a)), ([Mem ''pci_num_end''], unat (mcfg_end m a))]"
  "agree PCIE_CONFIGURATION_SPACE_HEADER_decl m a (let h = load_header m a in
     [([Mem ''vendor_id''], unat (vendor_id h)), ([Mem ''device_id''], unat (device_id h)), ([Mem ''command''], unat (command h)),
      ([Mem ''status''], unat (status h)), ([Mem ''rev_id''], unat (rev_id h)), ([Mem ''prog_if''], unat (prog_if h)),
      ([Mem ''subclass''], unat (pci_subclass h)), ([Mem ''base_class''], unat (base_class h)),
      ([Mem ''cache_line_size''], unat (cache_line_size h)), ([Mem ''latency_timer''], unat (latency_timer h)),
      ([Mem ''header_type''], unat (header_type h)), ([Mem ''bist''], unat (bist h)),
      ([Mem ''capabilities_ptr''], unat (capabilities_ptr h)), ([Mem ''interrupt_line''], unat (interrupt_line h)),
      ([Mem ''interrupt_pin''], unat (interrupt_pin h))])"
  "agree PCIE_CONFIGURATION_SPACE_HEADER_TYPE_0 m a [([Mem ''base_addr0''], unat (load32 m (a + 16))),
     ([Mem ''base_addr1''], unat (load32 m (a + 20)))]"
  by (simp_all add: agree_simps sdt_len_def mcfg_base_def mcfg_start_def mcfg_end_def load_header_def Let_def)

text \<open>The arrays: the entries of the partition table, the block numbers of an inode, the group
  descriptors, the program headers, the tables of the root table, the segments of the MCFG.\<close>

lemma bits_scaled:
  "bits_at m a (i * (8 * k) + 8 * c) 32 = unat (load32 m (a + of_nat (i * k + c)))"
  "bits_at m a (i * (8 * k) + 8 * c) 64 = unat (load64 m (a + of_nat (i * k + c)))"
proof -
  have p: "(i * (8 * k) + 8 * c) mod 8 = 0" "(i * (8 * k) + 8 * c) div 8 = i * k + c"
    by (simp_all add: algebra_simps flip: distrib_left)
  show "bits_at m a (i * (8 * k) + 8 * c) 32 = unat (load32 m (a + of_nat (i * k + c)))"
    "bits_at m a (i * (8 * k) + 8 * c) 64 = unat (load64 m (a + of_nat (i * k + c)))"
    using bits_whole(3,4) [OF p(1)] by (simp_all only: p(2))
qed

lemma array_members:
  assumes "i < n"
  shows "agree (Array n GPT_PARTITION_ENTRY) m a [([Nth i, Mem ''part_start_lba''], unat (part_start_lba m a i))]"
    and "i < 2 ^ 32 \<Longrightarrow>
      agree (Array n EXT2_BLOCK_GROUP_DESCRIPTOR) m a [([Nth i, Mem ''inode_table''], unat (bg_inode_table m a (of_nat i)))]"
proof -
  show "agree (Array n GPT_PARTITION_ENTRY) m a [([Nth i, Mem ''part_start_lba''], unat (part_start_lba m a i))]"
    using assms bits_scaled(2) [of m a i 128 32] by (simp add: agree_def value_of_def decl_simps part_start_lba_def add.assoc)
  assume "i < 2 ^ 32"
  then have "(ucast (of_nat i :: u32) :: u64) = of_nat i" by (simp add: unsigned_of_nat take_bit_nat_eq_self)
  then show "agree (Array n EXT2_BLOCK_GROUP_DESCRIPTOR) m a [([Nth i, Mem ''inode_table''], unat (bg_inode_table m a (of_nat i)))]"
    using assms bits_scaled(1) [of m a i 32 8] by (simp add: agree_def value_of_def decl_simps bg_inode_table_def add.assoc)
qed

lemma inode_blocks:
  "value_of EXT2_INODE [Mem ''block'', Nth i] m a = (if i < 15 then Some (unat (inode_block m a (of_nat i))) else None)"
proof -
  have "a + of_nat (i * 4 + 40) = a + 40 + of_nat i * 4" by simp
  note b = bits_scaled(1) [of m a i 4 40, unfolded this]
  show ?thesis using b by (simp add: value_of_def decl_simps inode_block_def add.commute [of 320])
qed

section \<open>The NVMe registers and queues\<close>

lemma bits_dword:
  "pos mod 32 + w \<le> 32 \<Longrightarrow>
     bits_at m a pos w = unat (take_bit w (drop_bit (pos mod 32) (load32 m (a + of_nat (4 * (pos div 32))))))"
  using load_bits [of "pos mod 32" w 4 m a "4 * (pos div 32)", where 'a = 32] by simp

lemma nvme_members:
  "value_of NVME_CONTROLLER_REGISTERS [Mem ''csts'', Mem ''rdy''] m a = Some (of_bool (csts_ready m a))"
  "value_of NVME_CONTROLLER_REGISTERS [Mem ''cap'', Mem ''dstrd''] (mem s) a =
     Some (unat (fst (nvme_mmio_read_64 (quiet_hw port) a NVME_CAP_OFFSET 32 4 s)))"
  "agree NVME_CQE_COMMON m a (let w = load32 m (a + 12) in [([Mem ''cdw3'', Mem ''p''], unat (cqe_p w)),
     ([Mem ''cdw3'', Mem ''sc''], unat (cqe_sc w)), ([Mem ''cdw3'', Mem ''sct''], unat (cqe_sct w))])"
proof -
  have u: "unat (ucast (x :: u32) :: 'a::len word) = unat (take_bit LENGTH('a) x)" for x
    by (simp add: unsigned_ucast_eq unsigned_take_bit_eq)
  show "agree NVME_CQE_COMMON m a (let w = load32 m (a + 12) in [([Mem ''cdw3'', Mem ''p''], unat (cqe_p w)),
     ([Mem ''cdw3'', Mem ''sc''], unat (cqe_sc w)), ([Mem ''cdw3'', Mem ''sct''], unat (cqe_sct w))])"
    by (simp add: agree_def value_of_def decl_simps bits_dword Let_def cqe_p_def cqe_sc_def cqe_sct_def field_at_def u)
  show "value_of NVME_CONTROLLER_REGISTERS [Mem ''csts'', Mem ''rdy''] m a = Some (of_bool (csts_ready m a))"
    by (simp add: value_of_def decl_simps csts_ready_def bits_at_def mem_bit_def bit_load_le)
  show "value_of NVME_CONTROLLER_REGISTERS [Mem ''cap'', Mem ''dstrd''] (mem s) a =
     Some (unat (fst (nvme_mmio_read_64 (quiet_hw port) a NVME_CAP_OFFSET 32 4 s)))"
  proof -
    have t: "mem (s\<lparr>tick := n\<rparr>) = mem s" for n by simp
    have "drop_bit (64 - 4) (0xFFFFFFFFFFFFFFFF :: u64) = mask 4" by code_simp
    then have "fst (nvme_mmio_read_64 (quiet_hw port) a NVME_CAP_OFFSET 32 4 s) = take_bit 4 (drop_bit 32 (load64 (mem s) a))"
      by (simp only: nvme_mmio_read_64_def mmio_read_quiet [OF quiet_hw] load64_halves take_bit_eq_mask Let_def
          prod.case fst_conv add_0_right t)
    then show ?thesis
      using load_bits [of 32 4 8 "mem s" a 0, where 'a = 64] by (simp add: value_of_def decl_simps)
  qed
qed

text \<open>The fields of the command in a slot of the submission queue.\<close>

lemma command_dwords:
  "take_bit 8 (cdw0_encode c) = ucast (cmd_opc c)" "take_bit 2 (drop_bit 8 (cdw0_encode c)) = ucast (cmd_fuse c)"
  "take_bit 4 (drop_bit 10 (cdw0_encode c)) = ucast (cmd_res c)" "take_bit 2 (drop_bit 14 (cdw0_encode c)) = ucast (cmd_psdt c)"
  "take_bit 16 (drop_bit 16 (cdw0_encode c)) = ucast (cmd_cid c)"
  "take_bit 8 (field 0 (x :: u8) OR field 8 (y :: u8) OR field 16 (z :: u16) :: u32) = ucast x"
  "take_bit 8 (drop_bit 8 (field 0 (x :: u8) OR field 8 (y :: u8) OR field 16 (z :: u16) :: u32)) = ucast y"
  "take_bit 16 (drop_bit 16 (field 0 (x :: u8) OR field 8 (y :: u8) OR field 16 (z :: u16) :: u32)) = ucast z"
  "take_bit 16 (field 0 (z :: u16) OR field 16 (x :: u8) OR field 24 (y :: u8) :: u32) = ucast z"
  "take_bit 8 (drop_bit 16 (field 0 (z :: u16) OR field 16 (x :: u8) OR field 24 (y :: u8) :: u32)) = ucast x"
  "take_bit 8 (drop_bit 24 (field 0 (z :: u16) OR field 16 (x :: u8) OR field 24 (y :: u8) :: u32)) = ucast y"
  by (rule bit_word_eqI; auto simp: cdw0_encode_def bit_take_bit_iff bit_drop_bit_eq bit_or_iff bit_field bit_ucast_iff
      dest: bit_imp_le_length)+

lemma unat_ucast_32:
  assumes "LENGTH('a) \<le> 32"
  shows "unat (ucast (x :: 'a::len word) :: u32) = unat x"
proof -
  have "unat x < 2 ^ LENGTH('a)" by (rule unsigned_less)
  also have "(2 :: nat) ^ LENGTH('a) \<le> 2 ^ 32" using assms by (rule power_increasing) simp
  finally show ?thesis by (simp add: unsigned_ucast_eq take_bit_nat_eq_self)
qed

lemma identify_members:
  "agree NVME_COMMAND_IDENTIFY_decl (store_identify m a c) a
     [([Mem ''cdw0'', Mem ''opc''], unat (cmd_opc c)), ([Mem ''cdw0'', Mem ''fuse''], unat (cmd_fuse c)),
      ([Mem ''cdw0'', Mem ''res''], unat (cmd_res c)), ([Mem ''cdw0'', Mem ''psdt''], unat (cmd_psdt c)),
      ([Mem ''cdw0'', Mem ''cid''], unat (cmd_cid c)), ([Mem ''nsid''], unat (cmd_nsid c)),
      ([Mem ''cdw2''], unat (cmd_cdw2 c)), ([Mem ''cdw3''], unat (cmd_cdw3 c)), ([Mem ''mptr''], unat (cmd_mptr c)),
      ([Mem ''prp1''], unat (cmd_prp1 c)), ([Mem ''prp2''], unat (cmd_prp2 c)),
      ([Mem ''cdw10'', Mem ''cns''], unat (cmd_cns c)), ([Mem ''cdw10'', Mem ''res''], unat (cmd_res10 c)),
      ([Mem ''cdw10'', Mem ''cntid''], unat (cmd_cntid c)), ([Mem ''cdw11'', Mem ''cnssid''], unat (cmd_cnssid c)),
      ([Mem ''cdw11'', Mem ''res''], unat (cmd_res11 c)), ([Mem ''cdw11'', Mem ''csi''], unat (cmd_csi c)),
      ([Mem ''cdw12''], unat (cmd_cdw12 c)), ([Mem ''cdw13''], unat (cmd_cdw13 c)), ([Mem ''cdw14''], unat (cmd_cdw14 c)),
      ([Mem ''cdw15''], unat (cmd_cdw15 c))]"
proof -
  have L: "load32 (store_identify m a c) a = cdw0_encode c" "load32 (store_identify m a c) (a + 4) = cmd_nsid c"
    "load32 (store_identify m a c) (a + 8) = cmd_cdw2 c" "load32 (store_identify m a c) (a + 12) = cmd_cdw3 c"
    "load64 (store_identify m a c) (a + 16) = cmd_mptr c" "load64 (store_identify m a c) (a + 24) = cmd_prp1 c"
    "load64 (store_identify m a c) (a + 32) = cmd_prp2 c"
    "load32 (store_identify m a c) (a + 40) = field 0 (cmd_cns c) OR field 8 (cmd_res10 c) OR field 16 (cmd_cntid c)"
    "load32 (store_identify m a c) (a + 44) = field 0 (cmd_cnssid c) OR field 16 (cmd_res11 c) OR field 24 (cmd_csi c)"
    "load32 (store_identify m a c) (a + 48) = cmd_cdw12 c" "load32 (store_identify m a c) (a + 52) = cmd_cdw13 c"
    "load32 (store_identify m a c) (a + 56) = cmd_cdw14 c" "load32 (store_identify m a c) (a + 60) = cmd_cdw15 c"
    by (simp_all add: store_identify_def Let_def fields load_store_le)
  show ?thesis
    by (simp add: agree_def value_of_def decl_simps bits_dword bits_whole(4) L command_dwords unat_ucast_32 take_bit_word_eq_self
        del: take_bit_or drop_bit_or)
qed

section \<open>The tables of the processor\<close>

lemma field_bits:
  assumes "off + LENGTH('b) \<le> 8 * k" and "8 * k \<le> LENGTH('a)"
  shows "unat (field_at off (load_le k m a :: 'a::len word) :: 'b::len word) = bits_at m a off LENGTH('b)"
proof -
  have "unat (field_at off (load_le k m a :: 'a word) :: 'b word) = unat (take_bit LENGTH('b) (drop_bit off (load_le k m a :: 'a word)))"
    by (rule bit_eqI) (auto simp: bit_unsigned_iff bit_field_at bit_take_bit_iff bit_drop_bit_eq add.commute dest: bit_imp_le_length)
  with load_bits [of off "LENGTH('b)" k m a 0, where 'a = 'a] assms show ?thesis by simp
qed

lemma table_members:
  "agree PAGE_TABLE_ENTRY_decl m a (let e = load_pte m a in
     [([Mem ''p''], unat (pte_p e)), ([Mem ''rw''], unat (pte_rw e)), ([Mem ''us''], unat (pte_us e)),
      ([Mem ''pwt''], unat (pte_pwt e)), ([Mem ''pcd''], unat (pte_pcd e)), ([Mem ''a''], unat (pte_a e)),
      ([Mem ''avl0''], unat (pte_avl0 e)), ([Mem ''ps''], unat (pte_ps e)), ([Mem ''avl1''], unat (pte_avl1 e)),
      ([Mem ''addr''], unat (pte_addr e)), ([Mem ''avl2''], unat (pte_avl2 e)), ([Mem ''xd''], unat (pte_xd e))])"
  "agree SEGMENT_DESCRIPTOR_decl m a (let d = segment_decode (load64 m a) in
     [([Mem ''lim0''], unat (lim0 d)), ([Mem ''base0''], unat (base0 d)), ([Mem ''base1''], unat (base1 d)),
      ([Mem ''a''], unat (seg_a d)), ([Mem ''lim1''], unat (lim1 d)), ([Mem ''flag''], unat (flag d)),
      ([Mem ''base2''], unat (base2 d))])"
  "agree GATE_DESCRIPTOR_decl m (a + v * 16) (let g = load_gate m a v in
     [([Mem ''offs0''], unat (offs0 g)), ([Mem ''seg''], unat (gate_seg g)), ([Mem ''ist''], unat (ist g)),
      ([Mem ''zero0''], unat (zero0 g)), ([Mem ''type''], unat (gate_type g)), ([Mem ''zero1''], unat (zero1 g)),
      ([Mem ''dpl''], unat (dpl g)), ([Mem ''p''], unat (gate_p g)), ([Mem ''offs1''], unat (offs1 g)),
      ([Mem ''offs2''], unat (offs2 g)), ([Mem ''zero2''], unat (zero2 g))])"
  by (simp_all add: agree_def value_of_def decl_simps Let_def load_pte_def pte_decode_def segment_decode_def
      load_gate_def gate_decode_def field_bits) (simp add: eval_nat_numeral)

section \<open>Properties\<close>





end
