(* ===== verification/Nvme_Fields.thy ===== *)
theory Nvme_Fields
  imports Layout_Props
begin

text \<open>
  The set-up of the controller in \<open>_start\<close>, in terms of the registers that \<open>dev/nvme/nvme.h\<close>
  declares: which members the writes by offset, position and size set, and that they set no other.
\<close>

section \<open>The four registers\<close>

text \<open>The bits of the registers that the set-up may change.\<close>

definition setup_bits :: "nat set" where
  "setup_bits = {164..<184} \<union> {288..<300} \<union> {304..<316} \<union> {332..<384} \<union> {396..<448}"

lemma configure_regions:
  assumes "\<not> in_region (a + 0x14) 4 b" "\<not> in_region (a + 0x24) 4 b" "\<not> in_region (a + 0x28) 8 b" "\<not> in_region (a + 0x30) 8 b"
  shows "mem (nvme_configure lk (quiet_hw port) pml4 a s) b = mem s b"
  using assms set_aqa(2) [where a = a] set_cc(2) set_asq(2)
  by (simp add: nvme_configure_def nvme_set_queues_def Let_def only_in_def)

text \<open>What the registers hold after the set-up, as fields put into what they held before.\<close>

lemma configure_fields:
  "\<exists>p q. let m = mem s; m' = mem (nvme_configure lk (quiet_hw port) pml4 a s) in
     load32 m' (a + 0x24) = put_field 16 12 31 (put_field 0 12 31 (load32 m (a + 0x24))) \<and>
     load64 m' (a + 0x28) = put_field 12 52 p (load64 m (a + 0x28)) \<and>
     load64 m' (a + 0x30) = put_field 12 52 q (load64 m (a + 0x30)) \<and>
     load32 m' (a + 0x14) = put_field 20 4 4 (put_field 16 4 6 (put_field 14 2 0 (put_field 11 3 0 (put_field 7 4 0
       (put_field 4 3 0 (load32 m (a + 0x14)))))))"
  using nvme_admin_setup [of a s lk port pml4]
  by (simp only: Let_def aqa_field cc_field queue_field) blast

lemma page_region:
  assumes "d < 4096" and "c + k \<le> 4096"
  shows "in_region (a + of_nat c) k (a + of_nat d) \<longleftrightarrow> c \<le> d \<and> d < c + k"
proof -
  have "in_region (a + of_nat c) k (a + of_nat d) \<longleftrightarrow> in_region (of_nat c) k (of_nat d)"
    by (simp add: in_region_def)
  also have "\<dots> \<longleftrightarrow> c \<le> unat (of_nat d :: u64) \<and> unat (of_nat d :: u64) < c + k"
    using assms by (intro in_region_nat) simp_all
  finally show ?thesis using assms(1) by simp
qed

lemma put_field_bit:
  "off + sz \<le> LENGTH('a) \<Longrightarrow> take_bit sz v = v \<Longrightarrow> n < LENGTH('a) \<Longrightarrow> n < off \<or> off + sz \<le> n \<Longrightarrow>
     bit (put_field off sz v w) n = bit (w :: 'a::len word) n"
  using take_bit_self_bit [of sz v "n - off"] by (auto simp: bit_put_field)

lemma register_bit:
  assumes "load_le k m' (a + of_nat c) = (w' :: 'a::len word)" and "load_le k m (a + of_nat c) = (w :: 'a word)" and "8 * k = LENGTH('a)"
    and "8 * c \<le> i" and "i < 8 * c + 8 * k" and "bit w' (i - 8 * c) = bit w (i - 8 * c)"
  shows "mem_bit m' a i = mem_bit m a i"
proof -
  have "mem_bit n a (8 * c + (i - 8 * c)) = bit (load_le k n (a + of_nat c) :: 'a word) (i - 8 * c)" for n
    using assms(3-5) by (intro mem_bit_load) simp_all
  then show ?thesis using assms by simp
qed

lemma bit_kept:
  assumes "i \<notin> setup_bits" and "i < 8 * 4096"
  shows "mem_bit (mem (nvme_configure lk (quiet_hw port) pml4 a s)) a i = mem_bit (mem s) a i"
proof -
  let ?m' = "mem (nvme_configure lk (quiet_hw port) pml4 a s)"
  obtain p q where f: "load32 ?m' (a + 0x24) = put_field 16 12 31 (put_field 0 12 31 (load32 (mem s) (a + 0x24)))"
     "load64 ?m' (a + 0x28) = put_field 12 52 p (load64 (mem s) (a + 0x28))"
     "load64 ?m' (a + 0x30) = put_field 12 52 q (load64 (mem s) (a + 0x30))"
     "load32 ?m' (a + 0x14) = put_field 20 4 4 (put_field 16 4 6 (put_field 14 2 0 (put_field 11 3 0 (put_field 7 4 0
       (put_field 4 3 0 (load32 (mem s) (a + 0x14)))))))"
    using configure_fields [of s lk port pml4 a] unfolding Let_def by blast
  have t: "take_bit 12 (31 :: u32) = 31" "take_bit 4 (6 :: u32) = 6" "take_bit 4 (4 :: u32) = 4" by code_simp+
  consider "160 \<le> i" "i < 192" | "288 \<le> i" "i < 320" | "320 \<le> i" "i < 384" | "384 \<le> i" "i < 448"
    | "i < 160 \<or> 192 \<le> i \<and> i < 288 \<or> 448 \<le> i" by linarith
  then show ?thesis
  proof cases
    case 1
    then have "i - 160 < 4 \<or> 24 \<le> i - 160" "i - 160 < 32" using assms(1) by (auto simp: setup_bits_def)
    then show ?thesis using 1 f(4) register_bit [of 4 ?m' a 20 _ "mem s" _ i, OF _ refl, where 'a = 32]
      by (auto simp: put_field_bit t)
  next
    case 2
    then have "12 \<le> i - 288 \<and> i - 288 < 16 \<or> 28 \<le> i - 288" "i - 288 < 32" using assms(1) by (auto simp: setup_bits_def)
    then show ?thesis using 2 f(1) register_bit [of 4 ?m' a 36 _ "mem s" _ i, OF _ refl, where 'a = 32]
      by (auto simp: put_field_bit t)
  next
    case 3
    then have "i - 320 < 12" using assms(1) by (auto simp: setup_bits_def)
    then show ?thesis using 3 f(2) register_bit [of 8 ?m' a 40 _ "mem s" _ i, OF _ refl, where 'a = 64]
      by (auto simp: bit_put_field)
  next
    case 4
    then have "i - 384 < 12" using assms(1) by (auto simp: setup_bits_def)
    then show ?thesis using 4 f(3) register_bit [of 8 ?m' a 48 _ "mem s" _ i, OF _ refl, where 'a = 64]
      by (auto simp: bit_put_field)
  next
    case 5
    then have d: "i div 8 < 20 \<or> 24 \<le> i div 8 \<and> i div 8 < 36 \<or> 56 \<le> i div 8" "i div 8 < 4096"
      using assms(2) by linarith+
    have "?m' (a + of_nat (i div 8)) = mem s (a + of_nat (i div 8))"
      using page_region [OF d(2), of 20 4 a] page_region [OF d(2), of 36 4 a] page_region [OF d(2), of 40 8 a]
        page_region [OF d(2), of 48 8 a] d(1)
      by (intro configure_regions) auto
    then show ?thesis by (simp add: mem_bit_def)
  qed
qed

section \<open>The members set\<close>

definition setup_members :: "sel list list" where
  "setup_members = map (\<lambda>f. [Mem ''cc'', Mem f]) [''css'', ''mps'', ''ams'', ''shn'', ''iosqes'', ''iocqes''] @
     map (\<lambda>f. [Mem ''aqa'', Mem f]) [''asqs'', ''acqs''] @ [[Mem ''asq'', Mem ''asqb''], [Mem ''acq'', Mem ''acqb'']]"

definition setup_fields :: "(nat \<times> nat) list" where
  "setup_fields = [(164, 3), (167, 4), (171, 3), (174, 2), (176, 4), (180, 4), (288, 12), (304, 12), (332, 52), (396, 52)]"

lemma located_members: "map (locate NVME_CONTROLLER_REGISTERS) setup_members = map Some setup_fields"
  by (simp add: setup_members_def setup_fields_def decl_simps)

lemma setup_bits_fields: "i \<in> setup_bits \<Longrightarrow> \<exists>y\<in>set setup_fields. fst y \<le> i \<and> i < fst y + snd y"
  unfolding setup_bits_def setup_fields_def by simp presburger

lemma other_members:
  assumes "\<forall>q\<in>set setup_members. parallel p q"
  shows "value_of NVME_CONTROLLER_REGISTERS p (mem (nvme_configure lk (quiet_hw port) pml4 a s)) a =
    value_of NVME_CONTROLLER_REGISTERS p (mem s) a"
proof (cases "locate NVME_CONTROLLER_REGISTERS p")
  case (Some x)
  have "apart_bits x y" if "y \<in> set setup_fields" for y
  proof -
    have "Some y \<in> set (map (locate NVME_CONTROLLER_REGISTERS) setup_members)" using that unfolding located_members by simp
    then obtain q where "q \<in> set setup_members" "locate NVME_CONTROLLER_REGISTERS q = Some y" by auto
    with locate_apart [OF Some] assms show ?thesis by blast
  qed
  then have out: "i \<notin> setup_bits" if "fst x \<le> i" "i < fst x + snd x" for i
    using that setup_bits_fields [of i] by (fastforce simp: apart_bits_def)
  have "width NVME_CONTROLLER_REGISTERS = 8 * 4096" by (simp add: decl_simps)
  moreover have "fst x + snd x \<le> width NVME_CONTROLLER_REGISTERS" by (rule locate_within [where p = p]) (simp add: Some)
  ultimately have "bits_at (mem (nvme_configure lk (quiet_hw port) pml4 a s)) a (fst x) (snd x) = bits_at (mem s) a (fst x) (snd x)"
    using out by (intro bits_at_cong bit_kept) simp_all
  with Some show ?thesis by (simp add: value_of_def case_prod_unfold)
qed (simp add: value_of_def)

lemma get_bits: "sz \<le> LENGTH('a) \<Longrightarrow> take_bit sz (drop_bit off w) = get_field off sz (w :: 'a::len word)"
  by (rule bit_word_eqI) (auto simp: bit_get_field bit_take_bit_iff bit_drop_bit_eq)

lemma setup_field_values:
  "get_field 4 3 (put_field 20 4 4 (put_field 16 4 6 (put_field 14 2 0 (put_field 11 3 0 (put_field 7 4 0 (put_field 4 3 0 w)))))) = (0 :: u32)"
  "get_field 7 4 (put_field 20 4 4 (put_field 16 4 6 (put_field 14 2 0 (put_field 11 3 0 (put_field 7 4 0 w))))) = (0 :: u32)"
  "get_field 11 3 (put_field 20 4 4 (put_field 16 4 6 (put_field 14 2 0 (put_field 11 3 0 w)))) = (0 :: u32)"
  "get_field 14 2 (put_field 20 4 4 (put_field 16 4 6 (put_field 14 2 0 w))) = (0 :: u32)"
  "get_field 16 4 (put_field 20 4 4 (put_field 16 4 6 w)) = (6 :: u32)" "get_field 20 4 (put_field 20 4 4 w) = (4 :: u32)"
  "get_field 0 12 (put_field 16 12 31 (put_field 0 12 31 w)) = (31 :: u32)" "get_field 16 12 (put_field 16 12 31 w) = (31 :: u32)"
proof -
  have t: "take_bit 12 (31 :: u32) = 31" "take_bit 4 (6 :: u32) = 6" "take_bit 4 (4 :: u32) = 4" by code_simp+
  show "get_field 4 3 (put_field 20 4 4 (put_field 16 4 6 (put_field 14 2 0 (put_field 11 3 0 (put_field 7 4 0 (put_field 4 3 0 w)))))) = (0 :: u32)"
    "get_field 7 4 (put_field 20 4 4 (put_field 16 4 6 (put_field 14 2 0 (put_field 11 3 0 (put_field 7 4 0 w))))) = (0 :: u32)"
    "get_field 11 3 (put_field 20 4 4 (put_field 16 4 6 (put_field 14 2 0 (put_field 11 3 0 w)))) = (0 :: u32)"
    "get_field 14 2 (put_field 20 4 4 (put_field 16 4 6 (put_field 14 2 0 w))) = (0 :: u32)"
    "get_field 16 4 (put_field 20 4 4 (put_field 16 4 6 w)) = (6 :: u32)" "get_field 20 4 (put_field 20 4 4 w) = (4 :: u32)"
    "get_field 0 12 (put_field 16 12 31 (put_field 0 12 31 w)) = (31 :: u32)" "get_field 16 12 (put_field 16 12 31 w) = (31 :: u32)"
    by (simp_all add: get_put_other get_put_field t)
qed

lemma queue_value: "get_field 12 52 (put_field 12 52 p w) = take_bit 52 (p :: u64)"
  by (rule bit_word_eqI) (auto simp: bit_get_field bit_put_field bit_take_bit_iff)

lemma map_map_option_Some: "map (map_option g) (map Some xs) = map Some (map g xs)"
  by simp

section \<open>Properties\<close>

text \<open>C24: after the set-up of a quiet controller the members of its registers, as declared in
  \<open>NVME_CONTROLLER_REGISTERS\<close>, have these values: command set, page size, arbitration and shutdown
  notification 0, the entry sizes \<open>2 ^ 6\<close> and \<open>2 ^ 4\<close>, 32 entries in both admin queues, and as base of a
  queue, which counts pages, the low 52 bits of its physical address. Every other member, also
  of the registers that were written, keeps its value.\<close>

theorem controller_members:
  assumes "\<forall>q\<in>set setup_members. parallel p q"
  shows "\<exists>m1 m2. only_in (a + 0x24) 20 (mem s) m1 \<and> only_in (a + 0x24) 20 (mem s) m2 \<and>
    (let R = value_of NVME_CONTROLLER_REGISTERS; m' = mem (nvme_configure lk (quiet_hw port) pml4 a s);
         tr = vir_to_phys (lk_bitfield lk) pml4
     in map (\<lambda>q. R q m' a) setup_members = map Some [0, 0, 0, 0, 6, 4, 31, 31,
          unat (take_bit 52 (tr m1 (lk_asq lk))), unat (take_bit 52 (tr m2 (lk_acq lk)))] \<and>
        R p m' a = R p (mem s) a)"
proof -
  let ?m' = "mem (nvme_configure lk (quiet_hw port) pml4 a s)" and ?tr = "vir_to_phys (lk_bitfield lk) pml4"
  obtain m1 m2 where m: "only_in (a + 0x24) 20 (mem s) m1" "only_in (a + 0x24) 20 (mem s) m2"
    and f: "load32 ?m' (a + 0x24) = put_field 16 12 31 (put_field 0 12 31 (load32 (mem s) (a + 0x24)))"
     "load64 ?m' (a + 0x28) = put_field 12 52 (?tr m1 (lk_asq lk)) (load64 (mem s) (a + 0x28))"
     "load64 ?m' (a + 0x30) = put_field 12 52 (?tr m2 (lk_acq lk)) (load64 (mem s) (a + 0x30))"
     "load32 ?m' (a + 0x14) = put_field 20 4 4 (put_field 16 4 6 (put_field 14 2 0 (put_field 11 3 0 (put_field 7 4 0
       (put_field 4 3 0 (load32 (mem s) (a + 0x14)))))))"
    using nvme_admin_setup [of a s lk port pml4] unfolding Let_def aqa_field cc_field queue_field by blast
  have d: "bits_at ?m' a (8 * c + off) sz = unat (get_field off sz (load32 ?m' (a + of_nat c)))" if "off + sz \<le> 32" for c off sz
    using load_bits [of off sz 4 ?m' a c, where 'a = 32] that by (simp add: get_bits)
  have q: "bits_at ?m' a (8 * c + 12) 52 = unat (get_field 12 52 (load64 ?m' (a + of_nat c)))" for c
    using load_bits [of 12 52 8 ?m' a c, where 'a = 64] by (simp add: get_bits)
  have "map (\<lambda>x. bits_at ?m' a (fst x) (snd x)) setup_fields = [0, 0, 0, 0, 6, 4, 31, 31,
      unat (take_bit 52 (?tr m1 (lk_asq lk))), unat (take_bit 52 (?tr m2 (lk_acq lk)))]"
    using d [of 4 3 20] d [of 7 4 20] d [of 11 3 20] d [of 14 2 20] d [of 16 4 20] d [of 20 4 20] d [of 0 12 36] d [of 16 12 36]
      q [of 40] q [of 48]
    by (simp add: setup_fields_def f setup_field_values queue_value)
  moreover have "map (\<lambda>q. value_of NVME_CONTROLLER_REGISTERS q ?m' a) setup_members =
      map (map_option (\<lambda>x. bits_at ?m' a (fst x) (snd x))) (map (locate NVME_CONTROLLER_REGISTERS) setup_members)"
    by (simp add: value_of_def case_prod_unfold)
  ultimately have "map (\<lambda>q. value_of NVME_CONTROLLER_REGISTERS q ?m' a) setup_members = map Some [0, 0, 0, 0, 6, 4, 31, 31,
      unat (take_bit 52 (?tr m1 (lk_asq lk))), unat (take_bit 52 (?tr m2 (lk_acq lk)))]"
    unfolding located_members by (simp only: map_map_option_Some)
  with m other_members [OF assms] show ?thesis unfolding Let_def by blast
qed

text \<open>On registers full of ones, the enable bit, which \<open>_start\<close> sets only later.\<close>

theorem controller_members_witness:
  "\<exists>lk m'. value_of NVME_CONTROLLER_REGISTERS [Mem ''cc'', Mem ''iosqes''] m' 0x8000 = Some 6 \<and>
     value_of NVME_CONTROLLER_REGISTERS [Mem ''cc'', Mem ''en''] m' 0x8000 = Some 1 \<and>
     m' = mem (nvme_configure lk (quiet_hw (\<lambda>_ _. 0)) 0 0x8000 ex_nvme)"
proof -
  have p: "\<forall>q\<in>set setup_members. parallel [Mem ''cc'', Mem ''en''] q"
    by (simp add: setup_members_def parallel_def)
  have "value_of NVME_CONTROLLER_REGISTERS [Mem ''cc'', Mem ''en''] (mem ex_nvme) 0x8000 = Some 1"
    by (simp add: value_of_def decl_simps bits_at_def mem_bit_def ex_nvme_def)
  with controller_members [OF p, where a = "0x8000" and s = ex_nvme and port = "\<lambda>_ _. 0" and ?pml4.0 = 0] show ?thesis
    unfolding Let_def setup_members_def by auto
qed

end
